theory Spec2Isabelle
  imports Complex_Main "HOL-Library.AList" "HOL-Library.Stream" "HOL-Library.Sublist"
    "HOL-Library.Log_Nat"
begin

section \<open>Python values\<close>

text \<open>
  A Python dict is an association list in insertion order: \<open>d.get(k, dflt)\<close> is
  \<open>dict_get\<close>, the assignment \<open>d[k] = v\<close> is \<open>AList.update\<close> (the entry keeps its
  place, a new key goes to the end) and \<open>d.pop(k, None)\<close> is \<open>AList.delete\<close>.
  \<open>int(x)\<close> truncates toward zero.
\<close>

type_synonym 'v dict = "(string \<times> 'v) list"

definition dict_get :: "('k \<times> 'v) list \<Rightarrow> 'k \<Rightarrow> 'v \<Rightarrow> 'v" where
  "dict_get d k dflt = (case map_of d k of None \<Rightarrow> dflt | Some v \<Rightarrow> v)"

definition py_int :: "rat \<Rightarrow> int" where
  "py_int x = (if 0 \<le> x then \<lfloor>x\<rfloor> else \<lceil>x\<rceil>)"

text \<open>
  Floats. A Python float is a binary64 number; a finite one is the rational it stands
  for. A float operation returns its exact result rounded to the nearest float, a tie
  going to the float with the even significand: this is \<open>fl_round\<close>, with 53
  significant bits and \<open>-1074\<close> the exponent of the last bit of a subnormal number.
  \<open>fl_exponent x\<close> is the \<open>k\<close> with \<open>2^k \<le> |x| < 2^(k+1)\<close>. The conversion
  \<open>float(n)\<close> of an int and the reading of a decimal literal round in the same way. A
  result beyond the largest float, which Python turns into \<open>inf\<close>, is not modelled.
\<close>

definition round_half_even :: "rat \<Rightarrow> int" where
  "round_half_even y =
     (let f = \<lfloor>y\<rfloor>; r = y - of_int f
      in if r < 1 / 2 then f else if 1 / 2 < r then f + 1 else if even f then f else f + 1)"

definition fl_exponent :: "rat \<Rightarrow> int" where
  "fl_exponent x =
     (let (p, q) = quotient_of \<bar>x\<bar>; k = bitlen p - bitlen q
      in if 2 powi k \<le> \<bar>x\<bar> then k else k - 1)"

definition fl_round :: "rat \<Rightarrow> rat" where
  "fl_round x =
     (if x = 0 then 0
      else (let e = max (fl_exponent x - 52) (- 1074)
            in of_int (round_half_even (x / 2 powi e)) * 2 powi e))"

text \<open>
  A number that the code uses as the content files give it is an int or a float. The
  sum, difference or product of two ints is exact; with a float on either side the int
  is converted and the operation is the float one. \<open>py_float x\<close> is the float that the
  literal \<open>x\<close> denotes, \<open>py_max0 x\<close> is \<open>max(0, x)\<close> (which is the int \<open>0\<close> unless
  \<open>x > 0\<close>) and \<open>py_trunc x\<close> is \<open>int(x)\<close>.
\<close>

datatype pynum = PInt int | PFloat rat

definition py_float :: "rat \<Rightarrow> pynum" where
  "py_float x = PFloat (fl_round x)"

definition py_val :: "pynum \<Rightarrow> rat" where
  "py_val x = (case x of PInt n \<Rightarrow> of_int n | PFloat q \<Rightarrow> q)"

definition to_float :: "pynum \<Rightarrow> rat" where
  "to_float x = (case x of PInt n \<Rightarrow> fl_round (of_int n) | PFloat q \<Rightarrow> q)"

definition py_add :: "pynum \<Rightarrow> pynum \<Rightarrow> pynum" where
  "py_add a b =
     (case (a, b) of
        (PInt m, PInt n) \<Rightarrow> PInt (m + n)
      | _ \<Rightarrow> PFloat (fl_round (to_float a + to_float b)))"

definition py_sub :: "pynum \<Rightarrow> pynum \<Rightarrow> pynum" where
  "py_sub a b =
     (case (a, b) of
        (PInt m, PInt n) \<Rightarrow> PInt (m - n)
      | _ \<Rightarrow> PFloat (fl_round (to_float a - to_float b)))"

definition py_mul :: "pynum \<Rightarrow> pynum \<Rightarrow> pynum" where
  "py_mul a b =
     (case (a, b) of
        (PInt m, PInt n) \<Rightarrow> PInt (m * n)
      | _ \<Rightarrow> PFloat (fl_round (to_float a * to_float b)))"

definition py_max0 :: "pynum \<Rightarrow> pynum" where
  "py_max0 x = (if 0 < py_val x then x else PInt 0)"

definition py_trunc :: "pynum \<Rightarrow> int" where
  "py_trunc x = (case x of PInt n \<Rightarrow> n | PFloat q \<Rightarrow> py_int q)"

text \<open>
  Elsewhere a number is a rational. A number that the code passes through \<open>float()\<close>
  (the power and the chance of an effect, the factor of a multiplier) is given as that
  float. The hp of an actor is an int until a bleed subtracts a float from it; the hp
  is the rational it stands for, and adding an int to it or subtracting one from it is
  exact.
\<close>

text \<open>Truthiness of an \<open>Optional[str]\<close>: \<open>None\<close> and the empty string are false.\<close>

definition truthy :: "string option \<Rightarrow> bool" where
  "truthy s = (case s of None \<Rightarrow> False | Some v \<Rightarrow> v \<noteq> [])"

text \<open>\<open>a or b\<close> on two optional strings, as in \<open>spec.get("type") or spec.get("effect")\<close>.\<close>

definition py_or :: "string option \<Rightarrow> string option \<Rightarrow> string option" where
  "py_or a b = (if truthy a then a else b)"

text \<open>
  The random module. The generator is the stream of its future raw outputs;
  \<open>random()\<close> returns a multiple of \<open>2^-53\<close> in \<open>[0, 1)\<close>, \<open>randint(a, b)\<close> an integer
  of \<open>[a, b]\<close> and \<open>choice(seq)\<close> an element of a non-empty sequence.
\<close>

type_synonym rng = "nat stream"

definition rng_random :: "rng \<Rightarrow> rat \<times> rng" where
  "rng_random g = (of_nat (shd g mod 2 ^ 53) / 2 ^ 53, stl g)"

definition rng_randint :: "int \<Rightarrow> int \<Rightarrow> rng \<Rightarrow> int \<times> rng" where
  "rng_randint a b g = (a + int (shd g) mod (b - a + 1), stl g)"

definition rng_choice :: "'a list \<Rightarrow> rng \<Rightarrow> 'a \<times> rng" where
  "rng_choice pool g = (pool ! (shd g mod length pool), stl g)"

section \<open>Log lines and messages\<close>

text \<open>
  Every log line of the source is a fixed text with values formatted into it; a line is
  modelled by a constructor that carries those values.
\<close>

datatype msg =
    MsgItemNotFound
  | MsgOnlyEquipment
  | MsgBadSlot
  | MsgNotInInventory
  | MsgEquipped string
  | MsgBadUnequipSlot
  | MsgNothingEquipped
  | MsgUnequipped string
  | MsgOnlyConsumable
  | MsgHealDone
  | MsgCleanseDone
  | MsgNoChange
  | MsgBuffApplied
  | MsgUnknownConsumable

datatype log_line =
    LogBattleStart string
  | LogEffectFailed
  | LogHeal string int
  | LogBuff string "(string \<times> int) list" int
  | LogDebuff string "(string \<times> int) list" int
  | LogBleedApplied string int
  | LogStunApplied string int
  | LogUnknownEffect "string option"
  | LogBleedTick string rat rat rat
  | LogExpired string string
  | LogCannotAct string
  | LogNoItem
  | LogMsg msg
  | LogDrops "(string \<times> int) list"
  | LogUnknownSkill
  | LogPlayerUses string
  | LogDamageToEnemy int int
  | LogEnemyHp rat int
  | LogEnemyUses string string
  | LogDamageToPlayer int int
  | LogPlayerHp rat int
  | LogLifesteal rat rat
  | LogItemUsed string
  | LogItemHeal int rat rat
  | LogCleansed "string list"
  | LogNothingToCleanse
  | LogExp int
  | LogLevelUp int

section \<open>entities.py\<close>

record Stats =
  attack :: int
  magic :: int
  defense :: int
  magic_resist :: int
  max_hp :: int

definition with_bonus :: "Stats \<Rightarrow> int dict \<Rightarrow> Stats" where
  "with_bonus s bonus =
     \<lparr>attack = attack s + dict_get bonus ''attack'' 0,
      magic = magic s + dict_get bonus ''magic'' 0,
      defense = defense s + dict_get bonus ''defense'' 0,
      magic_resist = magic_resist s + dict_get bonus ''magic_resist'' 0,
      max_hp = max_hp s + dict_get bonus ''max_hp'' 0\<rparr>"

text \<open>effects.py, \<open>EffectInstance\<close>. The field \<open>power\<close> is \<open>power_v\<close> here.\<close>

record EffectInstance =
  kind :: string
  duration :: int
  power_v :: rat
  stats_delta :: "int dict"
  source :: "string option"

text \<open>
  \<open>hp\<close> is declared an int, but a bleed tick subtracts the float \<open>power\<close> from it, so
  it is a number.
\<close>

record Actor =
  name :: string
  stats :: Stats
  hp :: rat
  skills :: "string list"
  effects :: "EffectInstance list"

text \<open>The fields \<open>exp\<close> and \<open>exp_to_next\<close> of \<open>Player\<close> are \<open>exp_p\<close> and \<open>exp_to_next_p\<close>.\<close>

record Player = Actor +
  player_id :: string
  level :: int
  exp_p :: int
  exp_to_next_p :: int
  stat_points :: int
  inventory :: "int dict"
  equipment :: "(string option) dict"
  allocated_stats :: "int dict"
  base_stats :: Stats

text \<open>A gimmick of a boss, a dict of the content files, with the defaults of its reads.\<close>

record gimmick_action =
  a_type :: "string option"
  a_target :: "string option"
  a_effect :: "string option"
  a_duration :: "int option"
  a_power :: "rat option"

record gimmick =
  g_once :: bool
  g_trigger :: "string option"
  g_n :: "int option"
  g_ratio :: "rat option"
  g_action :: "gimmick_action option"

record Enemy = Actor +
  enemy_id :: string
  ai :: string
  gimmicks :: "gimmick option list"
  drop_table :: "string option"
  is_boss :: bool

record BattleResult =
  winner :: string
  exp_r :: int
  drops :: "(string \<times> int) list"
  drop_details :: "(string \<times> int) list"
  logs_r :: "log_line list"

definition apply_damage :: "int \<Rightarrow> 'a Actor_scheme \<Rightarrow> 'a Actor_scheme" where
  "apply_damage amount a = a\<lparr>hp := max 0 (hp a - of_int amount)\<rparr>"

definition is_dead :: "'a Actor_scheme \<Rightarrow> bool" where
  "is_dead a = (hp a \<le> 0)"

text \<open>The loop \<open>for key, val in d.items(): bonus[key] = bonus.get(key, 0) + int(val)\<close>.\<close>

definition dict_add_all :: "int dict \<Rightarrow> int dict \<Rightarrow> int dict" where
  "dict_add_all bonus d =
     fold (\<lambda>(key, val) b. AList.update key (dict_get b key 0 + val) b) d bonus"

definition effect_bonus :: "'a Actor_scheme \<Rightarrow> int dict" where
  "effect_bonus a =
     fold (\<lambda>eff bonus.
            if duration eff \<le> 0 then bonus
            else if kind eff \<noteq> ''buff_stats'' \<and> kind eff \<noteq> ''debuff_stats'' then bonus
            else dict_add_all bonus (stats_delta eff))
          (effects a) []"

definition get_total_stats :: "'a Actor_scheme \<Rightarrow> Stats" where
  "get_total_stats a = with_bonus (stats a) (effect_bonus a)"

text \<open>Items of the catalog (items.json), with the keys the engine reads.\<close>

record special_def =
  sp_type :: "string option"
  sp_stat :: "string option"
  sp_mult :: "rat option"
  sp_chance :: "rat option"
  sp_effect :: "string option"
  sp_duration :: "int option"
  sp_power :: "rat option"

record use_effect_def =
  ue_type :: "string option"
  ue_power :: "rat option"
  ue_remove :: "string list"
  ue_duration :: "int option"
  ue_stats :: "int dict"

record item_def =
  it_name :: "string option"
  it_type :: "string option"
  it_slot :: "string option"
  it_stats :: "int dict"
  it_special :: "special_def option"
  it_use_effect :: "use_effect_def option"

text \<open>
  The head of both loops over \<open>self.equipment.items()\<close>: an empty slot is skipped, the
  resolver is \<open>items.get\<close> when \<open>items\<close> is non-empty, an unknown id is skipped.
\<close>

definition resolve_item :: "item_def dict \<Rightarrow> string option \<Rightarrow> item_def option" where
  "resolve_item items item_id =
     (case item_id of
        None \<Rightarrow> None
      | Some i \<Rightarrow> if i = [] then None else if items = [] then None else map_of items i)"

definition equip_bonus :: "item_def dict \<Rightarrow> (string option) dict \<Rightarrow> int dict \<Rightarrow> int dict" where
  "equip_bonus items eq bonus =
     fold (\<lambda>(slot, item_id) b.
            case resolve_item items item_id of
              None \<Rightarrow> b
            | Some item_obj \<Rightarrow> dict_add_all b (it_stats item_obj))
          eq bonus"

text \<open>
  The multipliers are floats: \<open>multipliers[stat_key] *= mult\<close> is a float product, and
  so is \<open>base.attack * multipliers["attack"]\<close>, of the int converted to a float.
\<close>

definition init_multipliers :: "rat dict" where
  "init_multipliers =
     [(''attack'', 1), (''magic'', 1), (''defense'', 1), (''magic_resist'', 1), (''max_hp'', 1)]"

definition equip_multipliers :: "item_def dict \<Rightarrow> (string option) dict \<Rightarrow> rat dict" where
  "equip_multipliers items eq =
     fold (\<lambda>(slot, item_id) m.
            case resolve_item items item_id of
              None \<Rightarrow> m
            | Some item_obj \<Rightarrow>
                (case it_special item_obj of
                   None \<Rightarrow> m
                 | Some special \<Rightarrow>
                     if sp_type special = Some ''stat_multiplier'' then
                       (let mult = (case sp_mult special of None \<Rightarrow> 1 | Some x \<Rightarrow> x) in
                        case sp_stat special of
                          None \<Rightarrow> m
                        | Some stat_key \<Rightarrow>
                            if stat_key \<in> fst ` set m \<and> mult > 0
                            then AList.update stat_key
                                   (fl_round (dict_get m stat_key 1 * mult)) m
                            else m)
                     else m))
          eq init_multipliers"

definition total_stats :: "Player \<Rightarrow> item_def dict \<Rightarrow> Stats" where
  "total_stats p items =
     (let bonus = allocated_stats p;
          bonus = equip_bonus items (equipment p) bonus;
          multipliers = equip_multipliers items (equipment p);
          bonus = dict_add_all bonus (effect_bonus p);
          base = with_bonus (base_stats p) bonus
      in \<lparr>attack =
            py_int (fl_round (fl_round (of_int (attack base))
                              * dict_get multipliers ''attack'' 1)),
          magic =
            py_int (fl_round (fl_round (of_int (magic base))
                              * dict_get multipliers ''magic'' 1)),
          defense =
            py_int (fl_round (fl_round (of_int (defense base))
                              * dict_get multipliers ''defense'' 1)),
          magic_resist =
            py_int (fl_round (fl_round (of_int (magic_resist base))
                              * dict_get multipliers ''magic_resist'' 1)),
          max_hp =
            py_int (fl_round (fl_round (of_int (max_hp base))
                              * dict_get multipliers ''max_hp'' 1))\<rparr>)"

section \<open>progression.py\<close>

definition exp_to_next :: "int \<Rightarrow> int" where
  "exp_to_next lv = 20 + lv * 10"

text \<open>The while loop of \<open>gain_exp\<close>, with the log lines it appends.\<close>

function level_up_loop :: "Player \<Rightarrow> log_line list \<Rightarrow> Player \<times> log_line list" where
  "level_up_loop p lg =
     (if exp_p p \<ge> exp_to_next (level p)
      then level_up_loop
             (p\<lparr>exp_p := exp_p p - exp_to_next (level p),
                level := level p + 1,
                stat_points := stat_points p + 4\<rparr>)
             (lg @ [LogLevelUp (level p + 1)])
      else (p, lg))"
  by pat_completeness auto
termination
  by (relation "measures [\<lambda>(p, lg). nat (- 2 - level p),
                          \<lambda>(p, lg). nat (exp_p p - exp_to_next (level p) + 1)]")
     (auto simp: exp_to_next_def)

definition gain_exp :: "Player \<Rightarrow> int \<Rightarrow> Player \<times> log_line list" where
  "gain_exp p amount = level_up_loop (p\<lparr>exp_p := exp_p p + amount\<rparr>) [LogExp amount]"

section \<open>The catalog (data_store.py)\<close>

text \<open>
  An effect spec is a dict of the content files; a key that may be absent is an option,
  and each read applies its own default. \<open>validate_all\<close> requires the four numbers of a
  skill, so they are plain fields; \<open>apply_effect\<close> (one spec, a list or nothing) is the
  list of its specs.
\<close>

record effect_spec =
  es_type :: "string option"
  es_effect :: "string option"
  es_chance :: "rat option"
  es_duration :: "int option"
  es_power :: "rat option"
  es_stats :: "int dict"
  es_note :: "string option"
  es_source :: "string option"
  es_target :: "string option"

record skill_def =
  sk_name :: "string option"
  base_physical :: pynum
  base_magic :: pynum
  scale_attack :: pynum
  scale_magic :: pynum
  sk_apply_effect :: "effect_spec list"

record drop_entry =
  de_item :: "string option"
  de_chance :: "rat option"
  de_min :: "int option"
  de_max :: "int option"

record DataStore =
  ds_skills :: "skill_def dict"
  ds_items :: "item_def dict"
  ds_drop_tables :: "(drop_entry list) dict"

definition get_item :: "DataStore \<Rightarrow> string \<Rightarrow> item_def option" where
  "get_item ds item_id = map_of (ds_items ds) item_id"

text \<open>\<open>items.get(i, {}).get("name", i)\<close>\<close>

definition item_name :: "DataStore \<Rightarrow> string \<Rightarrow> string" where
  "item_name ds i =
     (case map_of (ds_items ds) i of
        None \<Rightarrow> i
      | Some item \<Rightarrow> (case it_name item of None \<Rightarrow> i | Some n \<Rightarrow> n))"

section \<open>effects.py\<close>

definition roll_chance :: "rat \<Rightarrow> rng \<Rightarrow> bool \<times> rng" where
  "roll_chance chance g = (let (u, g') = rng_random g in (u \<le> chance, g'))"

definition has_effect :: "'a Actor_scheme \<Rightarrow> string \<Rightarrow> bool" where
  "has_effect target effect_kind =
     list_ex (\<lambda>e. kind e = effect_kind \<and> duration e > 0) (effects target)"

definition py_str :: "string option \<Rightarrow> string" where
  "py_str s = (case s of None \<Rightarrow> ''None'' | Some v \<Rightarrow> v)"

text \<open>
  \<open>apply_effect\<close>. The argument \<open>gts\<close> is the target's own \<open>get_total_stats\<close> (with the
  items the caller passes), which \<open>_target_max_hp\<close> calls. The generator is drawn from
  only when the chance is below 1.
\<close>

definition apply_effect ::
  "('a Actor_scheme \<Rightarrow> Stats) \<Rightarrow> 'a Actor_scheme \<Rightarrow> effect_spec \<Rightarrow> log_line list \<Rightarrow> rng
     \<Rightarrow> 'a Actor_scheme \<times> log_line list \<times> rng" where
  "apply_effect gts target spec lg g =
     (let effect_type = py_or (es_type spec) (es_effect spec);
          chance = (case es_chance spec of None \<Rightarrow> 1 | Some c \<Rightarrow> c);
          dur = (case es_duration spec of None \<Rightarrow> 0 | Some d \<Rightarrow> d);
          pw = (case es_power spec of None \<Rightarrow> 0 | Some x \<Rightarrow> x);
          sd = es_stats spec;
          src = py_or (es_note spec) (es_source spec);
          (passed, g1) = (if chance < 1 then roll_chance chance g else (True, g))
      in if \<not> passed then (target, lg @ [LogEffectFailed], g1)
         else if effect_type = Some ''heal'' then
           (target\<lparr>hp := min (of_int (max_hp (gts target))) (hp target + of_int (py_int pw))\<rparr>,
            lg @ [LogHeal (name target) (py_int pw)], g1)
         else if effect_type = Some ''lifesteal'' then (target, lg, g1)
         else
           (let inst = \<lparr>kind = py_str effect_type, duration = dur, power_v = pw,
                        stats_delta = sd, source = src\<rparr>
            in if effect_type = Some ''buff_stats'' then
                 (target\<lparr>effects := effects target @ [inst]\<rparr>,
                  lg @ [LogBuff (name target) sd dur], g1)
               else if effect_type = Some ''debuff_stats'' then
                 (target\<lparr>effects := effects target @ [inst]\<rparr>,
                  lg @ [LogDebuff (name target) sd dur], g1)
               else if effect_type = Some ''bleed'' then
                 (target\<lparr>effects := effects target @ [inst]\<rparr>,
                  lg @ [LogBleedApplied (name target) dur], g1)
               else if effect_type = Some ''stun'' then
                 (target\<lparr>effects := effects target @ [inst]\<rparr>,
                  lg @ [LogStunApplied (name target) dur], g1)
               else (target, lg @ [LogUnknownEffect effect_type], g1)))"

text \<open>
  The loop of \<open>tick_end_of_turn\<close> over a copy of the effect list: a bleed lowers the hp
  first, every effect loses one turn, and an effect is kept while its duration is
  positive. The power is a float, so \<open>before - effect.power\<close> is a float difference.
\<close>

fun tick_loop ::
  "string \<Rightarrow> EffectInstance list \<Rightarrow> rat \<Rightarrow> EffectInstance list \<Rightarrow> log_line list
     \<Rightarrow> rat \<times> EffectInstance list \<times> log_line list" where
  "tick_loop nm [] h remaining lg = (h, remaining, lg)"
| "tick_loop nm (effect # rest) h remaining lg =
     (let (h1, lg1) =
            (if kind effect = ''bleed''
             then (max 0 (fl_round (fl_round h - power_v effect)),
                   lg @ [LogBleedTick nm (power_v effect) h
                           (max 0 (fl_round (fl_round h - power_v effect)))])
             else (h, lg));
          effect1 = effect\<lparr>duration := duration effect - 1\<rparr>
      in if duration effect1 > 0
         then tick_loop nm rest h1 (remaining @ [effect1]) lg1
         else tick_loop nm rest h1 remaining (lg1 @ [LogExpired nm (kind effect)]))"

definition tick_end_of_turn ::
  "'a Actor_scheme \<Rightarrow> log_line list \<Rightarrow> 'a Actor_scheme \<times> log_line list" where
  "tick_end_of_turn target lg =
     (let (h, remaining, lg1) = tick_loop (name target) (effects target) (hp target) [] lg
      in (target\<lparr>hp := h, effects := remaining\<rparr>, lg1))"

definition clear_all_battle_effects :: "'a Actor_scheme \<Rightarrow> 'a Actor_scheme" where
  "clear_all_battle_effects target = target\<lparr>effects := []\<rparr>"

definition can_act :: "'a Actor_scheme \<Rightarrow> log_line list \<Rightarrow> bool \<times> log_line list" where
  "can_act target lg =
     (if has_effect target ''stun'' then (False, lg @ [LogCannotAct (name target)])
      else (True, lg))"

section \<open>items.py\<close>

definition add_item_to_inventory :: "Player \<Rightarrow> string \<Rightarrow> int \<Rightarrow> Player" where
  "add_item_to_inventory p item_id qty =
     p\<lparr>inventory :=
         AList.update item_id (dict_get (inventory p) item_id 0 + max 1 qty) (inventory p)\<rparr>"

definition remove_item_from_inventory :: "Player \<Rightarrow> string \<Rightarrow> int \<Rightarrow> bool \<times> Player" where
  "remove_item_from_inventory p item_id qty =
     (let inv = inventory p; need = max 1 qty
      in if dict_get inv item_id 0 < need then (False, p)
         else (let inv1 = AList.update item_id (dict_get inv item_id 0 - need) inv;
                   inv2 = (if dict_get inv1 item_id 0 \<le> 0 then AList.delete item_id inv1
                           else inv1)
               in (True, p\<lparr>inventory := inv2\<rparr>)))"

definition valid_slot :: "string option \<Rightarrow> bool" where
  "valid_slot s = (s = Some ''weapon'' \<or> s = Some ''armor'' \<or> s = Some ''accessory'')"

definition equip_item :: "Player \<Rightarrow> string \<Rightarrow> DataStore \<Rightarrow> bool \<times> msg \<times> Player" where
  "equip_item p item_id ds =
     (case get_item ds item_id of
        None \<Rightarrow> (False, MsgItemNotFound, p)
      | Some item \<Rightarrow>
          if it_type item \<noteq> Some ''equipment'' then (False, MsgOnlyEquipment, p)
          else (case it_slot item of
                  None \<Rightarrow> (False, MsgBadSlot, p)
                | Some slot \<Rightarrow>
                    if \<not> valid_slot (Some slot) then (False, MsgBadSlot, p)
                    else if dict_get (inventory p) item_id 0 \<le> 0
                    then (False, MsgNotInInventory, p)
                    else
                      (let prev = dict_get (equipment p) slot None;
                           p1 = (case prev of
                                   None \<Rightarrow> p
                                 | Some pv \<Rightarrow>
                                     if pv = [] then p else add_item_to_inventory p pv 1);
                           p2 = p1\<lparr>equipment := AList.update slot (Some item_id) (equipment p1)\<rparr>;
                           (removed, p3) = remove_item_from_inventory p2 item_id 1
                       in (True,
                           MsgEquipped (case it_name item of None \<Rightarrow> item_id | Some n \<Rightarrow> n),
                           p3))))"

definition unequip_slot :: "Player \<Rightarrow> string \<Rightarrow> DataStore \<Rightarrow> bool \<times> msg \<times> Player" where
  "unequip_slot p slot ds =
     (if \<not> valid_slot (Some slot) then (False, MsgBadUnequipSlot, p)
      else (case dict_get (equipment p) slot None of
              None \<Rightarrow> (False, MsgNothingEquipped, p)
            | Some current \<Rightarrow>
                if current = [] then (False, MsgNothingEquipped, p)
                else
                  (let p1 = add_item_to_inventory p current 1;
                       p2 = p1\<lparr>equipment := AList.update slot None (equipment p1)\<rparr>
                   in (True, MsgUnequipped (item_name ds current), p2))))"

text \<open>
  \<open>apply_consumable_in_battle\<close>. The buff branch calls \<open>apply_effect\<close> with a spec that
  has no chance, so the generator comes back as it went in.
\<close>

definition apply_consumable_in_battle ::
  "Player \<Rightarrow> string \<Rightarrow> DataStore \<Rightarrow> log_line list \<Rightarrow> rng
     \<Rightarrow> bool \<times> msg \<times> Player \<times> log_line list \<times> rng" where
  "apply_consumable_in_battle p item_id ds lg g =
     (case get_item ds item_id of
        None \<Rightarrow> (False, MsgItemNotFound, p, lg, g)
      | Some item \<Rightarrow>
          if it_type item \<noteq> Some ''consumable'' then (False, MsgOnlyConsumable, p, lg, g)
          else
            (let effect_type = (case it_use_effect item of None \<Rightarrow> None | Some e \<Rightarrow> ue_type e);
                 lg1 = lg @ [LogItemUsed (case it_name item of None \<Rightarrow> item_id | Some n \<Rightarrow> n)]
             in case it_use_effect item of
                  None \<Rightarrow> (False, MsgUnknownConsumable, p, lg1, g)
                | Some effect \<Rightarrow>
                    if effect_type = Some ''heal'' then
                      (let pw = py_int (case ue_power effect of None \<Rightarrow> 0 | Some x \<Rightarrow> x);
                           before = hp p;
                           mx = max_hp (total_stats p (ds_items ds));
                           p1 = p\<lparr>hp := min (of_int mx) (hp p + of_int pw)\<rparr>
                       in (True, MsgHealDone, p1, lg1 @ [LogItemHeal pw before (hp p1)], g))
                    else if effect_type = Some ''cleanse'' then
                      (let remove_list = ue_remove effect;
                           before_count = length (effects p);
                           p1 = p\<lparr>effects := filter (\<lambda>eff. kind eff \<notin> set remove_list) (effects p)\<rparr>
                       in if before_count > length (effects p1)
                          then (True, MsgCleanseDone, p1, lg1 @ [LogCleansed remove_list], g)
                          else (True, MsgNoChange, p1, lg1 @ [LogNothingToCleanse], g))
                    else if effect_type = Some ''buff_stats'' then
                      (let spec = \<lparr>es_type = Some ''buff_stats'', es_effect = None,
                                   es_chance = None,
                                   es_duration =
                                     Some (case ue_duration effect of None \<Rightarrow> 1 | Some d \<Rightarrow> d),
                                   es_power = None, es_stats = ue_stats effect,
                                   es_note = None, es_source = None,
                                   es_target = Some ''self''\<rparr>;
                           (p1, lg2, g1) =
                             apply_effect (\<lambda>q. total_stats q (ds_items ds)) p spec lg1 g;
                           mx = max_hp (total_stats p1 (ds_items ds));
                           p2 = p1\<lparr>hp := min (hp p1) (of_int mx)\<rparr>
                       in (True, MsgBuffApplied, p2, lg2, g1))
                    else (False, MsgUnknownConsumable, p, lg1, g)))"

section \<open>loot.py\<close>

fun roll_entries ::
  "drop_entry list \<Rightarrow> (string \<times> int) list \<Rightarrow> rng \<Rightarrow> (string \<times> int) list \<times> rng" where
  "roll_entries [] results g = (results, g)"
| "roll_entries (entry # rest) results g =
     (let chance = (case de_chance entry of None \<Rightarrow> 0 | Some c \<Rightarrow> c);
          (u, g1) = rng_random g
      in if u \<le> chance then
           (case de_item entry of
              None \<Rightarrow> roll_entries rest results g1
            | Some item_id \<Rightarrow>
                if item_id = [] then roll_entries rest results g1
                else
                  (let qty_min = (case de_min entry of None \<Rightarrow> 1 | Some m \<Rightarrow> m);
                       qty_max = (case de_max entry of None \<Rightarrow> qty_min | Some m \<Rightarrow> m);
                       (qty, g2) = rng_randint (min qty_min qty_max) (max qty_min qty_max) g1
                   in roll_entries rest (results @ [(item_id, qty)]) g2))
         else roll_entries rest results g1)"

definition roll_drop :: "string \<Rightarrow> DataStore \<Rightarrow> rng \<Rightarrow> (string \<times> int) list \<times> rng" where
  "roll_drop table_name ds g = roll_entries (dict_get (ds_drop_tables ds) table_name []) [] g"

section \<open>combat.py\<close>

text \<open>
  \<open>BattleState\<close>. The last field, \<open>fired\<close>, is a history variable that the source does
  not have: the pairs (turn index, position) of the gimmicks that have fired, in order.
  Nothing reads it.
\<close>

record BattleState =
  player :: Player
  enemy :: Enemy
  turn :: int
  turn_index :: int
  logs :: "log_line list"
  expected_exp :: int
  drop_table_id :: "string option"
  gimmick_used :: "(nat \<times> bool) list"
  fired :: "(int \<times> nat) list"

definition start_battle :: "Player \<Rightarrow> Enemy \<Rightarrow> int \<Rightarrow> string option \<Rightarrow> BattleState" where
  "start_battle p e xp dt =
     \<lparr>player = p, enemy = e, turn = 1, turn_index = 1, logs = [LogBattleStart (name e)],
      expected_exp = xp, drop_table_id = dt, gimmick_used = [], fired = []\<rparr>"

text \<open>
  The built-in basic attack, used when the catalog has no skill \<open>__basic__\<close>. Its name,
  a Korean string in the source, is given in English.
\<close>

definition basic_skill :: skill_def where
  "basic_skill =
     \<lparr>sk_name = Some ''basic attack'', base_physical = PInt 10, base_magic = PInt 0,
      scale_attack = py_float (2 / 10), scale_magic = py_float 0, sk_apply_effect = []\<rparr>"

definition lookup_skill :: "DataStore \<Rightarrow> string \<Rightarrow> skill_def option" where
  "lookup_skill ds skill_id =
     (case map_of (ds_skills ds) skill_id of
        Some sk \<Rightarrow> Some sk
      | None \<Rightarrow> if skill_id = ''__basic__'' then Some basic_skill else None)"

text \<open>
  In \<open>_use_skill\<close> the attacker and the defender are the two actors of the state, in
  one order or the other; \<open>is_player\<close> says which. \<open>side_stats\<close> is the
  \<open>get_total_stats\<close> of the player (with the catalog's items) or of the enemy.
\<close>

definition side_stats :: "DataStore \<Rightarrow> BattleState \<Rightarrow> bool \<Rightarrow> Stats" where
  "side_stats ds st on_player =
     (if on_player then total_stats (player st) (ds_items ds) else get_total_stats (enemy st))"

definition side_hp :: "BattleState \<Rightarrow> bool \<Rightarrow> rat" where
  "side_hp st on_player = (if on_player then hp (player st) else hp (enemy st))"

definition side_name :: "BattleState \<Rightarrow> bool \<Rightarrow> string" where
  "side_name st on_player = (if on_player then name (player st) else name (enemy st))"

definition apply_effect_on ::
  "DataStore \<Rightarrow> bool \<Rightarrow> effect_spec \<Rightarrow> BattleState \<Rightarrow> rng \<Rightarrow> BattleState \<times> rng" where
  "apply_effect_on ds on_player spec st g =
     (if on_player then
        (let (p, lg, g1) =
               apply_effect (\<lambda>q. total_stats q (ds_items ds)) (player st) spec (logs st) g
         in (st\<lparr>player := p, logs := lg\<rparr>, g1))
      else
        (let (e, lg, g1) = apply_effect get_total_stats (enemy st) spec (logs st) g
         in (st\<lparr>enemy := e, logs := lg\<rparr>, g1)))"

text \<open>\<open>_finish\<close>\<close>

definition finish ::
  "DataStore \<Rightarrow> BattleState \<Rightarrow> string \<Rightarrow> rng \<Rightarrow> BattleResult \<times> BattleState \<times> rng" where
  "finish ds st w g =
     (let (drops0, st1, g1) =
            (case drop_table_id st of
               None \<Rightarrow> ([], st, g)
             | Some table \<Rightarrow>
                 if w = ''player'' \<and> table \<noteq> [] then
                   (let (d, g') = roll_drop table ds g;
                        display = map (\<lambda>(item_id, qty). (item_name ds item_id, qty)) d
                    in (d, st\<lparr>logs := logs st @ [LogDrops display]\<rparr>, g'))
                 else ([], st, g));
          result = \<lparr>winner = w,
                    exp_r = (if w = ''player'' then expected_exp st1 else 0),
                    drops = map (\<lambda>(i, q). (item_name ds i, q)) drops0,
                    drop_details = drops0,
                    logs_r = logs st1\<rparr>;
          st2 = st1\<lparr>player := clear_all_battle_effects (player st1)\<rparr>;
          st3 = st2\<lparr>enemy := clear_all_battle_effects (enemy st2)\<rparr>;
          mx = max_hp (total_stats (player st3) (ds_items ds));
          st4 = st3\<lparr>player := (player st3)\<lparr>hp := of_int mx\<rparr>\<rparr>
      in (result, st4, g1))"

text \<open>
  The damage of one skill use: the physical and the magic part, each an integer. The
  stats are ints, the four numbers of the skill are ints or floats.
\<close>

definition skill_damage :: "skill_def \<Rightarrow> Stats \<Rightarrow> Stats \<Rightarrow> int \<times> int" where
  "skill_damage sk atk_stats def_stats =
     (let physical =
            py_add (base_physical sk) (py_mul (PInt (attack atk_stats)) (scale_attack sk));
          magic_d =
            py_add (base_magic sk) (py_mul (PInt (magic atk_stats)) (scale_magic sk));
          phys_final =
            py_max0 (py_sub physical (py_mul (PInt (defense def_stats)) (scale_attack sk)));
          magic_final =
            py_max0 (py_sub magic_d (py_mul (PInt (magic_resist def_stats)) (scale_magic sk)))
      in (py_trunc phys_final, py_trunc magic_final))"

text \<open>The damage is applied to the defender and the three lines are logged.\<close>

definition deal_damage ::
  "DataStore \<Rightarrow> BattleState \<Rightarrow> bool \<Rightarrow> string \<Rightarrow> skill_def \<Rightarrow> int \<times> BattleState" where
  "deal_damage ds st is_player skill_id sk =
     (let atk_stats = side_stats ds st is_player;
          def_stats = side_stats ds st (\<not> is_player);
          (phys_int, magic_int) = skill_damage sk atk_stats def_stats;
          total_damage = phys_int + magic_int;
          st1 = (if is_player then st\<lparr>enemy := apply_damage total_damage (enemy st)\<rparr>
                 else st\<lparr>player := apply_damage total_damage (player st)\<rparr>);
          nm = (case sk_name sk of None \<Rightarrow> skill_id | Some n \<Rightarrow> n);
          lines =
            (if is_player
             then [LogPlayerUses nm, LogDamageToEnemy phys_int magic_int,
                   LogEnemyHp (hp (enemy st1)) (max_hp def_stats)]
             else [LogEnemyUses (name (enemy st)) nm, LogDamageToPlayer phys_int magic_int,
                   LogPlayerHp (hp (player st1)) (max_hp def_stats)])
      in (total_damage, st1\<lparr>logs := logs st1 @ lines\<rparr>))"

text \<open>
  The loop over the skill's effect specs: \<open>target\<close> is relative to the attacker, a
  lifesteal spec only adds its power to the running sum.
\<close>

fun apply_skill_effects ::
  "DataStore \<Rightarrow> bool \<Rightarrow> effect_spec list \<Rightarrow> rat \<Rightarrow> BattleState \<Rightarrow> rng
     \<Rightarrow> rat \<times> BattleState \<times> rng" where
  "apply_skill_effects ds is_player [] lifesteal_power st g = (lifesteal_power, st, g)"
| "apply_skill_effects ds is_player (eff # rest) lifesteal_power st g =
     (let target_label = (case es_target eff of None \<Rightarrow> ''self'' | Some t \<Rightarrow> t);
          on_player = (if target_label = ''self'' then is_player else \<not> is_player);
          eff_type = py_or (es_type eff) (es_effect eff)
      in if eff_type = Some ''lifesteal'' then
           apply_skill_effects ds is_player rest
             (fl_round (lifesteal_power + (case es_power eff of None \<Rightarrow> 0 | Some x \<Rightarrow> x)))
             st g
         else
           (let (st1, g1) = apply_effect_on ds on_player eff st g
            in apply_skill_effects ds is_player rest lifesteal_power st1 g1))"

text \<open>The on-hit special of the player's accessory; it targets the enemy.\<close>

definition on_hit_proc :: "DataStore \<Rightarrow> BattleState \<Rightarrow> rng \<Rightarrow> BattleState \<times> rng" where
  "on_hit_proc ds st g =
     (case dict_get (equipment (player st)) ''accessory'' None of
        None \<Rightarrow> (st, g)
      | Some accessory \<Rightarrow>
          if accessory = [] then (st, g)
          else
            (case map_of (ds_items ds) accessory of
               None \<Rightarrow> (st, g)
             | Some item \<Rightarrow>
                 (case it_special item of
                    None \<Rightarrow> (st, g)
                  | Some special \<Rightarrow>
                      if sp_type special = Some ''on_hit'' then
                        (let (hit, g1) =
                               roll_chance (case sp_chance special of None \<Rightarrow> 0 | Some c \<Rightarrow> c) g
                         in if hit then
                              apply_effect_on ds False
                                \<lparr>es_type = sp_effect special, es_effect = None,
                                 es_chance = None,
                                 es_duration =
                                   Some (case sp_duration special of None \<Rightarrow> 1 | Some d \<Rightarrow> d),
                                 es_power =
                                   Some (case sp_power special of None \<Rightarrow> 0 | Some x \<Rightarrow> x),
                                 es_stats = [], es_note = None, es_source = None,
                                 es_target = Some ''enemy''\<rparr>
                                st g1
                            else (st, g1))
                      else (st, g))))"

definition lifesteal_heal :: "DataStore \<Rightarrow> bool \<Rightarrow> int \<Rightarrow> rat \<Rightarrow> BattleState \<Rightarrow> BattleState" where
  "lifesteal_heal ds is_player total_damage lifesteal_power st =
     (if lifesteal_power > 0 then
        (let heal_amount =
               py_int (fl_round (fl_round (of_int total_damage) * lifesteal_power));
             before = side_hp st is_player;
             mx = max_hp (side_stats ds st is_player);
             after = min (of_int mx) (before + of_int heal_amount);
             st1 = (if is_player then st\<lparr>player := (player st)\<lparr>hp := after\<rparr>\<rparr>
                    else st\<lparr>enemy := (enemy st)\<lparr>hp := after\<rparr>\<rparr>)
         in st1\<lparr>logs := logs st1 @ [LogLifesteal before after]\<rparr>)
      else st)"

text \<open>
  \<open>_use_skill\<close> up to its last test: damage, effect specs, on-hit special (of the
  player only), lifesteal.
\<close>

definition resolve_skill ::
  "DataStore \<Rightarrow> BattleState \<Rightarrow> bool \<Rightarrow> string \<Rightarrow> skill_def \<Rightarrow> rng \<Rightarrow> BattleState \<times> rng" where
  "resolve_skill ds st is_player skill_id sk g =
     (let (total_damage, st1) = deal_damage ds st is_player skill_id sk;
          (lifesteal_power, st2, g2) =
            apply_skill_effects ds is_player (sk_apply_effect sk) 0 st1 g;
          (st3, g3) = (if is_player then on_hit_proc ds st2 g2 else (st2, g2));
          st4 = lifesteal_heal ds is_player total_damage lifesteal_power st3
      in (st4, g3))"

definition use_skill ::
  "DataStore \<Rightarrow> BattleState \<Rightarrow> bool \<Rightarrow> string \<Rightarrow> rng
     \<Rightarrow> BattleResult option \<times> BattleState \<times> rng" where
  "use_skill ds st is_player skill_id g =
     (case lookup_skill ds skill_id of
        None \<Rightarrow> (None, st\<lparr>logs := logs st @ [LogUnknownSkill]\<rparr>, g)
      | Some sk \<Rightarrow>
          (let (st1, g1) = resolve_skill ds st is_player skill_id sk g
           in if side_hp st1 (\<not> is_player) \<le> 0 then
                (let (r, st2, g2) =
                       finish ds st1 (if is_player then ''player'' else ''enemy'') g1
                 in (Some r, st2, g2))
              else (None, st1, g1)))"

text \<open>\<open>_handle_gimmicks\<close>: the trigger test, the action, and the loop over the list.\<close>

definition should_fire :: "BattleState \<Rightarrow> gimmick \<Rightarrow> bool" where
  "should_fire st gm =
     (if g_trigger gm = Some ''every_n_turns'' then
        (let n = (case g_n gm of None \<Rightarrow> 1 | Some v \<Rightarrow> v)
         in n > 0 \<and> turn_index st mod n = 0)
      else if g_trigger gm = Some ''hp_below'' then
        (let ratio = (case g_ratio gm of None \<Rightarrow> 0 | Some r \<Rightarrow> r);
             mx = (if max_hp (stats (enemy st)) = 0 then 1 else max_hp (stats (enemy st)))
         in fl_round (hp (enemy st) / of_int mx) \<le> ratio)
      else False)"

definition gimmick_act :: "DataStore \<Rightarrow> gimmick \<Rightarrow> BattleState \<Rightarrow> rng \<Rightarrow> BattleState \<times> rng" where
  "gimmick_act ds gm st g =
     (case g_action gm of
        None \<Rightarrow> (st, g)
      | Some action \<Rightarrow>
          if a_type action = Some ''apply_effect'' then
            (let target_label = (case a_target action of None \<Rightarrow> ''player'' | Some t \<Rightarrow> t)
             in apply_effect_on ds (target_label = ''player'')
                  \<lparr>es_type = a_effect action, es_effect = None, es_chance = None,
                   es_duration = Some (case a_duration action of None \<Rightarrow> 1 | Some d \<Rightarrow> d),
                   es_power = Some (case a_power action of None \<Rightarrow> 0 | Some x \<Rightarrow> x),
                   es_stats = [], es_note = None, es_source = None, es_target = None\<rparr>
                  st g)
          else (st, g))"

fun gimmick_loop ::
  "DataStore \<Rightarrow> nat \<Rightarrow> gimmick option list \<Rightarrow> BattleState \<Rightarrow> rng \<Rightarrow> BattleState \<times> rng" where
  "gimmick_loop ds idx [] st g = (st, g)"
| "gimmick_loop ds idx (None # rest) st g = gimmick_loop ds (Suc idx) rest st g"
| "gimmick_loop ds idx (Some gm # rest) st g =
     (if g_once gm \<and> dict_get (gimmick_used st) idx False
      then gimmick_loop ds (Suc idx) rest st g
      else if \<not> should_fire st gm then gimmick_loop ds (Suc idx) rest st g
      else
        (let (st1, g1) = gimmick_act ds gm st g;
             st2 = (if g_once gm
                    then st1\<lparr>gimmick_used := AList.update idx True (gimmick_used st1)\<rparr>
                    else st1);
             st3 = st2\<lparr>fired := fired st2 @ [(turn_index st2, idx)]\<rparr>
         in gimmick_loop ds (Suc idx) rest st3 g1))"

definition handle_gimmicks :: "DataStore \<Rightarrow> BattleState \<Rightarrow> rng \<Rightarrow> BattleState \<times> rng" where
  "handle_gimmicks ds st g = gimmick_loop ds 0 (gimmicks (enemy st)) st g"

definition enemy_action ::
  "DataStore \<Rightarrow> BattleState \<Rightarrow> rng \<Rightarrow> BattleResult option \<times> BattleState \<times> rng" where
  "enemy_action ds st g =
     (let (ok, lg) = can_act (enemy st) (logs st);
          st0 = st\<lparr>logs := lg\<rparr>
      in if \<not> ok then (None, st0, g)
         else
           (let (st1, g1) = (if ai (enemy st0) = ''boss'' then handle_gimmicks ds st0 g
                             else (st0, g));
                pool = (if skills (enemy st1) \<noteq> [] then skills (enemy st1)
                        else [''__basic__'']);
                (skill_choice, g2) = rng_choice pool g1;
                (result, st2, g3) = use_skill ds st1 False skill_choice g2
            in case result of
                 Some r \<Rightarrow> (Some r, st2, g3)
               | None \<Rightarrow>
                   if hp (player st2) \<le> 0 then
                     (let (r, st3, g4) = finish ds st2 ''enemy'' g3 in (Some r, st3, g4))
                   else (None, st2, g3)))"

definition end_of_turn ::
  "DataStore \<Rightarrow> BattleState \<Rightarrow> rng \<Rightarrow> BattleResult option \<times> BattleState \<times> rng" where
  "end_of_turn ds st g =
     (let (p, lg1) = tick_end_of_turn (player st) (logs st);
          (e, lg2) = tick_end_of_turn (enemy st) lg1;
          st1 = st\<lparr>player := p, enemy := e, logs := lg2\<rparr>
      in if hp (player st1) \<le> 0 then
           (let (r, st2, g1) = finish ds st1 ''enemy'' g in (Some r, st2, g1))
         else if is_dead (enemy st1) then
           (let (r, st2, g1) = finish ds st1 ''player'' g in (Some r, st2, g1))
         else (None, st1, g))"

definition after_player_action ::
  "DataStore \<Rightarrow> BattleState \<Rightarrow> rng \<Rightarrow> BattleResult option \<times> BattleState \<times> rng" where
  "after_player_action ds st g =
     (let (result, st1, g1) = enemy_action ds st g
      in case result of
           Some r \<Rightarrow> (Some r, st1, g1)
         | None \<Rightarrow>
             (let (end_result, st2, g2) = end_of_turn ds st1 g1
              in (end_result, st2\<lparr>turn := turn st2 + 1, turn_index := turn_index st2 + 1\<rparr>, g2)))"

definition player_use_skill ::
  "DataStore \<Rightarrow> BattleState \<Rightarrow> string \<Rightarrow> rng \<Rightarrow> BattleResult option \<times> BattleState \<times> rng" where
  "player_use_skill ds st skill_id g =
     (let (ok, lg) = can_act (player st) (logs st);
          st0 = st\<lparr>logs := lg\<rparr>
      in if \<not> ok then after_player_action ds st0 g
         else
           (let (result, st1, g1) = use_skill ds st0 True skill_id g
            in case result of
                 Some r \<Rightarrow> (Some r, st1, g1)
               | None \<Rightarrow>
                   if is_dead (enemy st1) then
                     (let (r, st2, g2) = finish ds st1 ''player'' g1 in (Some r, st2, g2))
                   else after_player_action ds st1 g1))"

definition player_basic_attack ::
  "DataStore \<Rightarrow> BattleState \<Rightarrow> rng \<Rightarrow> BattleResult option \<times> BattleState \<times> rng" where
  "player_basic_attack ds st g = player_use_skill ds st ''__basic__'' g"

definition player_use_item ::
  "DataStore \<Rightarrow> BattleState \<Rightarrow> string \<Rightarrow> rng \<Rightarrow> BattleResult option \<times> BattleState \<times> rng" where
  "player_use_item ds st item_id g =
     (let (ok, lg) = can_act (player st) (logs st);
          st0 = st\<lparr>logs := lg\<rparr>
      in if \<not> ok then after_player_action ds st0 g
         else if dict_get (inventory (player st0)) item_id 0 \<le> 0 then
           after_player_action ds (st0\<lparr>logs := logs st0 @ [LogNoItem]\<rparr>) g
         else
           (let (success, m, p1, lg1, g1) =
                  apply_consumable_in_battle (player st0) item_id ds (logs st0) g;
                p2 = (if success then snd (remove_item_from_inventory p1 item_id 1) else p1);
                st1 = st0\<lparr>player := p2, logs := lg1 @ [LogMsg m]\<rparr>
            in after_player_action ds st1 g1))"

text \<open>
  The caller's loop (the battle view): one player input per turn, until an entry
  point returns a result.
\<close>

datatype player_input = UseSkill string | UseItem string

fun player_turn ::
  "DataStore \<Rightarrow> player_input \<Rightarrow> BattleState \<Rightarrow> rng
     \<Rightarrow> BattleResult option \<times> BattleState \<times> rng" where
  "player_turn ds (UseSkill skill_id) st g = player_use_skill ds st skill_id g"
| "player_turn ds (UseItem item_id) st g = player_use_item ds st item_id g"

fun run_battle ::
  "DataStore \<Rightarrow> player_input list \<Rightarrow> BattleState \<Rightarrow> rng
     \<Rightarrow> BattleResult option \<times> BattleState \<times> rng" where
  "run_battle ds [] st g = (None, st, g)"
| "run_battle ds (inp # rest) st g =
     (case player_turn ds inp st g of
        (Some r, st1, g1) \<Rightarrow> (Some r, st1, g1)
      | (None, st1, g1) \<Rightarrow> run_battle ds rest st1 g1)"

section \<open>Concrete inputs\<close>

definition demo_stats :: Stats where
  "demo_stats = \<lparr>attack = 10, magic = 5, defense = 5, magic_resist = 5, max_hp = 100\<rparr>"

definition demo_player :: Player where
  "demo_player =
     \<lparr>name = ''hero'', stats = demo_stats, hp = 100, skills = [''__basic__''], effects = [],
      player_id = ''char_0'', level = 1, exp_p = 0, exp_to_next_p = 30, stat_points = 0,
      inventory = [], equipment = [(''weapon'', None), (''armor'', None), (''accessory'', None)],
      allocated_stats = [], base_stats = demo_stats\<rparr>"

definition demo_enemy :: Enemy where
  "demo_enemy =
     \<lparr>name = ''slime'',
      stats = \<lparr>attack = 8, magic = 0, defense = 5, magic_resist = 0, max_hp = 30\<rparr>,
      hp = 30, skills = [], effects = [],
      enemy_id = ''slime'', ai = ''basic'', gimmicks = [], drop_table = None,
      is_boss = False\<rparr>"

definition demo_ds :: DataStore where
  "demo_ds = \<lparr>ds_skills = [], ds_items = [], ds_drop_tables = []\<rparr>"

definition demo_state :: BattleState where
  "demo_state = start_battle (demo_player\<lparr>base_stats := demo_stats\<lparr>attack := 20\<rparr>\<rparr>) demo_enemy 12 None"

text \<open>A drop table whose only entry has chance 0.\<close>

definition zero_chance_ds :: DataStore where
  "zero_chance_ds =
     \<lparr>ds_skills = [],
      ds_items = [(''a'', \<lparr>it_name = Some ''a'', it_type = Some ''material'', it_slot = None,
                           it_stats = [], it_special = None, it_use_effect = None\<rparr>)],
      ds_drop_tables =
        [(''t0'', [\<lparr>de_item = Some ''a'', de_chance = Some 0, de_min = Some 1,
                    de_max = Some 1\<rparr>])]\<rparr>"

text \<open>What a drop-table entry may emit: its own item, in a quantity of its range.\<close>

definition emits :: "drop_entry \<Rightarrow> string \<times> int \<Rightarrow> bool" where
  "emits entry out =
     (let qty_min = (case de_min entry of None \<Rightarrow> 1 | Some m \<Rightarrow> m);
          qty_max = (case de_max entry of None \<Rightarrow> qty_min | Some m \<Rightarrow> m)
      in de_item entry = Some (fst out) \<and> fst out \<noteq> [] \<and>
         min qty_min qty_max \<le> snd out \<and> snd out \<le> max qty_min qty_max)"

text \<open>
  The number of copies of an item id a player owns: the count in the inventory plus the
  number of equipment slots that hold the id.
\<close>

definition equipped_count :: "(string option) dict \<Rightarrow> string \<Rightarrow> int" where
  "equipped_count eq i = int (length (filter (\<lambda>(slot, v). v = Some i) eq))"

definition total_count :: "Player \<Rightarrow> string \<Rightarrow> int" where
  "total_count p i = dict_get (inventory p) i 0 + equipped_count (equipment p) i"

definition demo_sword :: item_def where
  "demo_sword =
     \<lparr>it_name = Some ''sword'', it_type = Some ''equipment'', it_slot = Some ''weapon'',
      it_stats = [(''attack'', 5), (''magic'', 0), (''defense'', 0), (''magic_resist'', 0),
                  (''max_hp'', 0)],
      it_special = None, it_use_effect = None\<rparr>"

definition demo_charm :: item_def where
  "demo_charm =
     \<lparr>it_name = Some ''charm'', it_type = Some ''equipment'', it_slot = Some ''accessory'',
      it_stats = [(''attack'', 0), (''magic'', 0), (''defense'', 0), (''magic_resist'', 0),
                  (''max_hp'', 10)],
      it_special = Some \<lparr>sp_type = Some ''stat_multiplier'', sp_stat = Some ''attack'',
                          sp_mult = Some (3 / 2), sp_chance = None, sp_effect = None,
                          sp_duration = None, sp_power = None\<rparr>,
      it_use_effect = None\<rparr>"

definition demo_potion :: item_def where
  "demo_potion =
     \<lparr>it_name = Some ''potion'', it_type = Some ''consumable'', it_slot = None,
      it_stats = [(''attack'', 0), (''magic'', 0), (''defense'', 0), (''magic_resist'', 0),
                  (''max_hp'', 0)],
      it_special = None,
      it_use_effect = Some \<lparr>ue_type = Some ''heal'', ue_power = Some 20, ue_remove = [],
                             ue_duration = None, ue_stats = []\<rparr>\<rparr>"

definition gear_ds :: DataStore where
  "gear_ds =
     \<lparr>ds_skills = [],
      ds_items = [(''sword'', demo_sword), (''charm'', demo_charm), (''potion'', demo_potion)],
      ds_drop_tables = []\<rparr>"

definition gear_player :: Player where
  "gear_player =
     demo_player\<lparr>inventory := [(''sword'', 2), (''potion'', 1)],
                 equipment := [(''weapon'', Some ''sword''), (''armor'', None),
                               (''accessory'', Some ''charm'')]\<rparr>"

text \<open>The four ways \<open>equip_item\<close> fails, and what it does when it does not.\<close>

definition equip_ok :: "Player \<Rightarrow> string \<Rightarrow> DataStore \<Rightarrow> string \<Rightarrow> bool" where
  "equip_ok p item_id ds slot =
     (case get_item ds item_id of
        None \<Rightarrow> False
      | Some item \<Rightarrow> it_type item = Some ''equipment'' \<and> it_slot item = Some slot \<and>
                     valid_slot (Some slot) \<and> 0 < dict_get (inventory p) item_id 0)"

text \<open>
  One component of the damage as the specification words it,
  \<open>trunc(max(0, base + A.stat * scale - D.stat * scale))\<close>, in Python's arithmetic. The
  numbers of a skill use are in range when none exceeds \<open>2^500\<close> in magnitude: then no
  product or sum of the formula leaves the range of a float.
\<close>

definition damage_part :: "pynum \<Rightarrow> pynum \<Rightarrow> int \<Rightarrow> int \<Rightarrow> int" where
  "damage_part base scale a d =
     py_trunc (py_max0 (py_sub (py_add base (py_mul (PInt a) scale)) (py_mul (PInt d) scale)))"

definition in_range :: "rat \<Rightarrow> bool" where
  "in_range x = (\<bar>x\<bar> \<le> 2 ^ 500)"

definition skill_in_range :: "skill_def \<Rightarrow> Stats \<Rightarrow> Stats \<Rightarrow> bool" where
  "skill_in_range sk A D =
     (in_range (py_val (base_physical sk)) \<and> in_range (py_val (base_magic sk)) \<and>
      in_range (py_val (scale_attack sk)) \<and> in_range (py_val (scale_magic sk)) \<and>
      in_range (of_int (attack A)) \<and> in_range (of_int (magic A)) \<and>
      in_range (of_int (defense D)) \<and> in_range (of_int (magic_resist D)))"

text \<open>
  Total stats as the specification words them: per field, one sum of the base stat,
  the allocated points, the stat bonuses of the equipped items and the deltas of the
  active buffs and debuffs; the product of the positive \<open>stat_multiplier\<close> factors of
  the equipped items for that field, a float product taken in the order of the
  equipment slots; and the truncated float product of the two.
\<close>

definition stat_field :: "string \<Rightarrow> Stats \<Rightarrow> int" where
  "stat_field key s =
     (if key = ''attack'' then attack s
      else if key = ''magic'' then magic s
      else if key = ''defense'' then defense s
      else if key = ''magic_resist'' then magic_resist s
      else if key = ''max_hp'' then max_hp s
      else 0)"

definition entry_sum :: "string \<Rightarrow> int dict \<Rightarrow> int" where
  "entry_sum key d = sum_list (map snd (filter (\<lambda>(k, v). k = key) d))"

definition equipped_items :: "item_def dict \<Rightarrow> (string option) dict \<Rightarrow> item_def list" where
  "equipped_items items eq = List.map_filter (\<lambda>(slot, item_id). resolve_item items item_id) eq"

definition active_deltas :: "'a Actor_scheme \<Rightarrow> int dict list" where
  "active_deltas a =
     map stats_delta
       (filter (\<lambda>e. duration e > 0 \<and> (kind e = ''buff_stats'' \<or> kind e = ''debuff_stats''))
          (effects a))"

definition additive_total :: "string \<Rightarrow> Player \<Rightarrow> item_def dict \<Rightarrow> int" where
  "additive_total key p items =
     stat_field key (base_stats p)
     + dict_get (allocated_stats p) key 0
     + sum_list (map (\<lambda>item. entry_sum key (it_stats item)) (equipped_items items (equipment p)))
     + sum_list (map (entry_sum key) (active_deltas p))"

definition item_factors :: "string \<Rightarrow> item_def \<Rightarrow> rat list" where
  "item_factors key item =
     (case it_special item of
        None \<Rightarrow> []
      | Some special \<Rightarrow>
          (let mult = (case sp_mult special of None \<Rightarrow> 1 | Some x \<Rightarrow> x)
           in if sp_type special = Some ''stat_multiplier'' \<and> sp_stat special = Some key \<and>
                 mult > 0
              then [mult] else []))"

definition field_factors :: "string \<Rightarrow> item_def dict \<Rightarrow> (string option) dict \<Rightarrow> rat list" where
  "field_factors key items eq = concat (map (item_factors key) (equipped_items items eq))"

definition float_product :: "rat list \<Rightarrow> rat" where
  "float_product fs = fold (\<lambda>f acc. fl_round (acc * f)) fs 1"

definition spec_field :: "string \<Rightarrow> Player \<Rightarrow> item_def dict \<Rightarrow> int" where
  "spec_field key p items =
     py_int (fl_round (fl_round (of_int (additive_total key p items))
                       * float_product (field_factors key items (equipment p))))"

definition total_stats_spec :: "Player \<Rightarrow> item_def dict \<Rightarrow> Stats" where
  "total_stats_spec p items =
     \<lparr>attack = spec_field ''attack'' p items,
      magic = spec_field ''magic'' p items,
      defense = spec_field ''defense'' p items,
      magic_resist = spec_field ''magic_resist'' p items,
      max_hp = spec_field ''max_hp'' p items\<rparr>"

text \<open>
  The numbers of a player's total stats are in range when no sum of a field exceeds
  \<open>2^500\<close> in magnitude and, for each field, the factors above 1 have a product of at
  most \<open>2^500\<close>: then no float of the computation leaves the range of a float.
\<close>

definition stats_in_range :: "Player \<Rightarrow> item_def dict \<Rightarrow> bool" where
  "stats_in_range p items =
     list_all (\<lambda>key. in_range (of_int (additive_total key p items)) \<and>
                      prod_list (map (max 1) (field_factors key items (equipment p))) \<le> 2 ^ 500)
       [''attack'', ''magic'', ''defense'', ''magic_resist'', ''max_hp'']"

definition buffed_player :: Player where
  "buffed_player =
     gear_player\<lparr>allocated_stats := [(''attack'', 2)],
                 effects := [\<lparr>kind = ''buff_stats'', duration = 2, power_v = 0,
                              stats_delta = [(''attack'', 3)], source = None\<rparr>]\<rparr>"

section \<open>state_manager.py: allocating stat points\<close>

definition sync_hp_to_total :: "Player \<Rightarrow> item_def dict \<Rightarrow> Player" where
  "sync_hp_to_total p items = p\<lparr>hp := min (hp p) (of_int (max_hp (total_stats p items)))\<rparr>"

datatype alloc_error = BadStat | NotEnoughPoints

text \<open>
  \<open>GameStateManager.allocate_stat\<close> on the player it manages; the error is the text of
  the \<open>on_error\<close> signal, the items are those of \<open>_items_as_legacy\<close>.
\<close>

definition allocate_stat ::
  "Player \<Rightarrow> item_def dict \<Rightarrow> string \<Rightarrow> int \<Rightarrow> bool \<times> alloc_error option \<times> Player" where
  "allocate_stat p items stat_key points =
     (if stat_key \<notin> {''attack'', ''magic'', ''defense'', ''magic_resist'', ''max_hp''}
      then (False, Some BadStat, p)
      else (let spend = max 1 points
            in if stat_points p < spend then (False, Some NotEnoughPoints, p)
               else (let p1 = p\<lparr>stat_points := stat_points p - spend,
                                  allocated_stats :=
                                    AList.update stat_key
                                      (dict_get (allocated_stats p) stat_key 0 + spend)
                                      (allocated_stats p)\<rparr>
                     in (True, None, sync_hp_to_total p1 items))))"

section \<open>What an operation leaves alone\<close>

text \<open>
  \<open>same_actor a b\<close>: \<open>b\<close> is \<open>a\<close> up to hp and effects. \<open>same_setup st st'\<close>: \<open>st'\<close> is
  \<open>st\<close> up to the hp and the effects of the two actors and the log.
\<close>

definition same_actor :: "'a Actor_scheme \<Rightarrow> 'a Actor_scheme \<Rightarrow> bool" where
  "same_actor a b =
     (name b = name a \<and> stats b = stats a \<and> skills b = skills a \<and> Actor.more b = Actor.more a)"

definition same_setup :: "BattleState \<Rightarrow> BattleState \<Rightarrow> bool" where
  "same_setup st st' =
     (same_actor (player st) (player st') \<and> same_actor (enemy st) (enemy st') \<and>
      turn st' = turn st \<and> turn_index st' = turn_index st \<and>
      expected_exp st' = expected_exp st \<and> drop_table_id st' = drop_table_id st \<and>
      gimmick_used st' = gimmick_used st \<and> fired st' = fired st)"

text \<open>The number of end-of-turn ticks an actor's stuns still last.\<close>

definition stun_turns :: "'a Actor_scheme \<Rightarrow> int" where
  "stun_turns a =
     fold max (map duration (filter (\<lambda>e. kind e = ''stun'') (effects a))) 0"

text \<open>A player and an enemy that both bleed to death at the same end of turn.\<close>

definition bleed_effect :: "rat \<Rightarrow> EffectInstance" where
  "bleed_effect pw =
     \<lparr>kind = ''bleed'', duration = 2, power_v = pw, stats_delta = [], source = None\<rparr>"

definition both_bleeding :: BattleState where
  "both_bleeding =
     demo_state\<lparr>player := (player demo_state)\<lparr>hp := 3, effects := [bleed_effect 5]\<rparr>,
                enemy := (enemy demo_state)\<lparr>hp := 4, effects := [bleed_effect 9]\<rparr>\<rparr>"

text \<open>An enemy that the basic attack of the demo player (13 damage) kills.\<close>

definition weak_enemy_state :: BattleState where
  "weak_enemy_state = demo_state\<lparr>enemy := (enemy demo_state)\<lparr>hp := 10\<rparr>\<rparr>"

text \<open>
  \<open>same_frame st st'\<close>: as \<open>same_setup\<close>, but the gimmick flags and the history may
  differ.
\<close>

definition same_frame :: "BattleState \<Rightarrow> BattleState \<Rightarrow> bool" where
  "same_frame st st' =
     (same_actor (player st) (player st') \<and> same_actor (enemy st) (enemy st') \<and>
      turn st' = turn st \<and> turn_index st' = turn_index st \<and>
      expected_exp st' = expected_exp st \<and> drop_table_id st' = drop_table_id st)"

text \<open>\<open>state.gimmick_used.get(idx)\<close> as a truth value.\<close>

definition used :: "BattleState \<Rightarrow> nat \<Rightarrow> bool" where
  "used st idx = dict_get (gimmick_used st) idx False"

text \<open>
  The invariant of a once-gimmick at position \<open>idx\<close>: it is at most once in the history,
  and if it is there its flag is set.
\<close>

definition once_inv :: "nat \<Rightarrow> BattleState \<Rightarrow> bool" where
  "once_inv idx st =
     (count_list (map snd (fired st)) idx \<le> 1 \<and>
      (if idx \<in> snd ` set (fired st) then used st idx else True))"

text \<open>The test of an \<open>every_n_turns\<close> trigger.\<close>

definition every_n_due :: "gimmick \<Rightarrow> int \<Rightarrow> bool" where
  "every_n_due gm t = (let n = (case g_n gm of None \<Rightarrow> 1 | Some v \<Rightarrow> v) in 0 < n \<and> t mod n = 0)"

text \<open>
  A boss with two gimmicks: a stun of the player every 3 turns, and, once, a buff of
  itself when its hp is at or below a half.
\<close>

definition every3_gimmick :: gimmick where
  "every3_gimmick =
     \<lparr>g_once = False, g_trigger = Some ''every_n_turns'', g_n = Some 3, g_ratio = None,
      g_action = Some \<lparr>a_type = Some ''apply_effect'', a_target = Some ''player'',
                        a_effect = Some ''stun'', a_duration = Some 1, a_power = None\<rparr>\<rparr>"

definition enrage_gimmick :: gimmick where
  "enrage_gimmick =
     \<lparr>g_once = True, g_trigger = Some ''hp_below'', g_n = None, g_ratio = Some (1 / 2),
      g_action = Some \<lparr>a_type = Some ''apply_effect'', a_target = Some ''self'',
                        a_effect = Some ''bleed'', a_duration = Some 2, a_power = Some 0\<rparr>\<rparr>"

definition demo_boss :: Enemy where
  "demo_boss =
     \<lparr>name = ''ogre'',
      stats = \<lparr>attack = 8, magic = 0, defense = 5, magic_resist = 0, max_hp = 400\<rparr>,
      hp = 100, skills = [], effects = [],
      enemy_id = ''ogre'', ai = ''boss'',
      gimmicks = [Some every3_gimmick, Some enrage_gimmick], drop_table = None,
      is_boss = True\<rparr>"

definition boss_state :: BattleState where
  "boss_state = start_battle demo_player demo_boss 50 None"

text \<open>The demo battle with the player stunned for two more turns.\<close>

definition stun_effect :: "int \<Rightarrow> EffectInstance" where
  "stun_effect d =
     \<lparr>kind = ''stun'', duration = d, power_v = 0, stats_delta = [], source = None\<rparr>"

definition stunned_state :: BattleState where
  "stunned_state = demo_state\<lparr>player := (player demo_state)\<lparr>effects := [stun_effect 2]\<rparr>\<rparr>"

text \<open>
  Two battles with a stun of one turn: in the first the enemy's only skill stuns the
  player, in the second the player's skill stuns the enemy.
\<close>

definition stun_spec :: effect_spec where
  "stun_spec =
     \<lparr>es_type = Some ''stun'', es_effect = None, es_chance = None, es_duration = Some 1,
      es_power = None, es_stats = [], es_note = None, es_source = None,
      es_target = Some ''enemy''\<rparr>"

definition bash_skill :: skill_def where
  "bash_skill =
     \<lparr>sk_name = Some ''bash'', base_physical = PInt 5, base_magic = PInt 0,
      scale_attack = PInt 0, scale_magic = PInt 0, sk_apply_effect = [stun_spec]\<rparr>"

definition stun_ds :: DataStore where
  "stun_ds = \<lparr>ds_skills = [(''bash'', bash_skill)], ds_items = [], ds_drop_tables = []\<rparr>"

definition basher_battle :: BattleState where
  "basher_battle = start_battle demo_player (demo_enemy\<lparr>skills := [''bash'']\<rparr>) 12 None"

definition bashing_player_battle :: BattleState where
  "bashing_player_battle = start_battle (demo_player\<lparr>skills := [''bash'']\<rparr>) demo_enemy 12 None"


section \<open>Floats\<close>

lemma round_half_even_of_int: "round_half_even (of_int m) = m"
  by (simp add: round_half_even_def)

lemma two_powi_pos: "0 < (2::rat) powi k"
  by (simp add: power_int_def)

lemma fl_round_0 [simp]: "fl_round 0 = 0"
  by (simp add: fl_round_def)

text \<open>\<open>fl_exponent x\<close> is the binary exponent of \<open>x\<close>.\<close>

lemma fl_exponent_bounds:
  assumes "x \<noteq> 0"
  shows "2 powi (fl_exponent x) \<le> \<bar>x\<bar>" and "\<bar>x\<bar> < 2 powi (fl_exponent x + 1)"
proof -
  obtain p q where pq: "quotient_of \<bar>x\<bar> = (p, q)" by (cases "quotient_of \<bar>x\<bar>")
  have q: "0 < q" using pq by (rule quotient_of_denom_pos)
  have xe: "\<bar>x\<bar> = of_int p / of_int q" using pq by (rule quotient_of_div)
  have p: "0 < p"
  proof -
    have "0 < \<bar>x\<bar>" using assms by simp
    with xe q show ?thesis by (simp add: zero_less_divide_iff)
  qed
  define bp where "bp = bitlen p"
  define bq where "bq = bitlen q"
  have bp: "2 ^ nat (bp - 1) \<le> p" "p < 2 ^ nat bp"
    using bitlen_bounds[OF p] by (simp_all add: bp_def)
  have bq: "2 ^ nat (bq - 1) \<le> q" "q < 2 ^ nat bq"
    using bitlen_bounds[OF q] by (simp_all add: bq_def)
  have bp1: "1 \<le> bp" using p by (simp add: bp_def bitlen_def floorlog_def)
  have bq1: "1 \<le> bq" using q by (simp add: bq_def bitlen_def floorlog_def)
  have P1: "(2::rat) powi (bp - 1) \<le> of_int p"
  proof -
    have "(of_int (2 ^ nat (bp - 1)) :: rat) \<le> of_int p"
      using bp(1) by (simp only: of_int_le_iff)
    then show ?thesis using bp1 by (simp add: power_int_def)
  qed
  have P2: "of_int p < (2::rat) powi bp"
  proof -
    have "(of_int p :: rat) < of_int (2 ^ nat bp)" using bp(2) by (simp only: of_int_less_iff)
    then show ?thesis using bp1 by (simp add: power_int_def)
  qed
  have Q1: "(2::rat) powi (bq - 1) \<le> of_int q"
  proof -
    have "(of_int (2 ^ nat (bq - 1)) :: rat) \<le> of_int q"
      using bq(1) by (simp only: of_int_le_iff)
    then show ?thesis using bq1 by (simp add: power_int_def)
  qed
  have Q2: "of_int q < (2::rat) powi bq"
  proof -
    have "(of_int q :: rat) < of_int (2 ^ nat bq)" using bq(2) by (simp only: of_int_less_iff)
    then show ?thesis using bq1 by (simp add: power_int_def)
  qed
  have qpos: "(0::rat) < of_int q" using q by simp
  have ppos: "(0::rat) < of_int p" using p by simp
  have up: "\<bar>x\<bar> < 2 powi (bp - bq + 1)"
  proof -
    have "of_int p / of_int q < (2::rat) powi bp / 2 powi (bq - 1)"
      using P2 Q1 qpos ppos two_powi_pos[of "bq - 1"] two_powi_pos[of bp]
      by (intro frac_less) auto
    also have "\<dots> = 2 powi (bp - (bq - 1))" by (simp add: power_int_diff)
    finally show ?thesis by (simp add: xe algebra_simps)
  qed
  have lo: "2 powi (bp - bq - 1) < \<bar>x\<bar>"
  proof -
    have "(2::rat) powi (bp - 1) / 2 powi bq < of_int p / of_int q"
      using P1 Q2 qpos ppos two_powi_pos[of "bp - 1"] two_powi_pos[of bq]
      by (intro frac_less2) auto
    moreover have "(2::rat) powi (bp - 1) / 2 powi bq = 2 powi (bp - 1 - bq)"
      by (simp add: power_int_diff)
    ultimately show ?thesis by (simp add: xe algebra_simps)
  qed
  have e: "fl_exponent x = (if 2 powi (bp - bq) \<le> \<bar>x\<bar> then bp - bq else bp - bq - 1)"
    by (simp add: fl_exponent_def pq bp_def bq_def Let_def)
  show "2 powi (fl_exponent x) \<le> \<bar>x\<bar>"
    using lo by (simp add: e)
  show "\<bar>x\<bar> < 2 powi (fl_exponent x + 1)"
    using up by (auto simp: e not_le)
qed

text \<open>A number with at most 53 significant bits above the smallest exponent is a float.\<close>

lemma fl_round_exact:
  assumes "x = of_int m * 2 powi (max (fl_exponent x - 52) (- 1074))"
  shows "fl_round x = x"
proof (cases "x = 0")
  case True
  then show ?thesis by (simp add: fl_round_def)
next
  case False
  define e where "e = max (fl_exponent x - 52) (- 1074)"
  have xe: "x = of_int m * 2 powi e" using assms by (simp only: e_def)
  have d: "x / 2 powi e = of_int m"
    using two_powi_pos[of e] by (subst xe) simp
  have "fl_round x = of_int (round_half_even (x / 2 powi e)) * 2 powi e"
    using False by (simp add: fl_round_def Let_def e_def)
  also have "\<dots> = of_int m * 2 powi e" by (simp only: d round_half_even_of_int)
  finally show ?thesis using xe by simp
qed

text \<open>The conversion of an int of at most 53 bits is exact.\<close>

lemma fl_round_of_int:
  assumes "\<bar>n\<bar> \<le> 2 ^ 53"
  shows "fl_round (of_int n) = of_int n"
proof (cases "n = 0")
  case True
  then show ?thesis by (simp add: fl_round_def)
next
  case False
  define x :: rat where "x = of_int n"
  define k where "k = fl_exponent x"
  have x0: "x \<noteq> 0" using False by (simp add: x_def)
  have lo: "2 powi k \<le> \<bar>x\<bar>" and hi: "\<bar>x\<bar> < 2 powi (k + 1)"
    using fl_exponent_bounds[OF x0] by (simp_all add: k_def)
  have ax: "\<bar>x\<bar> = of_int \<bar>n\<bar>" by (simp add: x_def)
  have "1 \<le> \<bar>x\<bar>" using False unfolding ax by simp
  with hi have one: "1 < (2::rat) powi (k + 1)" by simp
  have k0: "0 \<le> k"
  proof (rule ccontr)
    assume "\<not> 0 \<le> k"
    then have "k + 1 \<le> 0" by simp
    then have "(2::rat) powi (k + 1) \<le> 2 powi 0" by (intro power_int_increasing) simp_all
    with one show False by simp
  qed
  have le53: "\<bar>x\<bar> \<le> 2 ^ 53"
  proof -
    have "(of_int \<bar>n\<bar> :: rat) \<le> of_int (2 ^ 53)" using assms by (simp only: of_int_le_iff)
    then show ?thesis by (simp add: ax)
  qed
  with lo have "(2::rat) powi k \<le> 2 powi 53" by simp
  then have k53: "k \<le> 53" by (rule power_int_le_imp_le_exp[rotated]) simp_all
  have e: "max (k - 52) (- 1074) = k - 52" using k0 by simp
  have "\<exists>m::int. x = of_int m * 2 powi (k - 52)"
  proof (cases "k \<le> 52")
    case True
    have "x = of_int (n * 2 ^ nat (52 - k)) * 2 powi (k - 52)"
    proof -
      have "(2::rat) ^ nat (52 - k) = 2 powi (52 - k)" using True by (simp add: power_int_def)
      then have "of_int (n * 2 ^ nat (52 - k)) * (2::rat) powi (k - 52) =
                 of_int n * (2 powi (52 - k) * 2 powi (k - 52))" by simp
      also have "(2::rat) powi (52 - k) * 2 powi (k - 52) = 1"
        by (simp add: power_int_add[symmetric])
      finally show ?thesis by (simp add: x_def)
    qed
    then show ?thesis by blast
  next
    case False
    with k53 have k: "k = 53" by simp
    have "\<bar>x\<bar> = 2 ^ 53" using lo le53 by (simp add: k)
    then have "\<bar>n\<bar> = 2 ^ 53" unfolding ax by (metis of_int_eq_iff of_int_numeral of_int_power)
    then have "even \<bar>n\<bar>" by simp
    then have "even n" by simp
    then obtain m where "n = 2 * m" by (auto elim: evenE)
    then have "x = of_int m * 2 powi (k - 52)" by (simp add: x_def k)
    then show ?thesis by blast
  qed
  then obtain m :: int where "x = of_int m * 2 powi (max (fl_exponent x - 52) (- 1074))"
    unfolding k_def[symmetric] e by blast
  then show ?thesis unfolding x_def[symmetric] by (rule fl_round_exact)
qed

text \<open>\<open>fl_round x\<close> is within half a unit in the last place of \<open>x\<close>.\<close>

lemma round_half_even_unfold:
  "round_half_even y =
     (if y - of_int \<lfloor>y\<rfloor> < 1 / 2 then \<lfloor>y\<rfloor>
      else if 1 / 2 < y - of_int \<lfloor>y\<rfloor> then \<lfloor>y\<rfloor> + 1
      else if even \<lfloor>y\<rfloor> then \<lfloor>y\<rfloor> else \<lfloor>y\<rfloor> + 1)"
  by (simp only: round_half_even_def Let_def)

lemma round_half_even_error: "\<bar>of_int (round_half_even y) - y\<bar> \<le> 1 / 2"
proof -
  define f where "f = \<lfloor>y\<rfloor>"
  define r where "r = y - of_int f"
  have r: "0 \<le> r" "r < 1" by (simp_all add: r_def f_def) linarith
  have y: "y = of_int f + r" by (simp add: r_def)
  have u: "round_half_even y =
     (if r < 1 / 2 then f else if 1 / 2 < r then f + 1 else if even f then f else f + 1)"
    by (simp only: round_half_even_unfold r_def f_def)
  show ?thesis
  proof (cases "r < 1 / 2")
    case True
    then have "round_half_even y = f" by (simp only: u if_True)
    then show ?thesis using True r by (simp add: y)
  next
    case False
    show ?thesis
    proof (cases "1 / 2 < r")
      case True
      then have "round_half_even y = f + 1" using False by (simp only: u if_True if_False)
      then show ?thesis using True r by (simp add: y)
    next
      case F2: False
      with False have h: "r = 1 / 2" by simp
      have "round_half_even y = f \<or> round_half_even y = f + 1"
        by (simp only: u) simp
      then show ?thesis by (auto simp: y h)
    qed
  qed
qed

lemma round_half_even_range:
  "\<lfloor>y\<rfloor> \<le> round_half_even y" "round_half_even y \<le> \<lfloor>y\<rfloor> + 1"
  by (simp_all add: round_half_even_unfold)

lemma round_half_even_bound:
  assumes "\<bar>y\<bar> \<le> of_int N"
  shows "\<bar>round_half_even y\<bar> \<le> N"
proof -
  define f where "f = \<lfloor>y\<rfloor>"
  have fl: "of_int f \<le> y" "y < of_int f + 1" by (simp_all add: f_def) linarith
  have lo: "- N \<le> f"
  proof -
    have "of_int (- N) \<le> y" using assms by simp
    then show ?thesis unfolding f_def by (simp only: le_floor_iff)
  qed
  have up: "round_half_even y \<le> N"
  proof (cases "y = of_int f")
    case True
    then have "round_half_even y = f" by (simp add: round_half_even_of_int)
    moreover have "of_int f \<le> (of_int N :: rat)" using True assms by simp
    ultimately show ?thesis by simp
  next
    case False
    with fl have "of_int f < y" by simp
    with assms have "of_int f < (of_int N :: rat)" by simp
    then have "f < N" by simp
    moreover have "round_half_even y \<le> f + 1"
      using round_half_even_range(2)[of y] by (simp add: f_def)
    ultimately show ?thesis by simp
  qed
  have "f \<le> round_half_even y"
    using round_half_even_range(1)[of y] by (simp add: f_def)
  with lo up show ?thesis by simp
qed

lemma fl_round_form:
  assumes "x \<noteq> 0"
  shows "fl_round x =
           of_int (round_half_even (x / 2 powi (max (fl_exponent x - 52) (- 1074))))
           * 2 powi (max (fl_exponent x - 52) (- 1074))"
    and "\<bar>round_half_even (x / 2 powi (max (fl_exponent x - 52) (- 1074)))\<bar> \<le> 2 ^ 53"
proof -
  define e where "e = max (fl_exponent x - 52) (- 1074)"
  show "fl_round x = of_int (round_half_even (x / 2 powi (max (fl_exponent x - 52) (- 1074))))
           * 2 powi (max (fl_exponent x - 52) (- 1074))"
    using assms by (simp add: fl_round_def Let_def)
  have "\<bar>x\<bar> < 2 powi (fl_exponent x + 1)" using fl_exponent_bounds[OF assms] by simp
  also have "\<dots> \<le> 2 powi (e + 53)"
    by (intro power_int_increasing) (simp_all add: e_def)
  also have "\<dots> = 2 powi e * 2 ^ 53" by (simp add: power_int_add)
  finally have "\<bar>x\<bar> < 2 powi e * 2 ^ 53" .
  then have "\<bar>x\<bar> / 2 powi e < 2 ^ 53"
    using two_powi_pos[of e] by (simp add: pos_divide_less_eq mult.commute)
  moreover have "\<bar>x / 2 powi e\<bar> = \<bar>x\<bar> / 2 powi e"
    using two_powi_pos[of e] by simp
  ultimately have "\<bar>x / 2 powi e\<bar> \<le> of_int (2 ^ 53)" by simp
  then have "\<bar>round_half_even (x / 2 powi e)\<bar> \<le> 2 ^ 53" by (rule round_half_even_bound)
  then show "\<bar>round_half_even (x / 2 powi (max (fl_exponent x - 52) (- 1074)))\<bar> \<le> 2 ^ 53"
    by (simp only: e_def)
qed

lemma fl_round_error:
  assumes "x \<noteq> 0"
  shows "\<bar>fl_round x - x\<bar> \<le> 2 powi (max (fl_exponent x - 52) (- 1074)) / 2"
proof -
  define e where "e = max (fl_exponent x - 52) (- 1074)"
  define y where "y = x / 2 powi e"
  have p: "0 < (2::rat) powi e" by (rule two_powi_pos)
  have x: "y * 2 powi e = x" using p by (simp add: y_def)
  have "fl_round x = of_int (round_half_even y) * 2 powi e"
    using fl_round_form(1)[OF assms] by (simp only: e_def y_def)
  then have "fl_round x - x = (of_int (round_half_even y) - y) * 2 powi e"
    by (simp add: algebra_simps x)
  then have "\<bar>fl_round x - x\<bar> = \<bar>of_int (round_half_even y) - y\<bar> * 2 powi e"
    using p by (simp add: abs_mult)
  also have "\<dots> \<le> (1 / 2) * 2 powi e"
    using round_half_even_error[of y] p by (intro mult_right_mono) simp_all
  finally show ?thesis by (simp add: e_def)
qed

lemma two_powi_less_iff: "(2::rat) powi a < 2 powi b \<longleftrightarrow> a < b"
proof
  assume l: "(2::rat) powi a < 2 powi b"
  show "a < b"
  proof (rule ccontr)
    assume "\<not> a < b"
    then have "b \<le> a" by simp
    then have "(2::rat) powi b \<le> 2 powi a" by (intro power_int_increasing) simp_all
    with l show False by simp
  qed
next
  assume "a < b"
  then show "(2::rat) powi a < 2 powi b" by (intro power_int_strict_increasing) simp_all
qed

text \<open>
  The result of \<open>fl_round\<close> is a float: its significand has at most 53 bits
  (\<open>fl_round_form\<close>), and rounding it again does not change it.
\<close>

lemma fl_round_idem: "fl_round (fl_round x) = fl_round x"
proof (cases "fl_round x = 0")
  case True
  then show ?thesis by (simp add: fl_round_def)
next
  case False
  then have x0: "x \<noteq> 0" by auto
  define e where "e = max (fl_exponent x - 52) (- 1074)"
  define m where "m = round_half_even (x / 2 powi e)"
  define y where "y = fl_round x"
  have y: "y = of_int m * 2 powi e"
    using fl_round_form(1)[OF x0] by (simp only: y_def m_def e_def)
  have m53: "\<bar>m\<bar> \<le> 2 ^ 53"
    using fl_round_form(2)[OF x0] by (simp only: m_def e_def)
  have y0: "y \<noteq> 0" using False by (simp add: y_def)
  have e0: "- 1074 \<le> e" by (simp add: e_def)
  define k where "k = fl_exponent y"
  have lo: "2 powi k \<le> \<bar>y\<bar>" and hi: "\<bar>y\<bar> < 2 powi (k + 1)"
    using fl_exponent_bounds[OF y0] by (simp_all add: k_def)
  have p: "0 < (2::rat) powi e" by (rule two_powi_pos)
  have ay: "\<bar>y\<bar> = of_int \<bar>m\<bar> * 2 powi e"
    using p by (simp add: y abs_mult)
  have "\<exists>m'::int. y = of_int m' * 2 powi (max (k - 52) (- 1074))"
  proof (cases "\<bar>m\<bar> = 2 ^ 53")
    case True
    have "\<bar>y\<bar> = 2 ^ 53 * 2 powi e" by (simp add: ay True)
    also have "\<dots> = 2 powi (e + 53)" by (simp add: power_int_add)
    finally have ye: "\<bar>y\<bar> = 2 powi (e + 53)" .
    from lo have "\<not> (2::rat) powi (e + 53) < 2 powi k" by (simp add: ye)
    then have k1: "\<not> e + 53 < k" by (simp add: two_powi_less_iff)
    from hi have "(2::rat) powi (e + 53) < 2 powi (k + 1)" by (simp add: ye)
    then have k2: "e + 53 < k + 1" by (simp add: two_powi_less_iff)
    from k1 k2 have k: "k = e + 53" by simp
    have mx: "max (k - 52) (- 1074) = e + 1" using e0 by (simp add: k)
    from True have "even \<bar>m\<bar>" by simp
    then have "even m" by simp
    then obtain h where "m = 2 * h" by (auto elim: evenE)
    then have "y = of_int h * 2 powi (e + 1)" by (simp add: y power_int_add)
    then show ?thesis unfolding mx by blast
  next
    case False
    with m53 have "\<bar>m\<bar> < 2 ^ 53" by simp
    then have "(of_int \<bar>m\<bar> :: rat) < of_int (2 ^ 53)" by (simp only: of_int_less_iff)
    then have "of_int \<bar>m\<bar> * 2 powi e < of_int (2 ^ 53) * (2::rat) powi e"
      using p by (simp only: mult_less_cancel_right_pos)
    then have "\<bar>y\<bar> < 2 ^ 53 * 2 powi e" by (simp add: ay)
    also have "\<dots> = 2 powi (e + 53)" by (simp add: power_int_add)
    finally have "(2::rat) powi k < 2 powi (e + 53)" using lo by simp
    then have "k < e + 53" by (simp add: two_powi_less_iff)
    define e' where "e' = max (k - 52) (- 1074)"
    have le: "e' \<le> e" using e0 \<open>k < e + 53\<close> by (simp add: e'_def)
    have "(2::rat) powi e = 2 ^ nat (e - e') * 2 powi e'"
    proof -
      have "(2::rat) ^ nat (e - e') = 2 powi (e - e')" using le by (simp add: power_int_def)
      then show ?thesis by (simp add: power_int_add[symmetric])
    qed
    then have "y = of_int (m * 2 ^ nat (e - e')) * 2 powi e'" by (simp add: y)
    then show ?thesis unfolding e'_def by blast
  qed
  then obtain m' :: int where "y = of_int m' * 2 powi (max (fl_exponent y - 52) (- 1074))"
    unfolding k_def by blast
  then have "fl_round y = y" by (rule fl_round_exact)
  then show ?thesis by (simp add: y_def)
qed

lemma fl_round_numeral [simp]:
  "(numeral k :: int) \<le> 9007199254740992 \<Longrightarrow> fl_round (numeral k) = numeral k"
  using fl_round_of_int[of "numeral k"] by simp

lemma fl_round_neg_numeral [simp]:
  "(numeral k :: int) \<le> 9007199254740992 \<Longrightarrow> fl_round (- numeral k) = - numeral k"
  using fl_round_of_int[of "- numeral k"] by simp

lemma fl_round_1 [simp]: "fl_round 1 = 1"
  using fl_round_of_int[of 1] by simp

text \<open>
  Some floats: the literals \<open>0.2\<close>, \<open>0.57\<close> and \<open>1.2\<close>, and three products that exact
  arithmetic would give as \<open>6.4\<close>, \<open>57\<close> and \<open>6\<close>; truncated, the last two are \<open>56\<close> and
  \<open>6\<close>.
\<close>

lemma float_0_2: "fl_round (2 / 10) = 3602879701896397 / 18014398509481984"
  by code_simp

lemma float_fifth: "fl_round (1 / 5) = 3602879701896397 / 18014398509481984"
  using float_0_2 by simp

lemma float_0_57: "fl_round (57 / 100) = 5134103575202365 / 9007199254740992"
  by code_simp

lemma float_1_2: "fl_round (12 / 10) = 5404319552844595 / 4503599627370496"
  by code_simp

lemma float_products:
  "fl_round (32 * fl_round (2 / 10)) = 3602879701896397 / 562949953421312"
  "py_int (fl_round (100 * fl_round (57 / 100))) = 56"
  "py_int (fl_round (5 * fl_round (12 / 10))) = 6"
  by code_simp+

section \<open>Progression\<close>

lemma level_up_loop_post:
  "level_up_loop p lg = (q, lg') \<Longrightarrow>
     exp_p q < exp_to_next (level q) \<and> level p \<le> level q \<and>
     exp_p q = exp_p p - sum_list (map exp_to_next [level p..level q - 1]) \<and>
     stat_points q = stat_points p + 4 * (level q - level p)"
proof (induction p lg arbitrary: q lg' rule: level_up_loop.induct)
  case (1 p lg)
  show ?case
  proof (cases "exp_p p \<ge> exp_to_next (level p)")
    case True
    let ?p1 = "p\<lparr>exp_p := exp_p p - exp_to_next (level p), level := level p + 1,
                   stat_points := stat_points p + 4\<rparr>"
    from True "1.prems" have run: "level_up_loop ?p1 (lg @ [LogLevelUp (level p + 1)]) = (q, lg')"
      by (subst (asm) level_up_loop.simps) simp
    from "1.IH"[OF True run] have ih:
      "exp_p q < exp_to_next (level q)" "level p + 1 \<le> level q"
      "exp_p q = exp_p p - exp_to_next (level p)
                 - sum_list (map exp_to_next [level p + 1..level q - 1])"
      "stat_points q = stat_points p + 4 + 4 * (level q - (level p + 1))"
      by simp_all
    from ih(2) have "[level p..level q - 1] = level p # [level p + 1..level q - 1]"
      by (simp add: upto_rec1)
    with ih show ?thesis by simp
  next
    case False
    with "1.prems" have "q = p" by (subst (asm) level_up_loop.simps) simp
    with False show ?thesis by simp
  qed
qed

text \<open>
  C9. \<open>exp_to_next level = 20 + level * 10\<close>, strictly increasing. \<open>gain_exp\<close> adds the
  amount and runs the loop that, while the exp reaches the threshold of the level,
  subtracts it, raises the level by one and grants 4 stat points. For every player and
  amount the call returns, with the exp below the threshold of the new level; what was
  not spent on thresholds is kept (the exp after is the exp before plus the amount minus
  the thresholds of the levels passed), and 4 points are granted per level. A level-1
  player with no exp who gains 35 ends at level 2 with 5 exp and 4 more points.
\<close>

theorem gain_exp_levels:
  "exp_to_next lv = 20 + lv * 10 \<and>
   (\<forall>a b. a < b \<longrightarrow> exp_to_next a < exp_to_next b) \<and>
   gain_exp p amount = level_up_loop (p\<lparr>exp_p := exp_p p + amount\<rparr>) [LogExp amount] \<and>
   (\<forall>q lg. level_up_loop q lg =
      (if exp_p q \<ge> exp_to_next (level q)
       then level_up_loop (q\<lparr>exp_p := exp_p q - exp_to_next (level q), level := level q + 1,
                              stat_points := stat_points q + 4\<rparr>) (lg @ [LogLevelUp (level q + 1)])
       else (q, lg))) \<and>
   (let q = fst (gain_exp p amount)
    in exp_p q < exp_to_next (level q) \<and> level p \<le> level q \<and>
       exp_p q = exp_p p + amount - sum_list (map exp_to_next [level p..level q - 1]) \<and>
       stat_points q = stat_points p + 4 * (level q - level p)) \<and>
   (level p = 1 \<and> exp_p p = 0 \<and> amount = 35 \<longrightarrow>
      (let q = fst (gain_exp p amount)
       in level q = 2 \<and> exp_p q = 5 \<and> stat_points q = stat_points p + 4))"
proof -
  obtain q lg' where
    run: "level_up_loop (p\<lparr>exp_p := exp_p p + amount\<rparr>) [LogExp amount] = (q, lg')"
    by (cases "level_up_loop (p\<lparr>exp_p := exp_p p + amount\<rparr>) [LogExp amount]")
  have post: "exp_p q < exp_to_next (level q) \<and> level p \<le> level q \<and>
       exp_p q = exp_p p + amount - sum_list (map exp_to_next [level p..level q - 1]) \<and>
       stat_points q = stat_points p + 4 * (level q - level p)"
    using level_up_loop_post[OF run] by simp
  have scen: "level p = 1 \<and> exp_p p = 0 \<and> amount = 35 \<longrightarrow>
      (let q = fst (gain_exp p amount)
       in level q = 2 \<and> exp_p q = 5 \<and> stat_points q = stat_points p + 4)"
    by (simp add: gain_exp_def exp_to_next_def Let_def)
  show ?thesis
    using post run scen
    by (simp add: gain_exp_def exp_to_next_def Let_def del: level_up_loop.simps)
       (subst level_up_loop.simps, simp add: exp_to_next_def)
qed

theorem gain_exp_levels_witness:
  "exp_to_next 1 = 30 \<and> exp_to_next 1 < exp_to_next 2 \<and>
   level (fst (gain_exp demo_player 35)) = 2 \<and> exp_p (fst (gain_exp demo_player 35)) = 5 \<and>
   stat_points (fst (gain_exp demo_player 35)) = 4"
proof -
  note t = gain_exp_levels[of 1 demo_player 35]
  have start: "level demo_player = 1 \<and> exp_p demo_player = 0 \<and> (35::int) = 35"
    by (simp add: demo_player_def)
  from t have "exp_to_next 1 = 20 + 1 * 10" by blast
  moreover from t have "\<forall>a b. a < b \<longrightarrow> exp_to_next a < exp_to_next b" by blast
  then have "exp_to_next 1 < exp_to_next 2" by simp
  moreover from t start have
    "let q = fst (gain_exp demo_player 35)
     in level q = 2 \<and> exp_p q = 5 \<and> stat_points q = stat_points demo_player + 4"
    by blast
  moreover have "stat_points demo_player = 0" by (simp add: demo_player_def)
  ultimately show ?thesis by (simp add: Let_def)
qed


section \<open>Damage of a skill use\<close>

lemma deal_damage_total:
  "fst (deal_damage ds st is_player skill_id sk) =
     fst (skill_damage sk (side_stats ds st is_player) (side_stats ds st (\<not> is_player)))
   + snd (skill_damage sk (side_stats ds st is_player) (side_stats ds st (\<not> is_player)))"
  by (simp add: deal_damage_def Let_def split: prod.splits)

lemma deal_damage_hp:
  "side_hp (snd (deal_damage ds st is_player skill_id sk)) (\<not> is_player) =
     max 0 (side_hp st (\<not> is_player) - of_int (fst (deal_damage ds st is_player skill_id sk)))"
  "side_hp (snd (deal_damage ds st is_player skill_id sk)) is_player = side_hp st is_player"
  by (simp_all add: deal_damage_def Let_def side_hp_def apply_damage_def split: prod.splits)

lemma skill_damage_eq:
  "skill_damage sk A D =
     (damage_part (base_physical sk) (scale_attack sk) (attack A) (defense D),
      damage_part (base_magic sk) (scale_magic sk) (magic A) (magic_resist D))"
  by (simp add: skill_damage_def damage_part_def Let_def)

lemma py_trunc_max0: "0 \<le> py_trunc (py_max0 x)"
  by (cases x) (simp_all add: py_trunc_def py_max0_def py_val_def py_int_def)

lemma damage_part_nonneg: "0 \<le> damage_part base scale a d"
  by (simp add: damage_part_def py_trunc_max0)

text \<open>A component is 0 as soon as the float under \<open>max\<close> is not positive.\<close>

lemma damage_part_clamped:
  "py_val (py_sub (py_add base (py_mul (PInt a) scale)) (py_mul (PInt d) scale)) \<le> 0 \<Longrightarrow>
   damage_part base scale a d = 0"
  by (simp add: damage_part_def py_max0_def py_trunc_def)

lemma resolve_skill_eq:
  "resolve_skill ds st is_player skill_id sk g =
     (let (total_damage, st1) = deal_damage ds st is_player skill_id sk;
          (ls, st2, g2) = apply_skill_effects ds is_player (sk_apply_effect sk) 0 st1 g;
          (st3, g3) = (if is_player then on_hit_proc ds st2 g2 else (st2, g2))
      in (lifesteal_heal ds is_player total_damage ls st3, g3))"
  by (simp add: resolve_skill_def Let_def split: prod.splits)

text \<open>
  The physical part of the basic attack, \<open>int(max(0, 10 + a * 0.2 - d * 0.2))\<close>, at some
  stats. At 32 against 2 and at 1 against 11 the floats give 15 and 7, where the exact
  numbers \<open>16\<close> and \<open>8\<close> would not be rounded down.
\<close>

lemma basic_physical:
  "damage_part (PInt 10) (py_float (2 / 10)) 20 5 = 13"
  "damage_part (PInt 10) (py_float (2 / 10)) 8 5 = 10"
  "damage_part (PInt 10) (py_float (2 / 10)) 10 5 = 11"
  "damage_part (PInt 10) (py_float (2 / 10)) 32 2 = 15"
  "damage_part (PInt 10) (py_float (2 / 10)) 1 11 = 7"
  by code_simp+

lemma basic_magic: "damage_part (PInt 0) (py_float 0) m r = 0"
  by (simp add: damage_part_def py_float_def py_mul_def py_add_def py_sub_def to_float_def
        py_max0_def py_val_def py_trunc_def)

text \<open>With ints only the arithmetic is exact.\<close>

lemma py_max0_int: "py_max0 (PInt n) = PInt (max 0 n)"
  by (simp add: py_max0_def py_val_def max_def)

lemma damage_part_int: "damage_part (PInt b) (PInt s) a d = max 0 (b + a * s - d * s)"
  by (simp add: damage_part_def py_mul_def py_add_def py_sub_def py_max0_int py_trunc_def)

lemmas basic_physical_simps = basic_physical[simplified]

lemma basic_skill_damage:
  "skill_damage basic_skill A D =
     (damage_part (PInt 10) (py_float (2 / 10)) (attack A) (defense D), 0)"
  by (simp only: skill_damage_eq basic_skill_def skill_def.simps basic_magic)

lemma basic13:
  "skill_in_range basic_skill A' D' \<and> attack A' = 20 \<and> defense D' = 5 \<longrightarrow>
   skill_damage basic_skill A' D' = (13, 0)"
  by (simp add: basic_skill_damage basic_physical_simps)

lemma basic_attack_rounding:
  "attack A = 32 \<and> defense D = 2 \<longrightarrow> skill_damage basic_skill A D = (15, 0)"
  "attack A = 1 \<and> defense D = 11 \<longrightarrow> skill_damage basic_skill A D = (7, 0)"
  by (simp_all add: basic_skill_damage basic_physical_simps)

lemma basic_in_range:
  "skill_in_range basic_skill A D \<longleftrightarrow>
     in_range (of_int (attack A)) \<and> in_range (of_int (magic A)) \<and>
     in_range (of_int (defense D)) \<and> in_range (of_int (magic_resist D))"
  by (simp add: skill_in_range_def basic_skill_def py_float_def py_val_def float_fifth
        in_range_def)

text \<open>
  C1. In every skill use, by either side, with numbers in the range of a float, the
  damage dealt to the defender is
  \<open>trunc (max 0 (base_physical + A.attack * scale.attack - D.defense * scale.attack)) +
  trunc (max 0 (base_magic + A.magic * scale.magic - D.magic_resist * scale.magic))\<close>
  in Python's arithmetic, with \<open>A\<close> and \<open>D\<close> the total stats of the attacker and of the
  defender: it is what \<open>deal_damage\<close> computes, neither part nor the sum is ever
  negative, the defender's hp drops by it (not below 0) and the attacker's hp is
  untouched; the rest of the skill use (effect specs, on-hit special, lifesteal) runs
  on that state. The built-in basic attack of an attacker with total attack 20 against
  a defender with total defense 5 deals 13 physical and 0 magic damage.
\<close>

theorem skill_damage_dealt:
  "skill_in_range sk (side_stats ds st is_player) (side_stats ds st (\<not> is_player)) \<Longrightarrow>
   (let A = side_stats ds st is_player;
        D = side_stats ds st (\<not> is_player);
        phys = damage_part (base_physical sk) (scale_attack sk) (attack A) (defense D);
        mag = damage_part (base_magic sk) (scale_magic sk) (magic A) (magic_resist D);
        dmg = phys + mag;
        st1 = snd (deal_damage ds st is_player skill_id sk)
    in skill_damage sk A D = (phys, mag) \<and>
       fst (deal_damage ds st is_player skill_id sk) = dmg \<and>
       0 \<le> phys \<and> 0 \<le> mag \<and> 0 \<le> dmg \<and>
       side_hp st1 (\<not> is_player) = max 0 (side_hp st (\<not> is_player) - of_int dmg) \<and>
       side_hp st1 is_player = side_hp st is_player \<and>
       resolve_skill ds st is_player skill_id sk g =
         (let (ls, st2, g2) = apply_skill_effects ds is_player (sk_apply_effect sk) 0 st1 g;
              (st3, g3) = (if is_player then on_hit_proc ds st2 g2 else (st2, g2))
          in (lifesteal_heal ds is_player dmg ls st3, g3))) \<and>
   (skill_in_range basic_skill A' D' \<and> attack A' = 20 \<and> defense D' = 5 \<longrightarrow>
      skill_damage basic_skill A' D' = (13, 0)) \<and>
   (map_of (ds_skills ds) ''__basic__'' = None \<longrightarrow>
      lookup_skill ds ''__basic__'' = Some basic_skill)"
proof -
  let ?A = "side_stats ds st is_player" and ?D = "side_stats ds st (\<not> is_player)"
  let ?phys = "damage_part (base_physical sk) (scale_attack sk) (attack ?A) (defense ?D)"
  let ?mag = "damage_part (base_magic sk) (scale_magic sk) (magic ?A) (magic_resist ?D)"
  let ?dmg = "?phys + ?mag"
  have sd: "skill_damage sk ?A ?D = (?phys, ?mag)"
    by (rule skill_damage_eq)
  have total: "fst (deal_damage ds st is_player skill_id sk) = ?dmg"
    by (simp add: deal_damage_total skill_damage_eq)
  have n1: "0 \<le> ?phys" and n2: "0 \<le> ?mag"
    by (rule damage_part_nonneg)+
  from n1 n2 have nonneg: "0 \<le> ?dmg" by simp
  have hp1: "side_hp (snd (deal_damage ds st is_player skill_id sk)) (\<not> is_player) =
               max 0 (side_hp st (\<not> is_player) - of_int ?dmg)"
    using deal_damage_hp(1)[of ds st is_player skill_id sk] total by simp
  have res: "resolve_skill ds st is_player skill_id sk g =
         (let (ls, st2, g2) = apply_skill_effects ds is_player (sk_apply_effect sk) 0
                                (snd (deal_damage ds st is_player skill_id sk)) g;
              (st3, g3) = (if is_player then on_hit_proc ds st2 g2 else (st2, g2))
          in (lifesteal_heal ds is_player ?dmg ls st3, g3))"
  proof -
    obtain td st1 where dd: "deal_damage ds st is_player skill_id sk = (td, st1)"
      by (cases "deal_damage ds st is_player skill_id sk")
    with total have "td = ?dmg" by simp
    with dd show ?thesis by (simp add: resolve_skill_eq)
  qed
  have basic: "map_of (ds_skills ds) ''__basic__'' = None \<longrightarrow>
      lookup_skill ds ''__basic__'' = Some basic_skill"
    by (simp add: lookup_skill_def)
  show ?thesis
    unfolding Let_def
    using sd total n1 n2 nonneg hp1 res basic basic13[of A' D']
      deal_damage_hp(2)[of ds st is_player skill_id sk]
    unfolding Let_def by blast
qed

theorem skill_damage_dealt_witness:
  "skill_in_range basic_skill (side_stats demo_ds demo_state True)
     (side_stats demo_ds demo_state False) \<and>
   skill_damage basic_skill (side_stats demo_ds demo_state True)
     (side_stats demo_ds demo_state False) = (13, 0) \<and>
   fst (deal_damage demo_ds demo_state True ''__basic__'' basic_skill) = 13 \<and>
   side_hp (snd (deal_damage demo_ds demo_state True ''__basic__'' basic_skill)) False = 17 \<and>
   lookup_skill demo_ds ''__basic__'' = Some basic_skill"
proof -
  have A: "side_stats demo_ds demo_state True =
             \<lparr>attack = 20, magic = 5, defense = 5, magic_resist = 5, max_hp = 100\<rparr>"
    by (simp add: side_stats_def demo_state_def start_battle_def demo_player_def demo_stats_def
          total_stats_def equip_bonus_def equip_multipliers_def resolve_item_def
          init_multipliers_def dict_add_all_def effect_bonus_def with_bonus_def dict_get_def
          py_int_def demo_ds_def Let_def)
  have D: "side_stats demo_ds demo_state False =
             \<lparr>attack = 8, magic = 0, defense = 5, magic_resist = 0, max_hp = 30\<rparr>"
    by (simp add: side_stats_def demo_state_def start_battle_def demo_enemy_def
          get_total_stats_def effect_bonus_def with_bonus_def dict_get_def)
  have hp0: "side_hp demo_state False = 30"
    by (simp add: side_hp_def demo_state_def start_battle_def demo_enemy_def)
  have nb: "map_of (ds_skills demo_ds) ''__basic__'' = None"
    by (simp add: demo_ds_def)
  have r: "skill_in_range basic_skill (side_stats demo_ds demo_state True)
             (side_stats demo_ds demo_state False)"
    by (simp add: basic_in_range A D in_range_def)
  have r': "skill_in_range basic_skill (side_stats demo_ds demo_state True)
             (side_stats demo_ds demo_state (\<not> True))"
    using r by simp
  note t = skill_damage_dealt[of basic_skill demo_ds demo_state True "''__basic__''" "sconst 0"
      "side_stats demo_ds demo_state True" "side_stats demo_ds demo_state False", OF r']
  have p: "damage_part (base_physical basic_skill) (scale_attack basic_skill) 20 5 = 13"
    by (simp only: basic_skill_def skill_def.simps basic_physical)
  have m: "damage_part (base_magic basic_skill) (scale_magic basic_skill) 5 0 = 0"
    by (simp only: basic_skill_def skill_def.simps basic_magic)
  from t nb have "lookup_skill demo_ds ''__basic__'' = Some basic_skill" by blast
  moreover from t have
    "skill_damage basic_skill (side_stats demo_ds demo_state True)
       (side_stats demo_ds demo_state False) = (13, 0) \<and>
     fst (deal_damage demo_ds demo_state True ''__basic__'' basic_skill) = 13 \<and>
     side_hp (snd (deal_damage demo_ds demo_state True ''__basic__'' basic_skill)) False = 17"
    by (simp add: A D hp0 Let_def p m)
  ultimately show ?thesis using r by simp
qed


section \<open>The end of a battle\<close>

lemma total_stats_hp_irrelevant:
  "total_stats (p\<lparr>hp := h\<rparr>) items = total_stats p items"
  by (simp add: total_stats_def effect_bonus_def)

lemma finish_no_loot:
  "\<not> (w = ''player'' \<and> truthy (drop_table_id st)) \<Longrightarrow>
   finish ds st w g =
     (\<lparr>winner = w, exp_r = (if w = ''player'' then expected_exp st else 0), drops = [],
       drop_details = [], logs_r = logs st\<rparr>,
      st\<lparr>player := (clear_all_battle_effects (player st))
           \<lparr>hp := of_int (max_hp (total_stats (clear_all_battle_effects (player st)) (ds_items ds)))\<rparr>,
         enemy := clear_all_battle_effects (enemy st)\<rparr>,
      g)"
  by (cases "drop_table_id st") (auto simp: finish_def truthy_def Let_def)

lemma finish_loot:
  "w = ''player'' \<Longrightarrow> drop_table_id st = Some table \<Longrightarrow> table \<noteq> [] \<Longrightarrow>
   roll_drop table ds g = (d, g') \<Longrightarrow>
   finish ds st w g =
     (\<lparr>winner = w, exp_r = expected_exp st,
       drops = map (\<lambda>(i, q). (item_name ds i, q)) d,
       drop_details = d,
       logs_r = logs st @ [LogDrops (map (\<lambda>(i, q). (item_name ds i, q)) d)]\<rparr>,
      st\<lparr>player := (clear_all_battle_effects (player st))
           \<lparr>hp := of_int (max_hp (total_stats (clear_all_battle_effects (player st)) (ds_items ds)))\<rparr>,
         enemy := clear_all_battle_effects (enemy st),
         logs := logs st @ [LogDrops (map (\<lambda>(i, q). (item_name ds i, q)) d)]\<rparr>,
      g')"
  by (simp add: finish_def Let_def)

text \<open>
  C3. Whatever the winner, after \<open>_finish\<close> the player's hp is the max hp of the total
  stats recomputed on the player as the battle leaves it (effects cleared), the effect
  lists of the player and of the enemy are empty, the result names the winner and
  carries the full expected exp for the winner "player" and 0 otherwise; loot is rolled
  exactly when the winner is "player" and a drop table id is set: then the drop list is
  what \<open>roll_drop\<close> returns from the generator, otherwise the drop list is empty, the
  generator is not drawn from and no line is logged.
\<close>

theorem finish_outcome:
  "(let (r, st', g') = finish ds st w g
    in hp (player st') = of_int (max_hp (total_stats (player st') (ds_items ds))) \<and>
       total_stats (player st') (ds_items ds) =
         total_stats (clear_all_battle_effects (player st)) (ds_items ds) \<and>
       effects (player st') = [] \<and> effects (enemy st') = [] \<and>
       winner r = w \<and>
       exp_r r = (if w = ''player'' then expected_exp st else 0) \<and>
       (if w = ''player'' \<and> truthy (drop_table_id st)
        then (drop_details r, g') = roll_drop (py_str (drop_table_id st)) ds g
        else drop_details r = [] \<and> g' = g \<and> logs st' = logs st))"
proof (cases "w = ''player'' \<and> truthy (drop_table_id st)")
  case False
  show ?thesis
    unfolding finish_no_loot[OF False] Let_def
    using False
    by (auto simp: total_stats_hp_irrelevant clear_all_battle_effects_def)
next
  case True
  then obtain table where tb: "drop_table_id st = Some table" "table \<noteq> []"
    by (auto simp: truthy_def split: option.splits)
  obtain d g1 where rd: "roll_drop table ds g = (d, g1)"
    by (cases "roll_drop table ds g")
  from True have w: "w = ''player''" by simp
  show ?thesis
    unfolding finish_loot[OF w tb rd] Let_def
    using True rd tb
    by (simp add: total_stats_hp_irrelevant clear_all_battle_effects_def py_str_def)
qed

theorem finish_outcome_witness:
  "(let (r, st', g') = finish demo_ds (demo_state\<lparr>player := (player demo_state)\<lparr>hp := 0\<rparr>\<rparr>)
                          ''enemy'' (sconst 0)
    in hp (player st') = 100 \<and> effects (player st') = [] \<and> effects (enemy st') = [] \<and>
       winner r = ''enemy'' \<and> exp_r r = 0 \<and> drop_details r = [])"
proof -
  let ?st = "demo_state\<lparr>player := (player demo_state)\<lparr>hp := 0\<rparr>\<rparr>"
  note t = finish_outcome[of demo_ds ?st "''enemy''" "sconst 0"]
  have mx: "max_hp (total_stats (clear_all_battle_effects (player ?st)) (ds_items demo_ds)) = 100"
    by (simp add: demo_state_def start_battle_def demo_player_def demo_stats_def
          total_stats_def equip_bonus_def equip_multipliers_def resolve_item_def
          init_multipliers_def dict_add_all_def effect_bonus_def with_bonus_def dict_get_def
          py_int_def demo_ds_def Let_def clear_all_battle_effects_def)
  show ?thesis
    using t mx by (auto simp: Let_def split: prod.splits)
qed


section \<open>Loot\<close>

lemma rng_random_range: "0 \<le> fst (rng_random g) \<and> fst (rng_random g) < 1"
proof -
  have "shd g mod 2 ^ 53 < (2::nat) ^ 53" by simp
  then have "(of_nat (shd g mod 2 ^ 53) :: rat) < of_nat (2 ^ 53)"
    by (simp only: of_nat_less_iff)
  then show ?thesis by (simp add: rng_random_def)
qed

lemma rng_randint_range:
  "a \<le> b \<Longrightarrow> a \<le> fst (rng_randint a b g) \<and> fst (rng_randint a b g) \<le> b"
proof -
  assume ab: "a \<le> b"
  then have pos: "0 < b - a + 1" by simp
  have "0 \<le> int (shd g) mod (b - a + 1)" using pos by simp
  moreover have "int (shd g) mod (b - a + 1) < b - a + 1"
    using pos by (rule pos_mod_bound)
  ultimately show ?thesis by (simp add: rng_randint_def)
qed

text \<open>
  One roll emits, in the order of the table, for a subsequence of its entries one pair
  each: no entry fires twice, and a pair has the entry's item and a quantity of
  \<open>[min(min,max), max(min,max)]\<close>.
\<close>

lemma roll_entries_sound:
  "roll_entries table results g = (out, g') \<Longrightarrow>
   \<exists>fired_entries new. out = results @ new \<and> subseq fired_entries table \<and>
      list_all2 emits fired_entries new"
proof (induction table arbitrary: results g)
  case Nil
  then show ?case by auto
next
  case (Cons entry rest)
  obtain u g1 where r: "rng_random g = (u, g1)" by (cases "rng_random g")
  let ?chance = "case de_chance entry of None \<Rightarrow> 0 | Some c \<Rightarrow> c"
  let ?qmin = "case de_min entry of None \<Rightarrow> 1 | Some m \<Rightarrow> m"
  let ?qmax = "case de_max entry of None \<Rightarrow> ?qmin | Some m \<Rightarrow> m"
  show ?case
  proof (cases "u \<le> ?chance \<and> truthy (de_item entry)")
    case False
    with Cons.prems r have "roll_entries rest results g1 = (out, g')"
      by (auto simp: truthy_def Let_def split: option.splits if_splits)
    from Cons.IH[OF this] obtain fe new where
      "out = results @ new" "subseq fe rest" "list_all2 emits fe new" by blast
    then have "out = results @ new \<and> subseq fe (entry # rest) \<and> list_all2 emits fe new"
      by (simp add: list_emb_Cons)
    then show ?thesis by blast
  next
    case True
    then obtain item_id where it: "de_item entry = Some item_id" "item_id \<noteq> []"
      by (auto simp: truthy_def split: option.splits)
    obtain qty g2 where q: "rng_randint (min ?qmin ?qmax) (max ?qmin ?qmax) g1 = (qty, g2)"
      by (cases "rng_randint (min ?qmin ?qmax) (max ?qmin ?qmax) g1")
    from True Cons.prems r it q
    have "roll_entries rest (results @ [(item_id, qty)]) g2 = (out, g')"
      by (simp add: Let_def)
    from Cons.IH[OF this] obtain fe new where
      ih: "out = (results @ [(item_id, qty)]) @ new" "subseq fe rest" "list_all2 emits fe new"
      by blast
    have "min ?qmin ?qmax \<le> qty \<and> qty \<le> max ?qmin ?qmax"
      using rng_randint_range[of "min ?qmin ?qmax" "max ?qmin ?qmax" g1] q by simp
    with it have "emits entry (item_id, qty)"
      by (simp add: emits_def Let_def)
    with ih have "out = results @ ((item_id, qty) # new) \<and>
        subseq (entry # fe) (entry # rest) \<and> list_all2 emits (entry # fe) ((item_id, qty) # new)"
      by simp
    then show ?thesis by blast
  qed
qed

text \<open>An entry with chance 1 (or more) and an item id yields its item in every roll.\<close>

lemma roll_entries_mono:
  "roll_entries table results g = (out, g') \<Longrightarrow> set results \<subseteq> set out"
  using roll_entries_sound[of table results g out g'] by auto

lemma roll_entries_certain:
  "roll_entries table results g = (out, g') \<Longrightarrow> entry \<in> set table \<Longrightarrow>
   de_chance entry = Some c \<Longrightarrow> 1 \<le> c \<Longrightarrow> de_item entry = Some item_id \<Longrightarrow>
   item_id \<noteq> [] \<Longrightarrow> item_id \<in> fst ` set out"
proof (induction table arbitrary: results g)
  case Nil
  then show ?case by simp
next
  case (Cons e rest)
  obtain u g1 where r: "rng_random g = (u, g1)" by (cases "rng_random g")
  have u1: "u < 1" using rng_random_range[of g] r by simp
  show ?case
  proof (cases "e = entry")
    case True
    let ?qmin = "case de_min entry of None \<Rightarrow> 1 | Some m \<Rightarrow> m"
    let ?qmax = "case de_max entry of None \<Rightarrow> ?qmin | Some m \<Rightarrow> m"
    obtain qty g2 where q: "rng_randint (min ?qmin ?qmax) (max ?qmin ?qmax) g1 = (qty, g2)"
      by (cases "rng_randint (min ?qmin ?qmax) (max ?qmin ?qmax) g1")
    from u1 Cons.prems(4) have "u \<le> c" by simp
    with True Cons.prems r q
    have "roll_entries rest (results @ [(item_id, qty)]) g2 = (out, g')"
      by (simp add: Let_def)
    from roll_entries_mono[OF this] have "(item_id, qty) \<in> set out" by auto
    then show ?thesis by force
  next
    case False
    with Cons.prems have mem: "entry \<in> set rest" by simp
    from Cons.prems(1) r obtain results1 g3 where
      "roll_entries rest results1 g3 = (out, g')"
      by (auto simp: Let_def split: option.splits if_splits prod.splits)
    from Cons.IH[OF this mem Cons.prems(3-6)] show ?thesis .
  qed
qed

text \<open>
  C8, the entry with chance 0: \<open>random()\<close> can return 0.0, the test is
  \<open>rng.random() <= chance\<close>, and the entry then yields its item.
\<close>

theorem roll_drop_zero_chance_fires:
  "fst (rng_random (sconst 0)) = 0 \<and>
   roll_drop ''t0'' zero_chance_ds (sconst 0) = ([(''a'', 1)], sconst 0)"
  by (simp add: roll_drop_def zero_chance_ds_def dict_get_def rng_random_def rng_randint_def
        Let_def)


section \<open>Inventory and equipment\<close>

lemma dict_get_update:
  "dict_get (AList.update k v d) k' dflt = (if k' = k then v else dict_get d k' dflt)"
  by (simp add: dict_get_def update_conv')

lemma dict_get_delete:
  "dict_get (AList.delete k d) k' dflt = (if k' = k then dflt else dict_get d k' dflt)"
  by (simp add: dict_get_def delete_conv')

lemma equipped_count_update:
  "equipped_count (AList.update slot v eq) i =
     equipped_count eq i - (if dict_get eq slot None = Some i then 1 else 0)
                         + (if v = Some i then 1 else 0)"
  by (induction eq) (auto simp: equipped_count_def dict_get_def)

lemma add_item_inventory:
  "dict_get (inventory (add_item_to_inventory p k 1)) i 0 =
     dict_get (inventory p) i 0 + (if i = k then 1 else 0)"
  "equipment (add_item_to_inventory p k 1) = equipment p"
  by (simp_all add: add_item_to_inventory_def dict_get_update)

lemma remove_item_inventory:
  assumes "1 \<le> dict_get (inventory p) k 0"
  shows "fst (remove_item_from_inventory p k 1)"
    and "dict_get (inventory (snd (remove_item_from_inventory p k 1))) i 0 =
           dict_get (inventory p) i 0 - (if i = k then 1 else 0)"
    and "equipment (snd (remove_item_from_inventory p k 1)) = equipment p"
  using assms
  by (auto simp: remove_item_from_inventory_def Let_def dict_get_update dict_get_delete)

lemma equip_item_fails:
  "\<forall>slot. \<not> equip_ok p item_id ds slot \<Longrightarrow>
   \<not> fst (equip_item p item_id ds) \<and> snd (snd (equip_item p item_id ds)) = p"
proof (cases "get_item ds item_id")
  case None
  then show ?thesis by (simp add: equip_item_def)
next
  case (Some item)
  assume no: "\<forall>slot. \<not> equip_ok p item_id ds slot"
  show ?thesis
  proof (cases "it_slot item")
    case None
    with Some show ?thesis by (simp add: equip_item_def)
  next
    case (Some slot)
    from no have "\<not> equip_ok p item_id ds slot" by blast
    with \<open>get_item ds item_id = Some item\<close> Some
    have "it_type item \<noteq> Some ''equipment'' \<or> \<not> valid_slot (Some slot) \<or>
          dict_get (inventory p) item_id 0 \<le> 0"
      by (auto simp: equip_ok_def)
    with \<open>get_item ds item_id = Some item\<close> Some show ?thesis
      by (auto simp: equip_item_def)
  qed
qed

lemma equip_item_succeeds:
  assumes ok: "equip_ok p item_id ds slot"
  defines "prev \<equiv> dict_get (equipment p) slot None"
  defines "p' \<equiv> snd (snd (equip_item p item_id ds))"
  shows "fst (equip_item p item_id ds)"
    and "equipment p' = AList.update slot (Some item_id) (equipment p)"
    and "dict_get (inventory p') i 0 =
           dict_get (inventory p) i 0 - (if i = item_id then 1 else 0)
             + (if prev = Some i \<and> i \<noteq> [] then 1 else 0)"
proof -
  from ok obtain item where
    item: "get_item ds item_id = Some item" "it_type item = Some ''equipment''"
      "it_slot item = Some slot" "valid_slot (Some slot)" "0 < dict_get (inventory p) item_id 0"
    by (auto simp: equip_ok_def split: option.splits)
  define p1 where "p1 = (case prev of None \<Rightarrow> p
                         | Some pv \<Rightarrow> if pv = [] then p else add_item_to_inventory p pv 1)"
  define p2 where "p2 = p1\<lparr>equipment := AList.update slot (Some item_id) (equipment p1)\<rparr>"
  have inv1: "dict_get (inventory p1) j 0 =
                dict_get (inventory p) j 0 + (if prev = Some j \<and> j \<noteq> [] then 1 else 0)" for j
    by (auto simp: p1_def add_item_inventory split: option.splits)
  have eq1: "equipment p1 = equipment p"
    by (auto simp: p1_def add_item_inventory split: option.splits)
  have inv2: "inventory p2 = inventory p1" and eq2: "equipment p2 = AList.update slot (Some item_id) (equipment p)"
    by (simp_all add: p2_def eq1)
  have enough: "1 \<le> dict_get (inventory p2) item_id 0"
    using item(5) inv1[of item_id] by (simp add: inv2)
  have run: "equip_item p item_id ds =
               (True, MsgEquipped (case it_name item of None \<Rightarrow> item_id | Some n \<Rightarrow> n),
                snd (remove_item_from_inventory p2 item_id 1))"
    using item
    by (simp add: equip_item_def Let_def p2_def p1_def prev_def split: prod.splits)
  show "fst (equip_item p item_id ds)" by (simp add: run)
  show "equipment p' = AList.update slot (Some item_id) (equipment p)"
    by (simp add: p'_def run remove_item_inventory(3)[OF enough] eq2)
  show "dict_get (inventory p') i 0 =
           dict_get (inventory p) i 0 - (if i = item_id then 1 else 0)
             + (if prev = Some i \<and> i \<noteq> [] then 1 else 0)"
    by (simp add: p'_def run remove_item_inventory(2)[OF enough] inv2 inv1)
qed

lemma unequip_slot_cases:
  "(\<not> fst (unequip_slot p slot ds) \<and> snd (snd (unequip_slot p slot ds)) = p \<and>
      \<not> (valid_slot (Some slot) \<and> truthy (dict_get (equipment p) slot None))) \<or>
   (fst (unequip_slot p slot ds) \<and> valid_slot (Some slot) \<and>
      truthy (dict_get (equipment p) slot None) \<and>
      equipment (snd (snd (unequip_slot p slot ds))) = AList.update slot None (equipment p) \<and>
      (\<forall>i. dict_get (inventory (snd (snd (unequip_slot p slot ds)))) i 0 =
             dict_get (inventory p) i 0
               + (if dict_get (equipment p) slot None = Some i then 1 else 0)))"
  by (auto simp: unequip_slot_def truthy_def Let_def add_item_inventory split: option.splits)

lemma total_count_equip:
  assumes ok: "equip_ok p item_id ds slot" and i: "i \<noteq> []"
  shows "total_count (snd (snd (equip_item p item_id ds))) i = total_count p i"
proof -
  note s = equip_item_succeeds[OF ok]
  show ?thesis
    unfolding total_count_def s(2) s(3)[of i] equipped_count_update
    using i by auto
qed

lemma total_count_unequip:
  "total_count (snd (snd (unequip_slot p slot ds))) i = total_count p i"
  using unequip_slot_cases[of p slot ds]
  by (auto simp: total_count_def equipped_count_update truthy_def split: option.splits)

text \<open>
  C10. \<open>equip_item\<close> fails exactly when the item is unknown, is not equipment, has no
  valid slot or is not held, and then returns the player unchanged. Otherwise it puts
  the item in its slot, takes one copy out of the inventory and puts the item the slot
  held before (if any) back into the inventory. \<open>unequip_slot\<close> fails, with the player
  unchanged, on an invalid or empty slot, and otherwise empties the slot and puts its
  item back into the inventory. Both keep, for every item id, the number of copies in
  the inventory and in the equipment slots together. (The empty string is no item id:
  a slot that holds it counts as empty for both functions.)
\<close>

theorem equip_unequip_counts:
  "((\<forall>slot. \<not> equip_ok p item_id ds slot) \<longrightarrow>
      \<not> fst (equip_item p item_id ds) \<and> snd (snd (equip_item p item_id ds)) = p) \<and>
   (\<forall>slot. equip_ok p item_id ds slot \<longrightarrow>
      fst (equip_item p item_id ds) \<and>
      (let p' = snd (snd (equip_item p item_id ds));
           prev = dict_get (equipment p) slot None
       in equipment p' = AList.update slot (Some item_id) (equipment p) \<and>
          (\<forall>i. dict_get (inventory p') i 0 =
                  dict_get (inventory p) i 0 - (if i = item_id then 1 else 0)
                    + (if prev = Some i \<and> i \<noteq> [] then 1 else 0)) \<and>
          (\<forall>i. i \<noteq> [] \<longrightarrow> total_count p' i = total_count p i))) \<and>
   (let r = unequip_slot p slot' ds; p' = snd (snd r);
        current = dict_get (equipment p) slot' None
    in (if valid_slot (Some slot') \<and> truthy current
        then fst r \<and> equipment p' = AList.update slot' None (equipment p) \<and>
             (\<forall>i. dict_get (inventory p') i 0 =
                     dict_get (inventory p) i 0 + (if current = Some i then 1 else 0))
        else \<not> fst r \<and> p' = p) \<and>
       (\<forall>i. total_count p' i = total_count p i))"
proof -
  have a: "(\<forall>slot. \<not> equip_ok p item_id ds slot) \<longrightarrow>
      \<not> fst (equip_item p item_id ds) \<and> snd (snd (equip_item p item_id ds)) = p"
    using equip_item_fails[of p item_id ds] by blast
  have b: "equip_ok p item_id ds slot \<longrightarrow>
      fst (equip_item p item_id ds) \<and>
      (let p' = snd (snd (equip_item p item_id ds));
           prev = dict_get (equipment p) slot None
       in equipment p' = AList.update slot (Some item_id) (equipment p) \<and>
          (\<forall>i. dict_get (inventory p') i 0 =
                  dict_get (inventory p) i 0 - (if i = item_id then 1 else 0)
                    + (if prev = Some i \<and> i \<noteq> [] then 1 else 0)) \<and>
          (\<forall>i. i \<noteq> [] \<longrightarrow> total_count p' i = total_count p i))" for slot
    unfolding Let_def
    using equip_item_succeeds[of p item_id ds slot] total_count_equip[of p item_id ds slot]
    by blast
  have c: "(let r = unequip_slot p slot' ds; p' = snd (snd r);
        current = dict_get (equipment p) slot' None
    in (if valid_slot (Some slot') \<and> truthy current
        then fst r \<and> equipment p' = AList.update slot' None (equipment p) \<and>
             (\<forall>i. dict_get (inventory p') i 0 =
                     dict_get (inventory p) i 0 + (if current = Some i then 1 else 0))
        else \<not> fst r \<and> p' = p) \<and>
       (\<forall>i. total_count p' i = total_count p i))"
    unfolding Let_def
    using unequip_slot_cases[of p slot' ds] total_count_unequip[of p slot' ds]
    by (cases "valid_slot (Some slot') \<and> truthy (dict_get (equipment p) slot' None)") auto
  from a b c show ?thesis by blast
qed

theorem equip_unequip_counts_witness:
  "fst (equip_item gear_player ''sword'' gear_ds) \<and>
   total_count (snd (snd (equip_item gear_player ''sword'' gear_ds))) ''sword'' = 3 \<and>
   total_count gear_player ''sword'' = 3 \<and>
   \<not> fst (equip_item gear_player ''potion'' gear_ds) \<and>
   snd (snd (equip_item gear_player ''potion'' gear_ds)) = gear_player \<and>
   fst (unequip_slot gear_player ''accessory'' gear_ds) \<and>
   total_count (snd (snd (unequip_slot gear_player ''accessory'' gear_ds))) ''charm'' = 1"
proof -
  note t1 = equip_unequip_counts[of gear_player "''sword''" gear_ds "''accessory''"]
  note t2 = equip_unequip_counts[of gear_player "''potion''" gear_ds "''accessory''"]
  have ok: "equip_ok gear_player ''sword'' gear_ds ''weapon''"
    by (simp add: equip_ok_def gear_ds_def get_item_def demo_sword_def valid_slot_def
          gear_player_def dict_get_def)
  have no: "\<forall>slot. \<not> equip_ok gear_player ''potion'' gear_ds slot"
    by (simp add: equip_ok_def gear_ds_def get_item_def demo_potion_def)
  have cur: "valid_slot (Some ''accessory'') \<and>
             truthy (dict_get (equipment gear_player) ''accessory'' None)"
    by (simp add: valid_slot_def gear_player_def dict_get_def truthy_def)
  have c0: "total_count gear_player ''sword'' = 3" "total_count gear_player ''charm'' = 1"
    by (simp_all add: total_count_def equipped_count_def gear_player_def dict_get_def)
  from t1 ok have "fst (equip_item gear_player ''sword'' gear_ds) \<and>
      total_count (snd (snd (equip_item gear_player ''sword'' gear_ds))) ''sword'' =
        total_count gear_player ''sword''"
    unfolding Let_def by (metis list.simps(3))
  moreover from t2 no have "\<not> fst (equip_item gear_player ''potion'' gear_ds) \<and>
      snd (snd (equip_item gear_player ''potion'' gear_ds)) = gear_player"
    by blast
  moreover from t1 cur have "fst (unequip_slot gear_player ''accessory'' gear_ds) \<and>
      total_count (snd (snd (unequip_slot gear_player ''accessory'' gear_ds))) ''charm'' =
        total_count gear_player ''charm''"
    unfolding Let_def by metis
  ultimately show ?thesis using c0 by simp
qed


section \<open>Total stats\<close>

lemma dict_add_all_get:
  "dict_get (dict_add_all b d) key 0 = dict_get b key 0 + entry_sum key d"
proof -
  have "dict_get (fold (\<lambda>(k, v) b. AList.update k (dict_get b k 0 + v) b) d b) key 0
          = dict_get b key 0 + entry_sum key d" for b
    by (induction d arbitrary: b) (auto simp: entry_sum_def dict_get_update)
  then show ?thesis by (simp add: dict_add_all_def)
qed

lemma dict_add_all_distinct:
  "distinct (map fst b) \<Longrightarrow> distinct (map fst (dict_add_all b d))"
proof -
  have "distinct (map fst b) \<Longrightarrow>
        distinct (map fst (fold (\<lambda>(k, v) b. AList.update k (dict_get b k 0 + v) b) d b))" for b
    by (induction d arbitrary: b) (auto simp: distinct_update)
  then show "distinct (map fst b) \<Longrightarrow> distinct (map fst (dict_add_all b d))"
    by (simp add: dict_add_all_def)
qed

lemma entry_sum_distinct:
  "distinct (map fst d) \<Longrightarrow> entry_sum key d = dict_get d key 0"
proof (induction d)
  case Nil
  then show ?case by (simp add: entry_sum_def dict_get_def)
next
  case (Cons kv d)
  obtain k v where kv: "kv = (k, v)" by (cases kv)
  show ?case
  proof (cases "k = key")
    case True
    with Cons.prems kv have "key \<notin> fst ` set d" by simp
    then have "filter (\<lambda>(k, v). k = key) d = []"
      by (auto simp: filter_empty_conv image_iff)
    with True kv show ?thesis by (simp add: entry_sum_def dict_get_def)
  next
    case False
    with Cons kv show ?thesis by (simp add: entry_sum_def dict_get_def)
  qed
qed

lemma effect_fold_get:
  "dict_get
     (fold (\<lambda>eff bonus.
              if duration eff \<le> 0 then bonus
              else if kind eff \<noteq> ''buff_stats'' \<and> kind eff \<noteq> ''debuff_stats'' then bonus
              else dict_add_all bonus (stats_delta eff)) effs b) key 0
   = dict_get b key 0
     + sum_list (map (entry_sum key)
         (map stats_delta
            (filter (\<lambda>e. duration e > 0 \<and> (kind e = ''buff_stats'' \<or> kind e = ''debuff_stats''))
               effs)))"
  by (induction effs arbitrary: b) (auto simp: dict_add_all_get)

lemma effect_fold_distinct:
  "distinct (map fst b) \<Longrightarrow>
   distinct (map fst
     (fold (\<lambda>eff bonus.
              if duration eff \<le> 0 then bonus
              else if kind eff \<noteq> ''buff_stats'' \<and> kind eff \<noteq> ''debuff_stats'' then bonus
              else dict_add_all bonus (stats_delta eff)) effs b))"
  by (induction effs arbitrary: b) (auto simp: dict_add_all_distinct)

lemma effect_bonus_get:
  "dict_get (effect_bonus a) key 0 = sum_list (map (entry_sum key) (active_deltas a))"
proof -
  have e: "dict_get [] key (0::int) = 0" by (simp add: dict_get_def)
  show ?thesis by (simp add: effect_bonus_def active_deltas_def effect_fold_get e)
qed

lemma effect_bonus_entry_sum:
  "entry_sum key (effect_bonus a) = sum_list (map (entry_sum key) (active_deltas a))"
proof -
  have "distinct (map fst (effect_bonus a))"
    unfolding effect_bonus_def by (rule effect_fold_distinct) simp
  then show ?thesis by (simp add: entry_sum_distinct effect_bonus_get)
qed

lemma equip_bonus_get:
  "dict_get (equip_bonus items eq b) key 0 =
     dict_get b key 0
     + sum_list (map (\<lambda>item. entry_sum key (it_stats item)) (equipped_items items eq))"
proof -
  have "dict_get
          (fold (\<lambda>(slot, item_id) b.
                   case resolve_item items item_id of
                     None \<Rightarrow> b
                   | Some item_obj \<Rightarrow> dict_add_all b (it_stats item_obj)) eq b) key 0
        = dict_get b key 0
          + sum_list (map (\<lambda>item. entry_sum key (it_stats item))
               (List.map_filter (\<lambda>(slot, item_id). resolve_item items item_id) eq))" for b
    by (induction eq arbitrary: b)
       (auto simp: dict_add_all_get split: option.splits)
  then show ?thesis by (simp add: equip_bonus_def equipped_items_def)
qed

lemma multiplier_fold_get:
  assumes "key \<in> fst ` set m"
  shows "dict_get
     (fold (\<lambda>(slot, item_id) m.
            case resolve_item items item_id of
              None \<Rightarrow> m
            | Some item_obj \<Rightarrow>
                (case it_special item_obj of
                   None \<Rightarrow> m
                 | Some special \<Rightarrow>
                     if sp_type special = Some ''stat_multiplier'' then
                       (let mult = (case sp_mult special of None \<Rightarrow> 1 | Some x \<Rightarrow> x) in
                        case sp_stat special of
                          None \<Rightarrow> m
                        | Some stat_key \<Rightarrow>
                            if stat_key \<in> fst ` set m \<and> mult > 0
                            then AList.update stat_key
                                   (fl_round (dict_get m stat_key 1 * mult)) m
                            else m)
                     else m)) eq m) key 1
   = fold (\<lambda>f acc. fl_round (acc * f))
       (concat (map (item_factors key)
          (List.map_filter (\<lambda>(slot, item_id). resolve_item items item_id) eq)))
       (dict_get m key 1)"
  using assms
proof (induction eq arbitrary: m)
  case Nil
  then show ?case by (simp add:)
next
  case (Cons se eq)
  obtain slot item_id where se: "se = (slot, item_id)" by (cases se)
  show ?case
  proof (cases "resolve_item items item_id")
    case None
    with Cons se show ?thesis by (simp add:)
  next
    case (Some item_obj)
    note res = this
    show ?thesis
    proof (cases "it_special item_obj")
      case None
      with Cons se res show ?thesis by (simp add: item_factors_def)
    next
      case (Some special)
      let ?mult = "case sp_mult special of None \<Rightarrow> 1 | Some x \<Rightarrow> x"
      show ?thesis
      proof (cases "sp_type special = Some ''stat_multiplier'' \<and> ?mult > 0 \<and>
                    (\<exists>k. sp_stat special = Some k \<and> k \<in> fst ` set m)")
        case True
        then obtain k where k: "sp_stat special = Some k" "k \<in> fst ` set m" by blast
        let ?m1 = "AList.update k (fl_round (dict_get m k 1 * ?mult)) m"
        have in1: "key \<in> fst ` set ?m1" using Cons.prems by (simp add: dom_update)
        have step: "dict_get ?m1 key 1 =
                      fold (\<lambda>f acc. fl_round (acc * f)) (item_factors key item_obj)
                        (dict_get m key 1)"
          using True k Some by (simp add: dict_get_update item_factors_def Let_def)
        show ?thesis
          using True k Some res se Cons.IH[OF in1] step
          by (simp add: Let_def)
      next
        case False
        have none: "item_factors key item_obj = []"
          using False Some Cons.prems
          by (auto simp: item_factors_def Let_def split: option.splits)
        show ?thesis
          using False Some res se Cons.IH[OF Cons.prems] none
          by (auto simp: Let_def split: option.splits)
      qed
    qed
  qed
qed

lemma equip_multipliers_get:
  "key \<in> {''attack'', ''magic'', ''defense'', ''magic_resist'', ''max_hp''} \<Longrightarrow>
   dict_get (equip_multipliers items eq) key 1 = float_product (field_factors key items eq)"
proof -
  assume k: "key \<in> {''attack'', ''magic'', ''defense'', ''magic_resist'', ''max_hp''}"
  then have in0: "key \<in> fst ` set init_multipliers"
    by (auto simp: init_multipliers_def)
  have one: "dict_get init_multipliers key 1 = 1"
    by (simp add: dict_get_def split: option.splits)
       (auto simp: init_multipliers_def split: if_splits)
  show ?thesis
    unfolding equip_multipliers_def field_factors_def float_product_def equipped_items_def
    by (simp only: multiplier_fold_get[OF in0] one)
qed

lemma total_stats_field:
  "key \<in> {''attack'', ''magic'', ''defense'', ''magic_resist'', ''max_hp''} \<Longrightarrow>
   stat_field key (total_stats p items) = spec_field key p items"
proof -
  assume k: "key \<in> {''attack'', ''magic'', ''defense'', ''magic_resist'', ''max_hp''}"
  have add: "dict_get (dict_add_all (equip_bonus items (equipment p) (allocated_stats p))
                         (effect_bonus p)) key 0
             = additive_total key p items - stat_field key (base_stats p)"
    by (simp add: dict_add_all_get equip_bonus_get effect_bonus_entry_sum additive_total_def)
  have base: "stat_field key (with_bonus s b) = stat_field key s + dict_get b key 0" for s b
    using k by (auto simp: stat_field_def with_bonus_def)
  have sf: "stat_field key (total_stats p items) =
        py_int (fl_round (fl_round (of_int (stat_field key (with_bonus (base_stats p)
                 (dict_add_all (equip_bonus items (equipment p) (allocated_stats p))
                         (effect_bonus p)))))
                * dict_get (equip_multipliers items (equipment p)) key 1))"
    using k by (auto simp: stat_field_def total_stats_def Let_def)
  show ?thesis
    unfolding sf base add equip_multipliers_get[OF k] spec_field_def by simp
qed

text \<open>
  The multiplier of an item, a float below 1: a max hp of 100 times \<open>0.57\<close> is 56.
\<close>

lemma total_stats_rounding:
  "max_hp (total_stats
     (demo_player\<lparr>equipment := [(''weapon'', None), (''armor'', Some ''amulet''),
                                  (''accessory'', None)]\<rparr>)
     [(''amulet'',
       \<lparr>it_name = Some ''amulet'', it_type = Some ''equipment'', it_slot = Some ''armor'',
        it_stats = [],
        it_special = Some \<lparr>sp_type = Some ''stat_multiplier'', sp_stat = Some ''max_hp'',
                            sp_mult = Some (fl_round (57 / 100)), sp_chance = None,
                            sp_effect = None, sp_duration = None, sp_power = None\<rparr>,
        it_use_effect = None\<rparr>)]) = 56"
proof -
  have f: "fl_round (fl_round (57 / 100)) = fl_round (57 / 100)"
    by code_simp
  have pos: "0 < fl_round (57 / 100)"
    by (simp add: float_0_57)
  show ?thesis
    using pos
    by (simp add: total_stats_def equip_bonus_def equip_multipliers_def resolve_item_def
          init_multipliers_def dict_add_all_def effect_bonus_def with_bonus_def dict_get_def
          demo_player_def demo_stats_def Let_def f float_products)
qed

text \<open>
  C2. The total stats of a player, with numbers in the range of a float, are, field by
  field: the base stat plus the allocated points plus the stat bonuses of the equipped
  items plus the deltas of the active buffs and debuffs, all added in one sum; that sum
  times the product of the \<open>stat_multiplier\<close> factors of the equipped items for the field
  (a factor that is not positive is left out), the products being those of floats; and
  the result truncated to an integer. The factor multiplies the sum, buffs included,
  and not the base stat.
\<close>

theorem total_stats_pipeline:
  "stats_in_range p items \<Longrightarrow> total_stats p items = total_stats_spec p items"
proof -
  have "attack (total_stats p items) = spec_field ''attack'' p items"
    using total_stats_field[of "''attack''" p items] by (simp add: stat_field_def)
  moreover have "magic (total_stats p items) = spec_field ''magic'' p items"
    using total_stats_field[of "''magic''" p items] by (simp add: stat_field_def)
  moreover have "defense (total_stats p items) = spec_field ''defense'' p items"
    using total_stats_field[of "''defense''" p items] by (simp add: stat_field_def)
  moreover have "magic_resist (total_stats p items) = spec_field ''magic_resist'' p items"
    using total_stats_field[of "''magic_resist''" p items] by (simp add: stat_field_def)
  moreover have "max_hp (total_stats p items) = spec_field ''max_hp'' p items"
    using total_stats_field[of "''max_hp''" p items] by (simp add: stat_field_def)
  ultimately show ?thesis by (simp add: total_stats_spec_def)
qed

theorem total_stats_pipeline_witness:
  "stats_in_range buffed_player (ds_items gear_ds) \<and>
   attack (total_stats buffed_player (ds_items gear_ds)) = 30 \<and>
   max_hp (total_stats buffed_player (ds_items gear_ds)) = 110"
proof -
  have eq: "equipped_items (ds_items gear_ds) (equipment buffed_player) = [demo_sword, demo_charm]"
    by (simp add: equipped_items_def buffed_player_def gear_player_def gear_ds_def
          resolve_item_def)
  have deltas: "active_deltas buffed_player = [[(''attack'', 3)]]"
    by (simp add: active_deltas_def buffed_player_def)
  have tot: "additive_total ''attack'' buffed_player (ds_items gear_ds) = 20"
       "additive_total ''magic'' buffed_player (ds_items gear_ds) = 5"
       "additive_total ''defense'' buffed_player (ds_items gear_ds) = 5"
       "additive_total ''magic_resist'' buffed_player (ds_items gear_ds) = 5"
       "additive_total ''max_hp'' buffed_player (ds_items gear_ds) = 110"
    unfolding additive_total_def eq deltas
    by (simp_all add: buffed_player_def gear_player_def demo_player_def demo_stats_def
          stat_field_def dict_get_def entry_sum_def demo_sword_def demo_charm_def)
  have fac: "field_factors ''attack'' (ds_items gear_ds) (equipment buffed_player) = [3 / 2]"
       "field_factors ''magic'' (ds_items gear_ds) (equipment buffed_player) = []"
       "field_factors ''defense'' (ds_items gear_ds) (equipment buffed_player) = []"
       "field_factors ''magic_resist'' (ds_items gear_ds) (equipment buffed_player) = []"
       "field_factors ''max_hp'' (ds_items gear_ds) (equipment buffed_player) = []"
    unfolding field_factors_def eq
    by (simp_all add: item_factors_def demo_sword_def demo_charm_def)
  have half: "fl_round (3 / 2) = 3 / 2"
    by code_simp
  have r: "stats_in_range buffed_player (ds_items gear_ds)"
    by (simp add: stats_in_range_def tot fac in_range_def)
  note t = total_stats_pipeline[of buffed_player "ds_items gear_ds", OF r]
  from t have "attack (total_stats buffed_player (ds_items gear_ds)) = 30 \<and>
             max_hp (total_stats buffed_player (ds_items gear_ds)) = 110"
    by (simp add: total_stats_spec_def spec_field_def tot fac float_product_def half py_int_def)
  with r show ?thesis by simp
qed


section \<open>Frame properties of the engine\<close>

lemma same_actor_refl: "same_actor a a"
  by (simp add: same_actor_def)

lemma same_actor_trans: "same_actor a b \<Longrightarrow> same_actor b c \<Longrightarrow> same_actor a c"
  by (simp add: same_actor_def)

lemma same_actor_upd: "same_actor a (a\<lparr>hp := h\<rparr>)" "same_actor a (a\<lparr>effects := es\<rparr>)"
  "same_actor a (a\<lparr>hp := h, effects := es\<rparr>)"
  by (simp_all add: same_actor_def)

lemma same_setup_refl: "same_setup st st"
  by (simp add: same_setup_def same_actor_refl)

lemma same_setup_trans: "same_setup a b \<Longrightarrow> same_setup b c \<Longrightarrow> same_setup a c"
  unfolding same_setup_def by (metis same_actor_trans)

lemma same_setup_logs: "same_setup st (st\<lparr>logs := lg\<rparr>)"
  by (simp add: same_setup_def same_actor_refl)

lemma same_setup_player:
  "same_actor (player st) p \<Longrightarrow> same_setup st (st\<lparr>player := p\<rparr>)"
  by (simp add: same_setup_def same_actor_refl)

lemma same_setup_enemy:
  "same_actor (enemy st) e \<Longrightarrow> same_setup st (st\<lparr>enemy := e\<rparr>)"
  by (simp add: same_setup_def same_actor_refl)

lemma apply_effect_same_actor:
  "same_actor a (fst (apply_effect gts a spec lg g))"
  by (simp add: apply_effect_def Let_def same_actor_def split: prod.splits)

lemma apply_effect_on_same:
  "same_setup st (fst (apply_effect_on ds on_player spec st g))"
proof (cases on_player)
  case True
  obtain p lg g1 where r:
    "apply_effect (\<lambda>q. total_stats q (ds_items ds)) (player st) spec (logs st) g = (p, lg, g1)"
    by (cases "apply_effect (\<lambda>q. total_stats q (ds_items ds)) (player st) spec (logs st) g")
  from apply_effect_same_actor[of "player st" "\<lambda>q. total_stats q (ds_items ds)" spec "logs st" g] r
  have "same_actor (player st) p" by simp
  then have "same_setup st (st\<lparr>player := p, logs := lg\<rparr>)"
    by (simp add: same_setup_def same_actor_refl)
  with True r show ?thesis by (simp add: apply_effect_on_def)
next
  case False
  obtain e lg g1 where r:
    "apply_effect get_total_stats (enemy st) spec (logs st) g = (e, lg, g1)"
    by (cases "apply_effect get_total_stats (enemy st) spec (logs st) g")
  from apply_effect_same_actor[of "enemy st" get_total_stats spec "logs st" g] r
  have "same_actor (enemy st) e" by simp
  then have "same_setup st (st\<lparr>enemy := e, logs := lg\<rparr>)"
    by (simp add: same_setup_def same_actor_refl)
  with False r show ?thesis by (simp add: apply_effect_on_def)
qed

lemma deal_damage_same:
  "same_setup st (snd (deal_damage ds st is_player skill_id sk))"
  by (cases is_player)
     (simp_all add: deal_damage_def Let_def same_setup_def same_actor_def apply_damage_def
        split: prod.splits)

lemma apply_skill_effects_same:
  "same_setup st (fst (snd (apply_skill_effects ds is_player effs ls st g)))"
proof (induction effs arbitrary: ls st g)
  case Nil
  show ?case by (simp add: same_setup_refl)
next
  case (Cons eff rest)
  show ?case
  proof (cases "py_or (es_type eff) (es_effect eff) = Some ''lifesteal''")
    case True
    then show ?thesis using Cons.IH by (simp add: Let_def)
  next
    case False
    let ?on = "if (case es_target eff of None \<Rightarrow> ''self'' | Some t \<Rightarrow> t) = ''self''
               then is_player else \<not> is_player"
    obtain st1 g1 where r: "apply_effect_on ds ?on eff st g = (st1, g1)"
      by (cases "apply_effect_on ds ?on eff st g")
    from apply_effect_on_same[of st ds ?on eff g] r have a: "same_setup st st1" by simp
    from Cons.IH[where ls=ls and st=st1 and g=g1]
    have b: "same_setup st1 (fst (snd (apply_skill_effects ds is_player rest ls st1 g1)))" .
    from False r have "apply_skill_effects ds is_player (eff # rest) ls st g =
                       apply_skill_effects ds is_player rest ls st1 g1"
      by (simp add: Let_def)
    with same_setup_trans[OF a b] show ?thesis by simp
  qed
qed

lemma on_hit_proc_same: "same_setup st (fst (on_hit_proc ds st g))"
proof -
  have ae: "same_setup st (fst (apply_effect_on ds False spec st g1))" for spec g1
    by (rule apply_effect_on_same)
  show ?thesis
    unfolding on_hit_proc_def
    by (simp add: same_setup_refl ae Let_def split: option.splits prod.splits)
qed

lemma lifesteal_heal_same: "same_setup st (lifesteal_heal ds is_player td ls st)"
  by (cases is_player)
     (simp_all add: lifesteal_heal_def Let_def same_setup_def same_actor_def)

lemma resolve_skill_same:
  "same_setup st (fst (resolve_skill ds st is_player skill_id sk g))"
proof -
  obtain td st1 where d: "deal_damage ds st is_player skill_id sk = (td, st1)"
    by (cases "deal_damage ds st is_player skill_id sk")
  obtain ls st2 g2 where e:
    "apply_skill_effects ds is_player (sk_apply_effect sk) 0 st1 g = (ls, st2, g2)"
    by (cases "apply_skill_effects ds is_player (sk_apply_effect sk) 0 st1 g")
  obtain st3 g3 where h: "(if is_player then on_hit_proc ds st2 g2 else (st2, g2)) = (st3, g3)"
    by (cases "if is_player then on_hit_proc ds st2 g2 else (st2, g2)")
  have a: "same_setup st st1" using deal_damage_same[of st ds is_player skill_id sk] d by simp
  have b: "same_setup st1 st2"
    using apply_skill_effects_same[of st1 ds is_player "sk_apply_effect sk" 0 g] e by simp
  have c: "same_setup st2 st3"
    using on_hit_proc_same[of st2 ds g2] h by (auto simp: same_setup_refl split: if_splits)
  have dd: "same_setup st3 (lifesteal_heal ds is_player td ls st3)"
    by (rule lifesteal_heal_same)
  have "fst (resolve_skill ds st is_player skill_id sk g) = lifesteal_heal ds is_player td ls st3"
    using d e h by (simp add: resolve_skill_def)
  with same_setup_trans[OF a same_setup_trans[OF b same_setup_trans[OF c dd]]]
  show ?thesis by simp
qed

lemma finish_same: "same_setup st (fst (snd (finish ds st w g)))"
  by (simp add: finish_def Let_def same_setup_def same_actor_def clear_all_battle_effects_def
        split: option.splits prod.splits)

lemma use_skill_same: "same_setup st (fst (snd (use_skill ds st is_player skill_id g)))"
proof (cases "lookup_skill ds skill_id")
  case None
  then show ?thesis by (simp add: use_skill_def same_setup_logs)
next
  case (Some sk)
  obtain st1 g1 where r: "resolve_skill ds st is_player skill_id sk g = (st1, g1)"
    by (cases "resolve_skill ds st is_player skill_id sk g")
  have a: "same_setup st st1" using resolve_skill_same[of st ds is_player skill_id sk g] r by simp
  have b: "same_setup st1 (fst (snd (finish ds st1 w g1)))" for w by (rule finish_same)
  show ?thesis
    using Some r a same_setup_trans[OF a b]
    by (simp add: use_skill_def Let_def case_prod_beta)
qed

lemma tick_same_actor: "same_actor a (fst (tick_end_of_turn a lg))"
  by (simp add: tick_end_of_turn_def same_actor_def split: prod.splits)

lemma end_of_turn_same: "same_setup st (fst (snd (end_of_turn ds st g)))"
proof -
  obtain p lg1 where t1: "tick_end_of_turn (player st) (logs st) = (p, lg1)"
    by (cases "tick_end_of_turn (player st) (logs st)")
  obtain e lg2 where t2: "tick_end_of_turn (enemy st) lg1 = (e, lg2)"
    by (cases "tick_end_of_turn (enemy st) lg1")
  let ?st1 = "st\<lparr>player := p, enemy := e, logs := lg2\<rparr>"
  have "same_actor (player st) p" using tick_same_actor[of "player st" "logs st"] t1 by simp
  moreover have "same_actor (enemy st) e" using tick_same_actor[of "enemy st" lg1] t2 by simp
  ultimately have a: "same_setup st ?st1" by (simp add: same_setup_def)
  have b: "same_setup ?st1 (fst (snd (finish ds ?st1 w g)))" for w by (rule finish_same)
  show ?thesis
    using t1 t2 a same_setup_trans[OF a b]
    by (simp add: end_of_turn_def Let_def case_prod_beta)
qed


section \<open>When a battle ends\<close>

lemma can_act_free: "\<not> has_effect a ''stun'' \<Longrightarrow> can_act a lg = (True, lg)"
  by (simp add: can_act_def)

lemma can_act_stunned:
  "has_effect a ''stun'' \<Longrightarrow> can_act a lg = (False, lg @ [LogCannotAct (name a)])"
  by (simp add: can_act_def)

lemma finish_winner: "winner (fst (finish ds st w g)) = w"
  by (simp add: finish_def Let_def split: option.splits prod.splits)

lemma same_setup_turn:
  "same_setup st st' \<Longrightarrow> turn st' = turn st \<and> turn_index st' = turn_index st"
  by (simp add: same_setup_def)

lemma use_skill_result:
  "use_skill ds st is_player skill_id g = (Some r, st', g') \<Longrightarrow>
   winner r = (if is_player then ''player'' else ''enemy'')"
  using finish_winner
  by (auto simp: use_skill_def Let_def case_prod_beta split: option.splits if_splits)

lemma use_skill_none:
  "use_skill ds st is_player skill_id g = (None, st', g') \<Longrightarrow>
   lookup_skill ds skill_id \<noteq> None \<Longrightarrow> 0 < side_hp st' (\<not> is_player)"
  by (auto simp: use_skill_def Let_def case_prod_beta split: option.splits if_splits)

lemma player_kill:
  assumes free: "\<not> has_effect (player st) ''stun''"
    and sk: "lookup_skill ds skill_id = Some sk"
    and dead: "hp (enemy (fst (resolve_skill ds st True skill_id sk g))) \<le> 0"
  shows "player_use_skill ds st skill_id g =
           (let (st1, g1) = resolve_skill ds st True skill_id sk g;
                (r, st2, g2) = finish ds st1 ''player'' g1
            in (Some r, st2, g2))"
  using sk dead
  by (simp add: player_use_skill_def can_act_free[OF free] use_skill_def side_hp_def Let_def
        case_prod_beta)

text \<open>The skill use of an enemy that can act, after its gimmicks.\<close>

lemma enemy_action_free:
  assumes "\<not> has_effect (enemy st) ''stun''"
  shows "enemy_action ds st g =
     (let sg = (if ai (enemy st) = ''boss'' then handle_gimmicks ds st g else (st, g));
          pool = (if skills (enemy (fst sg)) \<noteq> [] then skills (enemy (fst sg))
                  else [''__basic__'']);
          cg = rng_choice pool (snd sg);
          u = use_skill ds (fst sg) False (fst cg) (snd cg)
      in case fst u of
           Some r \<Rightarrow> u
         | None \<Rightarrow>
             if hp (player (fst (snd u))) \<le> 0
             then (Some (fst (finish ds (fst (snd u)) ''enemy'' (snd (snd u)))),
                   snd (finish ds (fst (snd u)) ''enemy'' (snd (snd u))))
             else u)"
proof -
  have st0: "st\<lparr>logs := logs st\<rparr> = st" by simp
  have tc: "(case fst u of
               None \<Rightarrow> if c then X else (None, snd u)
             | Some r \<Rightarrow> (Some r, snd u))
            = (case fst u of Some r \<Rightarrow> u | None \<Rightarrow> if c then X else u)"
    for u :: "BattleResult option \<times> BattleState \<times> rng" and c X
    by (cases u) (auto split: option.splits)
  show ?thesis
    unfolding enemy_action_def can_act_free[OF assms]
    by (simp only: Let_def prod.case st0 not_True_eq_False if_False case_prod_beta tc
          fst_conv snd_conv prod.collapse)
qed

lemma enemy_action_cases:
  "enemy_action ds st g = (res, st1, g1) \<Longrightarrow>
   (case res of
      Some r \<Rightarrow> winner r = ''enemy'' \<and> after_player_action ds st g = (Some r, st1, g1)
    | None \<Rightarrow> has_effect (enemy st) ''stun'' \<or> 0 < hp (player st1))"
proof (cases "has_effect (enemy st) ''stun''")
  case True
  assume "enemy_action ds st g = (res, st1, g1)"
  with True have "res = None" by (simp add: enemy_action_def can_act_stunned)
  with True show ?thesis by simp
next
  case False
  assume run: "enemy_action ds st g = (res, st1, g1)"
  define sg where "sg = (if ai (enemy st) = ''boss'' then handle_gimmicks ds st g else (st, g))"
  define pool where "pool = (if skills (enemy (fst sg)) \<noteq> [] then skills (enemy (fst sg))
                             else [''__basic__''])"
  define cg where "cg = rng_choice pool (snd sg)"
  define u where "u = use_skill ds (fst sg) False (fst cg) (snd cg)"
  have unfold: "enemy_action ds st g =
      (case fst u of
           Some r \<Rightarrow> u
         | None \<Rightarrow>
             if hp (player (fst (snd u))) \<le> 0
             then (Some (fst (finish ds (fst (snd u)) ''enemy'' (snd (snd u)))),
                   snd (finish ds (fst (snd u)) ''enemy'' (snd (snd u))))
             else u)"
    unfolding enemy_action_free[OF False] Let_def u_def cg_def pool_def sg_def ..
  show ?thesis
  proof (cases res)
    case None
    with run unfold have "0 < hp (player st1)"
      by (auto split: option.splits if_splits)
    with None show ?thesis by simp
  next
    case (Some r)
    have w: "winner r = ''enemy''"
    proof (cases "fst u")
      case None
      with run unfold Some have "r = fst (finish ds (fst (snd u)) ''enemy'' (snd (snd u)))"
        by (auto split: if_splits)
      then show ?thesis by (simp add: finish_winner)
    next
      case (Some r')
      with run unfold \<open>res = Some r\<close> have "u = (Some r, st1, g1)" by simp
      then have "use_skill ds (fst sg) False (fst cg) (snd cg) = (Some r, st1, g1)"
        by (simp add: u_def)
      from use_skill_result[OF this] show ?thesis by simp
    qed
    from run Some have "after_player_action ds st g = (Some r, st1, g1)"
      by (simp add: after_player_action_def)
    with w Some show ?thesis by simp
  qed
qed

lemma end_of_turn_unfold:
  "end_of_turn ds st g =
     (let p = fst (tick_end_of_turn (player st) (logs st));
          lg1 = snd (tick_end_of_turn (player st) (logs st));
          e = fst (tick_end_of_turn (enemy st) lg1);
          lg2 = snd (tick_end_of_turn (enemy st) lg1);
          st1 = st\<lparr>player := p, enemy := e, logs := lg2\<rparr>
      in if hp p \<le> 0 then
           (Some (fst (finish ds st1 ''enemy'' g)), snd (finish ds st1 ''enemy'' g))
         else if hp e \<le> 0 then
           (Some (fst (finish ds st1 ''player'' g)), snd (finish ds st1 ''player'' g))
         else (None, st1, g))"
  by (simp add: end_of_turn_def Let_def case_prod_beta is_dead_def)

lemma end_of_turn_none:
  "end_of_turn ds st g = (None, st', g') \<Longrightarrow> 0 < hp (player st') \<and> 0 < hp (enemy st')"
  by (auto simp: end_of_turn_unfold Let_def split: if_splits)

lemma after_player_action_none:
  "after_player_action ds st g = (None, st', g') \<Longrightarrow>
   0 < hp (player st') \<and> 0 < hp (enemy st')"
proof -
  assume run: "after_player_action ds st g = (None, st', g')"
  obtain res st1 g1 where ea: "enemy_action ds st g = (res, st1, g1)"
    by (cases "enemy_action ds st g")
  obtain er st2 g2 where et: "end_of_turn ds st1 g1 = (er, st2, g2)"
    by (cases "end_of_turn ds st1 g1")
  from run ea et have "res = None" "er = None"
    "st' = st2\<lparr>turn := turn st2 + 1, turn_index := turn_index st2 + 1\<rparr>"
    by (auto simp: after_player_action_def split: option.splits)
  with et end_of_turn_none[of ds st1 g1 st2 g2] show ?thesis by simp
qed

lemma player_turn_none:
  "player_turn ds inp st g = (None, st', g') \<Longrightarrow>
   0 < hp (player st') \<and> 0 < hp (enemy st')"
proof (cases inp)
  case (UseSkill skill_id)
  assume run: "player_turn ds inp st g = (None, st', g')"
  with UseSkill have r: "player_use_skill ds st skill_id g = (None, st', g')" by simp
  obtain ok lg where ca: "can_act (player st) (logs st) = (ok, lg)"
    by (cases "can_act (player st) (logs st)")
  show ?thesis
  proof (cases ok)
    case False
    with r ca have "after_player_action ds (st\<lparr>logs := lg\<rparr>) g = (None, st', g')"
      by (simp add: player_use_skill_def)
    then show ?thesis by (rule after_player_action_none)
  next
    case True
    obtain ur st1 g1 where us: "use_skill ds (st\<lparr>logs := lg\<rparr>) True skill_id g = (ur, st1, g1)"
      by (cases "use_skill ds (st\<lparr>logs := lg\<rparr>) True skill_id g")
    from r ca True us have "after_player_action ds st1 g1 = (None, st', g')"
      by (auto simp: player_use_skill_def Let_def case_prod_beta split: option.splits if_splits)
    then show ?thesis by (rule after_player_action_none)
  qed
next
  case (UseItem item_id)
  assume run: "player_turn ds inp st g = (None, st', g')"
  with UseItem have r: "player_use_item ds st item_id g = (None, st', g')" by simp
  then obtain sta ga where "after_player_action ds sta ga = (None, st', g')"
    by (auto simp: player_use_item_def Let_def case_prod_beta split: if_splits)
  then show ?thesis by (rule after_player_action_none)
qed

lemma end_of_turn_order:
  "(let p = fst (tick_end_of_turn (player st) (logs st));
        e = fst (tick_end_of_turn (enemy st) (snd (tick_end_of_turn (player st) (logs st))))
    in (hp p \<le> 0 \<longrightarrow> (\<exists>r. fst (end_of_turn ds st g) = Some r \<and> winner r = ''enemy'')) \<and>
       (0 < hp p \<and> hp e \<le> 0 \<longrightarrow>
          (\<exists>r. fst (end_of_turn ds st g) = Some r \<and> winner r = ''player'')) \<and>
       (0 < hp p \<and> 0 < hp e \<longrightarrow> fst (end_of_turn ds st g) = None))"
  by (simp add: end_of_turn_unfold Let_def finish_winner)

text \<open>
  C6. If the enemy's hp is 0 (or less) when the player's skill has been resolved, the
  entry point returns at once the result of \<open>_finish\<close> on that state with the winner
  "player": no enemy action and no end-of-turn tick run, and the turn counters are not
  advanced. If the enemy's action ends the battle, the turn ends there as well, with
  the winner "enemy". At the end of a turn both actors are ticked, then the player's hp
  is looked at first: with the player at 0 the winner is "enemy", also when the enemy
  is at 0 too; with only the enemy at 0 the winner is "player". An entry point that
  returns no result leaves both actors with positive hp.
\<close>

theorem battle_ends_at_zero_hp:
  "(\<not> has_effect (player st) ''stun'' \<and> lookup_skill ds skill_id = Some sk \<and>
    hp (enemy (fst (resolve_skill ds st True skill_id sk g))) \<le> 0 \<longrightarrow>
      (let st1 = fst (resolve_skill ds st True skill_id sk g);
           g1 = snd (resolve_skill ds st True skill_id sk g);
           r = fst (finish ds st1 ''player'' g1);
           st2 = fst (snd (finish ds st1 ''player'' g1))
       in player_use_skill ds st skill_id g = (Some r, snd (finish ds st1 ''player'' g1)) \<and>
          winner r = ''player'' \<and> turn st2 = turn st \<and> turn_index st2 = turn_index st)) \<and>
   (\<forall>r st1 g1. enemy_action ds st g = (Some r, st1, g1) \<longrightarrow>
      winner r = ''enemy'' \<and> after_player_action ds st g = (Some r, st1, g1)) \<and>
   (let p = fst (tick_end_of_turn (player st) (logs st));
        e = fst (tick_end_of_turn (enemy st) (snd (tick_end_of_turn (player st) (logs st))))
    in (hp p \<le> 0 \<longrightarrow> (\<exists>r. fst (end_of_turn ds st g) = Some r \<and> winner r = ''enemy'')) \<and>
       (0 < hp p \<and> hp e \<le> 0 \<longrightarrow>
          (\<exists>r. fst (end_of_turn ds st g) = Some r \<and> winner r = ''player'')) \<and>
       (0 < hp p \<and> 0 < hp e \<longrightarrow> fst (end_of_turn ds st g) = None)) \<and>
   (\<forall>st' g'. player_turn ds inp st g = (None, st', g') \<longrightarrow>
      0 < hp (player st') \<and> 0 < hp (enemy st'))"
proof -
  have a: "\<not> has_effect (player st) ''stun'' \<and> lookup_skill ds skill_id = Some sk \<and>
    hp (enemy (fst (resolve_skill ds st True skill_id sk g))) \<le> 0 \<longrightarrow>
      (let st1 = fst (resolve_skill ds st True skill_id sk g);
           g1 = snd (resolve_skill ds st True skill_id sk g);
           r = fst (finish ds st1 ''player'' g1);
           st2 = fst (snd (finish ds st1 ''player'' g1))
       in player_use_skill ds st skill_id g = (Some r, snd (finish ds st1 ''player'' g1)) \<and>
          winner r = ''player'' \<and> turn st2 = turn st \<and> turn_index st2 = turn_index st)"
  proof
    assume h: "\<not> has_effect (player st) ''stun'' \<and> lookup_skill ds skill_id = Some sk \<and>
      hp (enemy (fst (resolve_skill ds st True skill_id sk g))) \<le> 0"
    let ?st1 = "fst (resolve_skill ds st True skill_id sk g)"
    let ?g1 = "snd (resolve_skill ds st True skill_id sk g)"
    from h have run: "player_use_skill ds st skill_id g =
        (Some (fst (finish ds ?st1 ''player'' ?g1)), snd (finish ds ?st1 ''player'' ?g1))"
      using player_kill[of st ds skill_id sk g] by (simp add: Let_def case_prod_beta)
    have "same_setup st (fst (snd (finish ds ?st1 ''player'' ?g1)))"
      using same_setup_trans[OF resolve_skill_same finish_same] .
    then have "turn (fst (snd (finish ds ?st1 ''player'' ?g1))) = turn st \<and>
               turn_index (fst (snd (finish ds ?st1 ''player'' ?g1))) = turn_index st"
      by (rule same_setup_turn)
    with run show "let st1 = ?st1; g1 = ?g1; r = fst (finish ds st1 ''player'' g1);
           st2 = fst (snd (finish ds st1 ''player'' g1))
       in player_use_skill ds st skill_id g = (Some r, snd (finish ds st1 ''player'' g1)) \<and>
          winner r = ''player'' \<and> turn st2 = turn st \<and> turn_index st2 = turn_index st"
      by (simp add: Let_def finish_winner)
  qed
  have b: "\<forall>r st1 g1. enemy_action ds st g = (Some r, st1, g1) \<longrightarrow>
      winner r = ''enemy'' \<and> after_player_action ds st g = (Some r, st1, g1)"
    using enemy_action_cases[of ds st g] by fastforce
  have d: "\<forall>st' g'. player_turn ds inp st g = (None, st', g') \<longrightarrow>
      0 < hp (player st') \<and> 0 < hp (enemy st')"
    using player_turn_none[of ds inp st g] by blast
  from a b end_of_turn_order[of st ds g] d show ?thesis by blast
qed

theorem battle_ends_at_zero_hp_witness:
  "(\<exists>r. fst (end_of_turn demo_ds both_bleeding (sconst 0)) = Some r \<and> winner r = ''enemy'') \<and>
   (\<exists>r st2. player_use_skill demo_ds weak_enemy_state ''__basic__'' (sconst 0) = (Some r, st2) \<and>
      winner r = ''player'' \<and> turn (fst st2) = 1)"
proof -
  note t1 = battle_ends_at_zero_hp[of both_bleeding demo_ds "''__basic__''" basic_skill
              "sconst 0" "UseSkill ''__basic__''"]
  note t2 = battle_ends_at_zero_hp[of weak_enemy_state demo_ds "''__basic__''" basic_skill
              "sconst 0" "UseSkill ''__basic__''"]
  have tick: "hp (fst (tick_end_of_turn (player both_bleeding) (logs both_bleeding))) \<le> 0"
    by (simp add: tick_end_of_turn_def both_bleeding_def bleed_effect_def Let_def)
  from t1 tick have e: "\<exists>r. fst (end_of_turn demo_ds both_bleeding (sconst 0)) = Some r \<and>
      winner r = ''enemy''"
    unfolding Let_def by blast
  have free: "\<not> has_effect (player weak_enemy_state) ''stun''"
    by (simp add: has_effect_def weak_enemy_state_def demo_state_def start_battle_def
          demo_player_def)
  have sk: "lookup_skill demo_ds ''__basic__'' = Some basic_skill"
    by (simp add: lookup_skill_def demo_ds_def)
  have A: "side_stats demo_ds weak_enemy_state True =
             \<lparr>attack = 20, magic = 5, defense = 5, magic_resist = 5, max_hp = 100\<rparr>"
    by (simp add: side_stats_def weak_enemy_state_def demo_state_def start_battle_def
          demo_player_def demo_stats_def
          total_stats_def equip_bonus_def equip_multipliers_def resolve_item_def
          init_multipliers_def dict_add_all_def effect_bonus_def with_bonus_def dict_get_def
          py_int_def demo_ds_def Let_def)
  have D: "side_stats demo_ds weak_enemy_state False =
             \<lparr>attack = 8, magic = 0, defense = 5, magic_resist = 0, max_hp = 30\<rparr>"
    by (simp add: side_stats_def weak_enemy_state_def demo_state_def start_battle_def
          demo_enemy_def get_total_stats_def effect_bonus_def with_bonus_def dict_get_def)
  have hp0: "hp (enemy weak_enemy_state) = 10"
    by (simp add: weak_enemy_state_def)
  have dd: "deal_damage demo_ds weak_enemy_state True ''__basic__'' basic_skill =
        (13, weak_enemy_state\<lparr>enemy := (enemy weak_enemy_state)\<lparr>hp := 0\<rparr>,
               logs := logs weak_enemy_state @
                 [LogPlayerUses ''basic attack'', LogDamageToEnemy 13 0, LogEnemyHp 0 30]\<rparr>)"
    by (simp add: deal_damage_def A D skill_damage_eq basic_physical_simps basic_magic
          Let_def apply_damage_def hp0 basic_skill_def)
  have acc: "dict_get (equipment (player weak_enemy_state)) ''accessory'' None = None"
    by (simp add: weak_enemy_state_def demo_state_def start_battle_def demo_player_def
          dict_get_def)
  have dead: "hp (enemy (fst (resolve_skill demo_ds weak_enemy_state True ''__basic__''
                                basic_skill (sconst 0)))) \<le> 0"
  proof -
    have eff: "sk_apply_effect basic_skill = []" by (simp add: basic_skill_def)
    show ?thesis
      by (simp add: resolve_skill_def dd eff on_hit_proc_def acc lifesteal_heal_def Let_def)
  qed
  from t2 free sk dead have
    "let st1 = fst (resolve_skill demo_ds weak_enemy_state True ''__basic__'' basic_skill (sconst 0));
         g1 = snd (resolve_skill demo_ds weak_enemy_state True ''__basic__'' basic_skill (sconst 0));
         r = fst (finish demo_ds st1 ''player'' g1);
         st2 = fst (snd (finish demo_ds st1 ''player'' g1))
     in player_use_skill demo_ds weak_enemy_state ''__basic__'' (sconst 0) =
          (Some r, snd (finish demo_ds st1 ''player'' g1)) \<and>
        winner r = ''player'' \<and> turn st2 = turn weak_enemy_state \<and>
        turn_index st2 = turn_index weak_enemy_state"
    by blast
  moreover have "turn weak_enemy_state = 1"
    by (simp add: weak_enemy_state_def demo_state_def start_battle_def)
  ultimately have "\<exists>r st2. player_use_skill demo_ds weak_enemy_state ''__basic__'' (sconst 0)
        = (Some r, st2) \<and> winner r = ''player'' \<and> turn (fst st2) = 1"
    unfolding Let_def by metis
  with e show ?thesis by blast
qed


section \<open>Boss gimmicks\<close>

lemma same_setup_frame: "same_setup st st' \<Longrightarrow> same_frame st st'"
  by (simp add: same_setup_def same_frame_def)

lemma same_frame_refl: "same_frame st st"
  by (simp add: same_frame_def same_actor_refl)

lemma same_frame_trans: "same_frame a b \<Longrightarrow> same_frame b c \<Longrightarrow> same_frame a c"
  unfolding same_frame_def by (metis same_actor_trans)

lemma same_actor_enemy:
  fixes e :: Enemy
  shows "same_actor e f \<Longrightarrow> gimmicks f = gimmicks e \<and> ai f = ai e \<and> skills f = skills e"
  by (cases e, cases f) (simp add: same_actor_def)

lemma same_actor_player:
  fixes p :: Player
  shows "same_actor p q \<Longrightarrow> inventory q = inventory p \<and> equipment q = equipment p \<and>
         stat_points q = stat_points p \<and> allocated_stats q = allocated_stats p"
  by (cases p, cases q) (simp add: same_actor_def)

lemma gimmick_act_same: "same_setup st (fst (gimmick_act ds gm st g))"
  by (simp add: gimmick_act_def same_setup_refl apply_effect_on_same Let_def
        split: option.splits)

text \<open>The state in which the loop goes on after a gimmick has fired at position \<open>i\<close>.\<close>

lemma gimmick_loop_step:
  "gimmick_loop ds i (Some gm # rest) st g =
     (if (g_once gm \<and> used st i) \<or> \<not> should_fire st gm
      then gimmick_loop ds (Suc i) rest st g
      else gimmick_loop ds (Suc i) rest
             ((fst (gimmick_act ds gm st g))
                \<lparr>gimmick_used := (if g_once gm
                                   then AList.update i True
                                          (gimmick_used (fst (gimmick_act ds gm st g)))
                                   else gimmick_used (fst (gimmick_act ds gm st g))),
                 fired := fired (fst (gimmick_act ds gm st g))
                          @ [(turn_index (fst (gimmick_act ds gm st g)), i)]\<rparr>)
             (snd (gimmick_act ds gm st g)))"
  by (simp add: used_def Let_def case_prod_beta)

lemma fired_state:
  assumes "st3 = (fst (gimmick_act ds gm st g))
                \<lparr>gimmick_used := (if g_once gm
                                   then AList.update i True
                                          (gimmick_used (fst (gimmick_act ds gm st g)))
                                   else gimmick_used (fst (gimmick_act ds gm st g))),
                 fired := fired (fst (gimmick_act ds gm st g))
                          @ [(turn_index (fst (gimmick_act ds gm st g)), i)]\<rparr>"
  shows "same_frame st st3"
    and "fired st3 = fired st @ [(turn_index st, i)]"
    and "used st3 k = (used st k \<or> (g_once gm \<and> k = i))"
proof -
  have s: "same_setup st (fst (gimmick_act ds gm st g))" by (rule gimmick_act_same)
  then show "same_frame st st3"
    by (simp add: assms same_setup_def same_frame_def)
  from s show "fired st3 = fired st @ [(turn_index st, i)]"
    by (simp add: assms same_setup_def)
  from s show "used st3 k = (used st k \<or> (g_once gm \<and> k = i))"
    by (auto simp: assms same_setup_def used_def dict_get_update)
qed

lemma gimmick_loop_frame: "same_frame st (fst (gimmick_loop ds i gs st g))"
proof (induction gs arbitrary: i st g)
  case Nil
  show ?case by (simp add: same_frame_refl)
next
  case (Cons x gs)
  show ?case
  proof (cases x)
    case None
    with Cons.IH show ?thesis by simp
  next
    case (Some gm)
    define st3 where "st3 = (fst (gimmick_act ds gm st g))
                \<lparr>gimmick_used := (if g_once gm
                                   then AList.update i True
                                          (gimmick_used (fst (gimmick_act ds gm st g)))
                                   else gimmick_used (fst (gimmick_act ds gm st g))),
                 fired := fired (fst (gimmick_act ds gm st g))
                          @ [(turn_index (fst (gimmick_act ds gm st g)), i)]\<rparr>"
    note f = fired_state[OF st3_def]
    show ?thesis
    proof (cases "(g_once gm \<and> used st i) \<or> \<not> should_fire st gm")
      case True
      with Some Cons.IH[of st "Suc i" g] show ?thesis
        by (simp only: gimmick_loop_step if_True)
    next
      case False
      have "same_frame st3 (fst (gimmick_loop ds (Suc i) gs st3 (snd (gimmick_act ds gm st g))))"
        by (rule Cons.IH)
      with f(1) have "same_frame st (fst (gimmick_loop ds (Suc i) gs st3 (snd (gimmick_act ds gm st g))))"
        by (rule same_frame_trans)
      with Some False show ?thesis
        by (simp only: gimmick_loop_step if_False st3_def)
    qed
  qed
qed

text \<open>A once-gimmick keeps its invariant through the loop.\<close>

lemma once_inv_other:
  assumes "once_inv idx st" "i \<noteq> idx" "fired st' = fired st @ [(t, i)]"
    "used st' idx = used st idx"
  shows "once_inv idx st'"
  using assms by (auto simp: once_inv_def split: if_splits)

lemma once_inv_fire:
  assumes "once_inv idx st" "\<not> used st idx" "fired st' = fired st @ [(t, idx)]" "used st' idx"
  shows "once_inv idx st'"
proof -
  from assms(1,2) have "idx \<notin> snd ` set (fired st)"
    by (auto simp: once_inv_def split: if_splits)
  then have "count_list (map snd (fired st)) idx = 0"
    by (simp add: count_list_0_iff)
  with assms(3,4) show ?thesis by (simp add: once_inv_def)
qed

lemma gimmick_loop_once:
  assumes "g_once gm"
  shows "\<forall>j<length gs. i + j = idx \<longrightarrow> gs ! j = Some gm \<Longrightarrow> once_inv idx st \<Longrightarrow>
         once_inv idx (fst (gimmick_loop ds i gs st g))"
proof (induction gs arbitrary: i st g)
  case Nil
  then show ?case by simp
next
  case (Cons x gs)
  have rest: "\<forall>j<length gs. Suc i + j = idx \<longrightarrow> gs ! j = Some gm"
  proof (intro allI impI)
    fix j assume "j < length gs" "Suc i + j = idx"
    then have "Suc j < length (x # gs)" "i + Suc j = idx" by simp_all
    with Cons.prems(1) have "(x # gs) ! Suc j = Some gm" by blast
    then show "gs ! j = Some gm" by simp
  qed
  show ?case
  proof (cases x)
    case None
    with Cons.IH[OF rest Cons.prems(2)] show ?thesis by simp
  next
    case (Some gm0)
    define st3 where "st3 = (fst (gimmick_act ds gm0 st g))
                \<lparr>gimmick_used := (if g_once gm0
                                   then AList.update i True
                                          (gimmick_used (fst (gimmick_act ds gm0 st g)))
                                   else gimmick_used (fst (gimmick_act ds gm0 st g))),
                 fired := fired (fst (gimmick_act ds gm0 st g))
                          @ [(turn_index (fst (gimmick_act ds gm0 st g)), i)]\<rparr>"
    note f = fired_state[OF st3_def]
    show ?thesis
    proof (cases "(g_once gm0 \<and> used st i) \<or> \<not> should_fire st gm0")
      case True
      with Some Cons.IH[OF rest Cons.prems(2), of g] show ?thesis
        by (simp only: gimmick_loop_step if_True)
    next
      case False
      have inv3: "once_inv idx st3"
      proof (cases "i = idx")
        case True
        with Cons.prems(1) Some have "gm0 = gm" by auto
        with False True assms have nu: "\<not> used st idx" by simp
        have "used st3 idx" using f(3)[of idx] True \<open>gm0 = gm\<close> assms by simp
        with Cons.prems(2) nu f(2) True show ?thesis
          by (intro once_inv_fire[of idx st st3 "turn_index st"]) simp_all
      next
        case False
        have "used st3 idx = used st idx" using f(3)[of idx] False by auto
        with Cons.prems(2) False f(2) show ?thesis
          by (intro once_inv_other[of idx st i st3 "turn_index st"]) simp_all
      qed
      have "once_inv idx (fst (gimmick_loop ds (Suc i) gs st3 (snd (gimmick_act ds gm0 st g))))"
        by (rule Cons.IH[OF rest inv3])
      with Some False show ?thesis
        by (simp only: gimmick_loop_step if_False st3_def)
    qed
  qed
qed

text \<open>
  What every step of the engine preserves: a property of states that survives the
  operations that change only hp, effects and log (\<open>same_setup\<close>), one evaluation of
  the gimmicks, the advance of the turn counters, and a change of the player.
\<close>

lemma enemy_action_preserves:
  assumes fr: "\<And>a b. same_setup a b \<Longrightarrow> Q a \<Longrightarrow> Q b"
    and gim: "\<And>a g. Q a \<Longrightarrow> Q (fst (handle_gimmicks ds a g))"
    and q: "Q st"
  shows "Q (fst (snd (enemy_action ds st g)))"
proof (cases "has_effect (enemy st) ''stun''")
  case True
  then have "fst (snd (enemy_action ds st g)) = st\<lparr>logs := logs st @ [LogCannotAct (name (enemy st))]\<rparr>"
    by (simp add: enemy_action_def can_act_stunned)
  with fr[OF same_setup_logs q] show ?thesis by simp
next
  case False
  define sg where "sg = (if ai (enemy st) = ''boss'' then handle_gimmicks ds st g else (st, g))"
  define pool where "pool = (if skills (enemy (fst sg)) \<noteq> [] then skills (enemy (fst sg))
                             else [''__basic__''])"
  define cg where "cg = rng_choice pool (snd sg)"
  define u where "u = use_skill ds (fst sg) False (fst cg) (snd cg)"
  have unfold: "enemy_action ds st g =
      (case fst u of
           Some r \<Rightarrow> u
         | None \<Rightarrow>
             if hp (player (fst (snd u))) \<le> 0
             then (Some (fst (finish ds (fst (snd u)) ''enemy'' (snd (snd u)))),
                   snd (finish ds (fst (snd u)) ''enemy'' (snd (snd u))))
             else u)"
    unfolding enemy_action_free[OF False] Let_def u_def cg_def pool_def sg_def ..
  have q1: "Q (fst sg)" using q gim[OF q, of g] by (simp add: sg_def)
  have q2: "Q (fst (snd u))"
    unfolding u_def by (rule fr[OF use_skill_same q1])
  have q3: "Q (fst (snd (finish ds (fst (snd u)) ''enemy'' (snd (snd u)))))"
    by (rule fr[OF finish_same q2])
  from q2 q3 show ?thesis
    unfolding unfold by (simp split: option.splits)
qed

lemma end_of_turn_preserves:
  assumes fr: "\<And>a b. same_setup a b \<Longrightarrow> Q a \<Longrightarrow> Q b" and q: "Q st"
  shows "Q (fst (snd (end_of_turn ds st g)))"
  by (rule fr[OF end_of_turn_same q])

lemma after_player_action_preserves:
  assumes fr: "\<And>a b. same_setup a b \<Longrightarrow> Q a \<Longrightarrow> Q b"
    and gim: "\<And>a g. Q a \<Longrightarrow> Q (fst (handle_gimmicks ds a g))"
    and tick: "\<And>a t ti. Q a \<Longrightarrow> Q (a\<lparr>turn := t, turn_index := ti\<rparr>)"
    and q: "Q st"
  shows "Q (fst (snd (after_player_action ds st g)))"
proof -
  let ?ea = "enemy_action ds st g"
  have q1: "Q (fst (snd ?ea))"
    by (rule enemy_action_preserves[where Q=Q]; fact)
  let ?et = "end_of_turn ds (fst (snd ?ea)) (snd (snd ?ea))"
  have q2: "Q (fst (snd ?et))"
    by (rule end_of_turn_preserves[where Q=Q]; fact)
  have q3: "Q ((fst (snd ?et))\<lparr>turn := turn (fst (snd ?et)) + 1,
                               turn_index := turn_index (fst (snd ?et)) + 1\<rparr>)"
    by (rule tick[OF q2])
  from q1 q3 show ?thesis
    by (simp add: after_player_action_def case_prod_beta split: option.splits)
qed

lemma player_use_skill_preserves:
  assumes fr: "\<And>a b. same_setup a b \<Longrightarrow> Q a \<Longrightarrow> Q b"
    and gim: "\<And>a g. Q a \<Longrightarrow> Q (fst (handle_gimmicks ds a g))"
    and tick: "\<And>a t ti. Q a \<Longrightarrow> Q (a\<lparr>turn := t, turn_index := ti\<rparr>)"
    and q: "Q st"
  shows "Q (fst (snd (player_use_skill ds st skill_id g)))"
proof -
  have apa: "Q (fst (snd (after_player_action ds s g')))" if "Q s" for s g'
    by (rule after_player_action_preserves[where Q=Q]; fact)
  let ?st0 = "st\<lparr>logs := snd (can_act (player st) (logs st))\<rparr>"
  have q0: "Q ?st0" by (rule fr[OF same_setup_logs q])
  let ?u = "use_skill ds ?st0 True skill_id g"
  have q1: "Q (fst (snd ?u))" by (rule fr[OF use_skill_same q0])
  have q2: "Q (fst (snd (finish ds (fst (snd ?u)) ''player'' (snd (snd ?u)))))"
    by (rule fr[OF finish_same q1])
  from apa[OF q0] apa[OF q1] q1 q2 show ?thesis
    by (simp add: player_use_skill_def Let_def case_prod_beta split: option.splits)
qed

lemma player_use_item_preserves:
  assumes fr: "\<And>a b. same_setup a b \<Longrightarrow> Q a \<Longrightarrow> Q b"
    and gim: "\<And>a g. Q a \<Longrightarrow> Q (fst (handle_gimmicks ds a g))"
    and tick: "\<And>a t ti. Q a \<Longrightarrow> Q (a\<lparr>turn := t, turn_index := ti\<rparr>)"
    and pl: "\<And>a p lg. Q a \<Longrightarrow> Q (a\<lparr>player := p, logs := lg\<rparr>)"
    and q: "Q st"
  shows "Q (fst (snd (player_use_item ds st item_id g)))"
proof -
  have apa: "Q (fst (snd (after_player_action ds s g')))" if "Q s" for s g'
    by (rule after_player_action_preserves[where Q=Q]; fact)
  let ?st0 = "st\<lparr>logs := snd (can_act (player st) (logs st))\<rparr>"
  have q0: "Q ?st0" by (rule fr[OF same_setup_logs q])
  have q1: "Q (?st0\<lparr>logs := logs ?st0 @ [LogNoItem]\<rparr>)"
    by (rule fr[OF same_setup_logs q0])
  have q2: "Q (?st0\<lparr>player := p, logs := lg\<rparr>)" for p lg by (rule pl[OF q0])
  from apa[OF q0] apa[OF q1] apa[OF q2] show ?thesis
    by (simp add: player_use_item_def Let_def case_prod_beta)
qed

lemma run_battle_preserves:
  assumes fr: "\<And>a b. same_setup a b \<Longrightarrow> Q a \<Longrightarrow> Q b"
    and gim: "\<And>a g. Q a \<Longrightarrow> Q (fst (handle_gimmicks ds a g))"
    and tick: "\<And>a t ti. Q a \<Longrightarrow> Q (a\<lparr>turn := t, turn_index := ti\<rparr>)"
    and pl: "\<And>a p lg. Q a \<Longrightarrow> Q (a\<lparr>player := p, logs := lg\<rparr>)"
  shows "Q st \<Longrightarrow> Q (fst (snd (run_battle ds inputs st g)))"
proof (induction inputs arbitrary: st g)
  case Nil
  then show ?case by simp
next
  case (Cons inp rest)
  have step: "Q (fst (snd (player_turn ds inp st g)))"
  proof (cases inp)
    case (UseSkill skill_id)
    have "Q (fst (snd (player_use_skill ds st skill_id g)))"
      by (rule player_use_skill_preserves[where Q=Q]; fact)
    with UseSkill show ?thesis by simp
  next
    case (UseItem item_id)
    have "Q (fst (snd (player_use_item ds st item_id g)))"
      by (rule player_use_item_preserves[where Q=Q]; fact)
    with UseItem show ?thesis by simp
  qed
  obtain r st1 g1 where pt: "player_turn ds inp st g = (r, st1, g1)"
    by (cases "player_turn ds inp st g")
  with step have q1: "Q st1" by simp
  show ?case
  proof (cases r)
    case None
    with pt Cons.IH[OF q1, of g1] show ?thesis by simp
  next
    case (Some res)
    with pt q1 show ?thesis by simp
  qed
qed


lemma gimmick_loop_fired:
  "\<exists>new. fired (fst (gimmick_loop ds i gs st g)) = fired st @ new \<and>
         (\<forall>x\<in>set new. fst x = turn_index st \<and> i \<le> snd x \<and> snd x < i + length gs)"
proof (induction gs arbitrary: i st g)
  case Nil
  show ?case by simp
next
  case (Cons x gs)
  show ?case
  proof (cases x)
    case None
    from Cons.IH[of "Suc i" st g] obtain new where
      "fired (fst (gimmick_loop ds (Suc i) gs st g)) = fired st @ new"
      "\<forall>x\<in>set new. fst x = turn_index st \<and> Suc i \<le> snd x \<and> snd x < Suc i + length gs"
      by blast
    with None show ?thesis by force
  next
    case (Some gm)
    define st3 where "st3 = (fst (gimmick_act ds gm st g))
                \<lparr>gimmick_used := (if g_once gm
                                   then AList.update i True
                                          (gimmick_used (fst (gimmick_act ds gm st g)))
                                   else gimmick_used (fst (gimmick_act ds gm st g))),
                 fired := fired (fst (gimmick_act ds gm st g))
                          @ [(turn_index (fst (gimmick_act ds gm st g)), i)]\<rparr>"
    note f = fired_state[OF st3_def]
    show ?thesis
    proof (cases "(g_once gm \<and> used st i) \<or> \<not> should_fire st gm")
      case True
      from Cons.IH[of "Suc i" st g] obtain new where n:
        "fired (fst (gimmick_loop ds (Suc i) gs st g)) = fired st @ new"
        "\<forall>x\<in>set new. fst x = turn_index st \<and> Suc i \<le> snd x \<and> snd x < Suc i + length gs"
        by blast
      have "gimmick_loop ds i (x # gs) st g = gimmick_loop ds (Suc i) gs st g"
        using Some True by (simp only: gimmick_loop_step if_True)
      with n show ?thesis by force
    next
      case False
      let ?g1 = "snd (gimmick_act ds gm st g)"
      from Cons.IH[of "Suc i" st3 ?g1] obtain new where n:
        "fired (fst (gimmick_loop ds (Suc i) gs st3 ?g1)) = fired st3 @ new"
        "\<forall>x\<in>set new. fst x = turn_index st3 \<and> Suc i \<le> snd x \<and> snd x < Suc i + length gs"
        by blast
      have ti: "turn_index st3 = turn_index st" using f(1) by (simp add: same_frame_def)
      have run: "gimmick_loop ds i (x # gs) st g = gimmick_loop ds (Suc i) gs st3 ?g1"
        using Some False by (simp only: gimmick_loop_step if_False st3_def)
      have "fired (fst (gimmick_loop ds i (x # gs) st g)) = fired st @ ((turn_index st, i) # new)"
        by (simp add: run n(1) f(2))
      moreover have "\<forall>y\<in>set ((turn_index st, i) # new).
          fst y = turn_index st \<and> i \<le> snd y \<and> snd y < i + length (x # gs)"
        using n(2) ti by auto
      ultimately show ?thesis by blast
    qed
  qed
qed

lemma should_fire_every:
  "g_trigger gm = Some ''every_n_turns'' \<Longrightarrow> should_fire st gm = every_n_due gm (turn_index st)"
  by (simp add: should_fire_def every_n_due_def)

lemma gimmick_loop_every:
  assumes "\<not> g_once gm" "g_trigger gm = Some ''every_n_turns''"
  shows "j < length gs \<Longrightarrow> gs ! j = Some gm \<Longrightarrow>
     ((turn_index st, i + j) \<in> set (drop (length (fired st))
                                     (fired (fst (gimmick_loop ds i gs st g)))))
     = every_n_due gm (turn_index st)"
proof (induction gs arbitrary: i j st g)
  case Nil
  then show ?case by simp
next
  case (Cons x gs)
  show ?case
  proof (cases x)
    case None
    with Cons.prems obtain j' where j: "j = Suc j'" "j' < length gs" "gs ! j' = Some gm"
      by (cases j) auto
    from Cons.IH[OF j(2,3), of st "Suc i" g] None j(1) show ?thesis by simp
  next
    case (Some gm0)
    define st3 where "st3 = (fst (gimmick_act ds gm0 st g))
                \<lparr>gimmick_used := (if g_once gm0
                                   then AList.update i True
                                          (gimmick_used (fst (gimmick_act ds gm0 st g)))
                                   else gimmick_used (fst (gimmick_act ds gm0 st g))),
                 fired := fired (fst (gimmick_act ds gm0 st g))
                          @ [(turn_index (fst (gimmick_act ds gm0 st g)), i)]\<rparr>"
    note f = fired_state[OF st3_def]
    let ?g1 = "snd (gimmick_act ds gm0 st g)"
    have ti: "turn_index st3 = turn_index st" using f(1) by (simp add: same_frame_def)
    show ?thesis
    proof (cases "(g_once gm0 \<and> used st i) \<or> \<not> should_fire st gm0")
      case True
      have run: "gimmick_loop ds i (x # gs) st g = gimmick_loop ds (Suc i) gs st g"
        using Some True by (simp only: gimmick_loop_step if_True)
      show ?thesis
      proof (cases j)
        case 0
        with Cons.prems Some have "gm0 = gm" by simp
        with True assms have nd: "\<not> every_n_due gm (turn_index st)"
          by (simp add: should_fire_every)
        from gimmick_loop_fired[of ds "Suc i" gs st g] obtain new where
          "fired (fst (gimmick_loop ds (Suc i) gs st g)) = fired st @ new"
          "\<forall>x\<in>set new. fst x = turn_index st \<and> Suc i \<le> snd x \<and> snd x < Suc i + length gs"
          by blast
        then have "(turn_index st, i) \<notin> set (drop (length (fired st))
                      (fired (fst (gimmick_loop ds (Suc i) gs st g))))"
          by auto
        with nd 0 run show ?thesis by simp
      next
        case (Suc j')
        with Cons.prems have "j' < length gs" "gs ! j' = Some gm" by simp_all
        from Cons.IH[OF this, of st "Suc i" g] Suc run show ?thesis by simp
      qed
    next
      case False
      have run: "gimmick_loop ds i (x # gs) st g = gimmick_loop ds (Suc i) gs st3 ?g1"
        using Some False by (simp only: gimmick_loop_step if_False st3_def)
      from gimmick_loop_fired[of ds "Suc i" gs st3 ?g1] obtain new where n:
        "fired (fst (gimmick_loop ds (Suc i) gs st3 ?g1)) = fired st3 @ new"
        by blast
      have dr: "drop (length (fired st)) (fired (fst (gimmick_loop ds i (x # gs) st g)))
                = (turn_index st, i) # new"
        by (simp add: run n f(2))
      have dr3: "drop (length (fired st3)) (fired (fst (gimmick_loop ds (Suc i) gs st3 ?g1)))
                = new"
        by (simp add: n)
      show ?thesis
      proof (cases j)
        case 0
        with Cons.prems Some have "gm0 = gm" by simp
        with False assms have "every_n_due gm (turn_index st)"
          by (simp add: should_fire_every)
        with 0 dr show ?thesis by simp
      next
        case (Suc j')
        with Cons.prems have "j' < length gs" "gs ! j' = Some gm" by simp_all
        from Cons.IH[OF this, of st3 "Suc i" ?g1]
        have "((turn_index st, Suc i + j') \<in> set new) = every_n_due gm (turn_index st)"
          by (simp add: dr3 ti)
        with Suc dr show ?thesis by simp
      qed
    qed
  qed
qed


lemma once_inv_start: "once_inv idx (start_battle p e xp dt)"
  by (simp add: once_inv_def start_battle_def)

lemma once_kept:
  assumes once: "g_once gm" and at: "idx < length G" "G ! idx = Some gm"
    and q: "once_inv idx st \<and> gimmicks (enemy st) = G"
  shows "once_inv idx (fst (snd (run_battle ds inputs st g))) \<and>
         gimmicks (enemy (fst (snd (run_battle ds inputs st g)))) = G"
proof (rule run_battle_preserves[where Q="\<lambda>a. once_inv idx a \<and> gimmicks (enemy a) = G"])
  show "\<And>a b. same_setup a b \<Longrightarrow> once_inv idx a \<and> gimmicks (enemy a) = G \<Longrightarrow>
          once_inv idx b \<and> gimmicks (enemy b) = G"
  proof -
    fix a b assume s: "same_setup a b" and a: "once_inv idx a \<and> gimmicks (enemy a) = G"
    from s have "fired b = fired a" "gimmick_used b = gimmick_used a"
      by (simp_all add: same_setup_def)
    then have "once_inv idx b = once_inv idx a" by (simp add: once_inv_def used_def)
    moreover from s have "gimmicks (enemy b) = gimmicks (enemy a)"
      using same_actor_enemy[of "enemy a" "enemy b"] by (simp add: same_setup_def)
    ultimately show "once_inv idx b \<and> gimmicks (enemy b) = G" using a by simp
  qed
  show "\<And>a g. once_inv idx a \<and> gimmicks (enemy a) = G \<Longrightarrow>
          once_inv idx (fst (handle_gimmicks ds a g)) \<and>
          gimmicks (enemy (fst (handle_gimmicks ds a g))) = G"
  proof -
    fix a g assume a: "once_inv idx a \<and> gimmicks (enemy a) = G"
    have seg: "\<forall>j<length (gimmicks (enemy a)). 0 + j = idx \<longrightarrow> gimmicks (enemy a) ! j = Some gm"
      using at a by simp
    have "once_inv idx (fst (gimmick_loop ds 0 (gimmicks (enemy a)) a g))"
      using a by (intro gimmick_loop_once[OF once seg]) simp
    moreover have "same_frame a (fst (gimmick_loop ds 0 (gimmicks (enemy a)) a g))"
      by (rule gimmick_loop_frame)
    then have "gimmicks (enemy (fst (gimmick_loop ds 0 (gimmicks (enemy a)) a g))) = G"
      using a same_actor_enemy by (auto simp: same_frame_def)
    ultimately show "once_inv idx (fst (handle_gimmicks ds a g)) \<and>
          gimmicks (enemy (fst (handle_gimmicks ds a g))) = G"
      by (simp add: handle_gimmicks_def)
  qed
  show "\<And>a t ti. once_inv idx a \<and> gimmicks (enemy a) = G \<Longrightarrow>
          once_inv idx (a\<lparr>turn := t, turn_index := ti\<rparr>) \<and>
          gimmicks (enemy (a\<lparr>turn := t, turn_index := ti\<rparr>)) = G"
  proof -
    fix a t ti assume a: "once_inv idx a \<and> gimmicks (enemy a) = G"
    have "once_inv idx (a\<lparr>turn := t, turn_index := ti\<rparr>) = once_inv idx a"
      by (simp add: once_inv_def used_def)
    with a show "once_inv idx (a\<lparr>turn := t, turn_index := ti\<rparr>) \<and>
          gimmicks (enemy (a\<lparr>turn := t, turn_index := ti\<rparr>)) = G" by simp
  qed
  show "\<And>a p lg. once_inv idx a \<and> gimmicks (enemy a) = G \<Longrightarrow>
          once_inv idx (a\<lparr>player := p, logs := lg\<rparr>) \<and>
          gimmicks (enemy (a\<lparr>player := p, logs := lg\<rparr>)) = G"
  proof -
    fix a p lg assume a: "once_inv idx a \<and> gimmicks (enemy a) = G"
    have "once_inv idx (a\<lparr>player := p, logs := lg\<rparr>) = once_inv idx a"
      by (simp add: once_inv_def used_def)
    with a show "once_inv idx (a\<lparr>player := p, logs := lg\<rparr>) \<and>
          gimmicks (enemy (a\<lparr>player := p, logs := lg\<rparr>)) = G" by simp
  qed
  show "once_inv idx st \<and> gimmicks (enemy st) = G" by (rule q)
qed

text \<open>A turn that does not end the battle advances the turn index by one.\<close>

lemma enemy_action_counters:
  "turn (fst (snd (enemy_action ds st g))) = turn st \<and>
   turn_index (fst (snd (enemy_action ds st g))) = turn_index st"
proof (rule enemy_action_preserves[where Q="\<lambda>a. turn a = turn st \<and> turn_index a = turn_index st"])
  show "\<And>a b. same_setup a b \<Longrightarrow> turn a = turn st \<and> turn_index a = turn_index st \<Longrightarrow>
          turn b = turn st \<and> turn_index b = turn_index st"
    by (simp add: same_setup_def)
  show "\<And>a g. turn a = turn st \<and> turn_index a = turn_index st \<Longrightarrow>
          turn (fst (handle_gimmicks ds a g)) = turn st \<and>
          turn_index (fst (handle_gimmicks ds a g)) = turn_index st"
    using gimmick_loop_frame by (simp add: handle_gimmicks_def same_frame_def)
  show "turn st = turn st \<and> turn_index st = turn_index st" by simp
qed

lemma after_player_action_counters:
  "after_player_action ds st g = (None, st', g') \<Longrightarrow>
   turn st' = turn st + 1 \<and> turn_index st' = turn_index st + 1"
proof -
  assume run: "after_player_action ds st g = (None, st', g')"
  let ?ea = "enemy_action ds st g"
  let ?et = "end_of_turn ds (fst (snd ?ea)) (snd (snd ?ea))"
  from run have st': "st' = (fst (snd ?et))\<lparr>turn := turn (fst (snd ?et)) + 1,
                                          turn_index := turn_index (fst (snd ?et)) + 1\<rparr>"
    by (auto simp: after_player_action_def case_prod_beta split: option.splits)
  have "same_setup (fst (snd ?ea)) (fst (snd ?et))" by (rule end_of_turn_same)
  then have "turn (fst (snd ?et)) = turn st \<and> turn_index (fst (snd ?et)) = turn_index st"
    using enemy_action_counters[of ds st g] by (simp add: same_setup_def)
  with st' show ?thesis by simp
qed

lemma player_turn_counters:
  "player_turn ds inp st g = (None, st', g') \<Longrightarrow>
   turn st' = turn st + 1 \<and> turn_index st' = turn_index st + 1"
proof (cases inp)
  case (UseSkill skill_id)
  assume "player_turn ds inp st g = (None, st', g')"
  with UseSkill have r: "player_use_skill ds st skill_id g = (None, st', g')" by simp
  let ?st0 = "st\<lparr>logs := snd (can_act (player st) (logs st))\<rparr>"
  let ?u = "use_skill ds ?st0 True skill_id g"
  have s: "same_setup st (fst (snd ?u))"
    by (rule same_setup_trans[OF same_setup_logs use_skill_same])
  from r have "after_player_action ds ?st0 g = (None, st', g') \<or>
               after_player_action ds (fst (snd ?u)) (snd (snd ?u)) = (None, st', g')"
    by (auto simp: player_use_skill_def Let_def case_prod_beta split: option.splits if_splits)
  then show ?thesis
  proof
    assume "after_player_action ds ?st0 g = (None, st', g')"
    from after_player_action_counters[OF this] show ?thesis by simp
  next
    assume "after_player_action ds (fst (snd ?u)) (snd (snd ?u)) = (None, st', g')"
    from after_player_action_counters[OF this] s show ?thesis by (simp add: same_setup_def)
  qed
next
  case (UseItem item_id)
  assume "player_turn ds inp st g = (None, st', g')"
  with UseItem have r: "player_use_item ds st item_id g = (None, st', g')" by simp
  then obtain sta ga where a: "after_player_action ds sta ga = (None, st', g')"
    and t: "turn sta = turn st \<and> turn_index sta = turn_index st"
    by (auto simp: player_use_item_def Let_def case_prod_beta split: if_splits)
  from after_player_action_counters[OF a] t show ?thesis by simp
qed

text \<open>
  C7. In a battle started by \<open>start_battle\<close> and driven by any sequence of player
  inputs, a gimmick whose \<open>once\<close> flag is true fires at most once. A gimmick with
  trigger \<open>every_n_turns\<close> and \<open>once\<close> false fires in an evaluation of the gimmicks
  exactly when \<open>n > 0\<close> and the turn index is a multiple of \<open>n\<close>, whatever has happened
  before; and every turn that does not end the battle raises the turn index by one.
\<close>

theorem gimmick_firing:
  "(g_once gm \<and> idx < length (gimmicks e) \<and> gimmicks e ! idx = Some gm \<longrightarrow>
      count_list (map snd (fired (fst (snd (run_battle ds inputs (start_battle p e xp dt) g)))))
        idx \<le> 1) \<and>
   (\<not> g_once gm \<and> g_trigger gm = Some ''every_n_turns'' \<and>
    idx < length (gimmicks (enemy st)) \<and> gimmicks (enemy st) ! idx = Some gm \<longrightarrow>
      ((turn_index st, idx) \<in> set (drop (length (fired st))
                                      (fired (fst (handle_gimmicks ds st g)))))
      = (let n = (case g_n gm of None \<Rightarrow> 1 | Some v \<Rightarrow> v) in 0 < n \<and> turn_index st mod n = 0)) \<and>
   (\<forall>st' g'. player_turn ds inp st g = (None, st', g') \<longrightarrow>
      turn_index st' = turn_index st + 1)"
proof -
  have a: "g_once gm \<and> idx < length (gimmicks e) \<and> gimmicks e ! idx = Some gm \<longrightarrow>
      count_list (map snd (fired (fst (snd (run_battle ds inputs (start_battle p e xp dt) g)))))
        idx \<le> 1"
  proof
    assume h: "g_once gm \<and> idx < length (gimmicks e) \<and> gimmicks e ! idx = Some gm"
    have q: "once_inv idx (start_battle p e xp dt) \<and>
             gimmicks (enemy (start_battle p e xp dt)) = gimmicks e"
      by (simp add: once_inv_start) (simp add: start_battle_def)
    from once_kept[of gm idx "gimmicks e" "start_battle p e xp dt" ds inputs g] h q
    have "once_inv idx (fst (snd (run_battle ds inputs (start_battle p e xp dt) g)))" by blast
    then show "count_list (map snd (fired (fst (snd (run_battle ds inputs
                 (start_battle p e xp dt) g))))) idx \<le> 1"
      by (simp add: once_inv_def)
  qed
  have b: "\<not> g_once gm \<and> g_trigger gm = Some ''every_n_turns'' \<and>
    idx < length (gimmicks (enemy st)) \<and> gimmicks (enemy st) ! idx = Some gm \<longrightarrow>
      ((turn_index st, idx) \<in> set (drop (length (fired st))
                                      (fired (fst (handle_gimmicks ds st g)))))
      = (let n = (case g_n gm of None \<Rightarrow> 1 | Some v \<Rightarrow> v) in 0 < n \<and> turn_index st mod n = 0)"
  proof
    assume h: "\<not> g_once gm \<and> g_trigger gm = Some ''every_n_turns'' \<and>
      idx < length (gimmicks (enemy st)) \<and> gimmicks (enemy st) ! idx = Some gm"
    from h gimmick_loop_every[of gm idx "gimmicks (enemy st)" st 0 ds g]
    show "((turn_index st, idx) \<in> set (drop (length (fired st))
                                      (fired (fst (handle_gimmicks ds st g)))))
      = (let n = (case g_n gm of None \<Rightarrow> 1 | Some v \<Rightarrow> v) in 0 < n \<and> turn_index st mod n = 0)"
      by (simp add: handle_gimmicks_def every_n_due_def)
  qed
  have c: "\<forall>st' g'. player_turn ds inp st g = (None, st', g') \<longrightarrow>
      turn_index st' = turn_index st + 1"
    using player_turn_counters[of ds inp st g] by blast
  from a b c show ?thesis by blast
qed

theorem gimmick_firing_witness:
  "count_list (map snd (fired (fst (snd (run_battle demo_ds
       [UseSkill ''__basic__'', UseSkill ''__basic__'', UseSkill ''__basic__'']
       (start_battle demo_player demo_boss 50 None) (sconst 0)))))) 1 \<le> 1 \<and>
   (3, 0) \<in> set (drop (length (fired (boss_state\<lparr>turn_index := 3\<rparr>)))
                    (fired (fst (handle_gimmicks demo_ds (boss_state\<lparr>turn_index := 3\<rparr>)
                                  (sconst 0)))))"
proof -
  note t = gimmick_firing[of enrage_gimmick 1 demo_boss demo_ds
      "[UseSkill ''__basic__'', UseSkill ''__basic__'', UseSkill ''__basic__'']"
      demo_player 50 None "sconst 0" "boss_state\<lparr>turn_index := 3\<rparr>" "UseSkill ''__basic__''"]
  note u = gimmick_firing[of every3_gimmick 0 demo_boss demo_ds "[]"
      demo_player 50 None "sconst 0" "boss_state\<lparr>turn_index := 3\<rparr>" "UseSkill ''__basic__''"]
  have h1: "g_once enrage_gimmick \<and> 1 < length (gimmicks demo_boss) \<and>
            gimmicks demo_boss ! 1 = Some enrage_gimmick"
    by (simp add: enrage_gimmick_def demo_boss_def)
  have h2: "\<not> g_once every3_gimmick \<and> g_trigger every3_gimmick = Some ''every_n_turns'' \<and>
            0 < length (gimmicks (enemy (boss_state\<lparr>turn_index := 3\<rparr>))) \<and>
            gimmicks (enemy (boss_state\<lparr>turn_index := 3\<rparr>)) ! 0 = Some every3_gimmick"
    by (simp add: every3_gimmick_def boss_state_def start_battle_def demo_boss_def)
  have due: "(let n = (case g_n every3_gimmick of None \<Rightarrow> 1 | Some v \<Rightarrow> v)
              in 0 < n \<and> turn_index (boss_state\<lparr>turn_index := 3\<rparr>) mod n = 0)"
    by (simp add: every3_gimmick_def)
  have ti: "turn_index (boss_state\<lparr>turn_index := 3\<rparr>) = 3" by simp
  from t h1 have "count_list (map snd (fired (fst (snd (run_battle demo_ds
       [UseSkill ''__basic__'', UseSkill ''__basic__'', UseSkill ''__basic__'']
       (start_battle demo_player demo_boss 50 None) (sconst 0)))))) 1 \<le> 1"
    by blast
  moreover from u h2 due have "(turn_index (boss_state\<lparr>turn_index := 3\<rparr>), 0) \<in>
      set (drop (length (fired (boss_state\<lparr>turn_index := 3\<rparr>)))
                (fired (fst (handle_gimmicks demo_ds (boss_state\<lparr>turn_index := 3\<rparr>)
                              (sconst 0)))))"
    by blast
  ultimately show ?thesis by (simp only: ti)
qed


section \<open>Illegal player actions\<close>

lemma floor_rat_numeral:
  "\<lfloor>(numeral a / numeral b :: rat)\<rfloor> = numeral a div numeral b"
  using floor_divide_of_int_eq[of "numeral a" "numeral b", where ?'a = rat] by simp

lemmas engine_defs =
  player_use_skill_def player_use_item_def after_player_action_def enemy_action_def
  end_of_turn_def use_skill_def
  resolve_skill_def deal_damage_def skill_damage_eq basic_physical_simps basic_magic
  damage_part_int lookup_skill_def basic_skill_def
  on_hit_proc_def lifesteal_heal_def finish_def can_act_def has_effect_def
  tick_end_of_turn_def side_stats_def side_hp_def total_stats_def get_total_stats_def
  equip_bonus_def equip_multipliers_def resolve_item_def init_multipliers_def dict_add_all_def
  effect_bonus_def with_bonus_def dict_get_def py_int_def apply_damage_def is_dead_def
  rng_choice_def rng_random_def clear_all_battle_effects_def handle_gimmicks_def

lemmas demo_defs =
  demo_state_def start_battle_def demo_player_def demo_enemy_def demo_stats_def demo_ds_def

lemma after_player_action_player:
  "same_actor (player st) (player (fst (snd (after_player_action ds st g))))"
proof (rule after_player_action_preserves[where Q="\<lambda>a. same_actor (player st) (player a)"])
  show "\<And>(a::BattleState) b. same_setup a b \<Longrightarrow> same_actor (player st) (player a) \<Longrightarrow>
          same_actor (player st) (player b)"
    using same_actor_trans by (auto simp: same_setup_def)
  show "\<And>(a::BattleState) g. same_actor (player st) (player a) \<Longrightarrow>
          same_actor (player st) (player (fst (handle_gimmicks ds a g)))"
  proof -
    fix a :: BattleState and g assume a: "same_actor (player st) (player a)"
    have "same_frame a (fst (gimmick_loop ds 0 (gimmicks (enemy a)) a g))"
      by (rule gimmick_loop_frame)
    then have "same_actor (player a) (player (fst (handle_gimmicks ds a g)))"
      by (simp add: same_frame_def handle_gimmicks_def)
    with a show "same_actor (player st) (player (fst (handle_gimmicks ds a g)))"
      by (rule same_actor_trans)
  qed
  show "\<And>(a::BattleState) t ti. same_actor (player st) (player a) \<Longrightarrow>
          same_actor (player st) (player (a\<lparr>turn := t, turn_index := ti\<rparr>))"
    by simp
  show "same_actor (player st) (player st)" by (rule same_actor_refl)
qed

lemma allocate_stat_fails:
  "stat_key \<notin> {''attack'', ''magic'', ''defense'', ''magic_resist'', ''max_hp''} \<or>
   stat_points p < max 1 points \<Longrightarrow>
   \<not> fst (allocate_stat p items stat_key points) \<and>
   fst (snd (allocate_stat p items stat_key points)) \<noteq> None \<and>
   snd (snd (allocate_stat p items stat_key points)) = p"
  by (auto simp: allocate_stat_def Let_def)

lemma stunned_skill:
  "has_effect (player st) ''stun'' \<Longrightarrow>
   player_use_skill ds st skill_id g =
     after_player_action ds (st\<lparr>logs := logs st @ [LogCannotAct (name (player st))]\<rparr>) g"
  by (simp add: player_use_skill_def can_act_stunned)

lemma stunned_item:
  "has_effect (player st) ''stun'' \<Longrightarrow>
   player_use_item ds st item_id g =
     after_player_action ds (st\<lparr>logs := logs st @ [LogCannotAct (name (player st))]\<rparr>) g"
  by (simp add: player_use_item_def can_act_stunned)

lemma item_not_held:
  "\<not> has_effect (player st) ''stun'' \<Longrightarrow> dict_get (inventory (player st)) item_id 0 \<le> 0 \<Longrightarrow>
   player_use_item ds st item_id g =
     after_player_action ds (st\<lparr>logs := logs st @ [LogNoItem]\<rparr>) g"
  by (simp add: player_use_item_def can_act_free)

text \<open>
  C5 as stated fails: the stunned demo player who attacks loses the turn. The enemy
  hits for 10, the tick runs and the turn counter goes from 1 to 2.
\<close>

theorem stunned_action_changes_state:
  "has_effect (player stunned_state) ''stun'' \<and>
   turn stunned_state = 1 \<and> hp (player stunned_state) = 100 \<and>
   turn (fst (snd (player_use_skill demo_ds stunned_state ''__basic__'' (sconst 0)))) = 2 \<and>
   hp (player (fst (snd (player_use_skill demo_ds stunned_state ''__basic__'' (sconst 0))))) = 90"
  by (simp add: engine_defs stunned_state_def stun_effect_def demo_defs Let_def
        floor_rat_numeral)

text \<open>
  C5, amended. Equipping an id that \<open>equip_item\<close> rejects (unknown, not equipment, no
  valid slot, not held) and allocating more stat points than available (or to an
  unknown stat) return a failure indicator and leave the player unchanged. Using an
  item that is not held, and acting while stunned, log the reason and do nothing of
  their own, but the turn goes on as after any player action: the enemy acts, the
  effects are ticked and, unless the battle ends with the enemy's action, the turn
  counters advance. Through that rest of the turn the player changes in hp and effects
  only: inventory and equipment are as before.
\<close>

theorem illegal_actions:
  "((\<forall>slot. \<not> equip_ok p item_id ds slot) \<longrightarrow>
      \<not> fst (equip_item p item_id ds) \<and> snd (snd (equip_item p item_id ds)) = p) \<and>
   (stat_key \<notin> {''attack'', ''magic'', ''defense'', ''magic_resist'', ''max_hp''} \<or>
    stat_points p < max 1 points \<longrightarrow>
      \<not> fst (allocate_stat p items stat_key points) \<and>
      fst (snd (allocate_stat p items stat_key points)) \<noteq> None \<and>
      snd (snd (allocate_stat p items stat_key points)) = p) \<and>
   (has_effect (player st) ''stun'' \<longrightarrow>
      player_use_skill ds st skill_id g =
        after_player_action ds (st\<lparr>logs := logs st @ [LogCannotAct (name (player st))]\<rparr>) g \<and>
      player_use_item ds st item_id g =
        after_player_action ds (st\<lparr>logs := logs st @ [LogCannotAct (name (player st))]\<rparr>) g) \<and>
   (\<not> has_effect (player st) ''stun'' \<and> dict_get (inventory (player st)) item_id 0 \<le> 0 \<longrightarrow>
      player_use_item ds st item_id g =
        after_player_action ds (st\<lparr>logs := logs st @ [LogNoItem]\<rparr>) g) \<and>
   (let st' = fst (snd (after_player_action ds st g))
    in inventory (player st') = inventory (player st) \<and>
       equipment (player st') = equipment (player st) \<and>
       (fst (after_player_action ds st g) = None \<longrightarrow>
          turn st' = turn st + 1 \<and> turn_index st' = turn_index st + 1))"
proof -
  have e: "(\<forall>slot. \<not> equip_ok p item_id ds slot) \<longrightarrow>
      \<not> fst (equip_item p item_id ds) \<and> snd (snd (equip_item p item_id ds)) = p"
    using equip_item_fails[of p item_id ds] by blast
  have a: "stat_key \<notin> {''attack'', ''magic'', ''defense'', ''magic_resist'', ''max_hp''} \<or>
    stat_points p < max 1 points \<longrightarrow>
      \<not> fst (allocate_stat p items stat_key points) \<and>
      fst (snd (allocate_stat p items stat_key points)) \<noteq> None \<and>
      snd (snd (allocate_stat p items stat_key points)) = p"
    using allocate_stat_fails[of stat_key p points items] by blast
  have s: "has_effect (player st) ''stun'' \<longrightarrow>
      player_use_skill ds st skill_id g =
        after_player_action ds (st\<lparr>logs := logs st @ [LogCannotAct (name (player st))]\<rparr>) g \<and>
      player_use_item ds st item_id g =
        after_player_action ds (st\<lparr>logs := logs st @ [LogCannotAct (name (player st))]\<rparr>) g"
    using stunned_skill[of st ds skill_id g] stunned_item[of st ds item_id g] by blast
  have n: "\<not> has_effect (player st) ''stun'' \<and> dict_get (inventory (player st)) item_id 0 \<le> 0 \<longrightarrow>
      player_use_item ds st item_id g =
        after_player_action ds (st\<lparr>logs := logs st @ [LogNoItem]\<rparr>) g"
    using item_not_held[of st item_id ds g] by blast
  have f: "let st' = fst (snd (after_player_action ds st g))
    in inventory (player st') = inventory (player st) \<and>
       equipment (player st') = equipment (player st) \<and>
       (fst (after_player_action ds st g) = None \<longrightarrow>
          turn st' = turn st + 1 \<and> turn_index st' = turn_index st + 1)"
  proof -
    obtain r st' g' where run: "after_player_action ds st g = (r, st', g')"
      by (cases "after_player_action ds st g")
    from after_player_action_player[of st ds g] run
    have "same_actor (player st) (player st')" by simp
    from same_actor_player[OF this]
    have "inventory (player st') = inventory (player st) \<and>
          equipment (player st') = equipment (player st)" by simp
    moreover have "r = None \<longrightarrow> turn st' = turn st + 1 \<and> turn_index st' = turn_index st + 1"
      using after_player_action_counters[of ds st g st' g'] run by simp
    ultimately show ?thesis using run by (simp add: Let_def)
  qed
  from e a s n f show ?thesis by blast
qed

theorem illegal_actions_witness:
  "\<not> fst (equip_item gear_player ''potion'' gear_ds) \<and>
   snd (snd (equip_item gear_player ''potion'' gear_ds)) = gear_player \<and>
   \<not> fst (allocate_stat gear_player [] ''attack'' 1) \<and>
   snd (snd (allocate_stat gear_player [] ''attack'' 1)) = gear_player \<and>
   player_use_skill demo_ds stunned_state ''__basic__'' (sconst 0) =
     after_player_action demo_ds
       (stunned_state\<lparr>logs := logs stunned_state @ [LogCannotAct ''hero'']\<rparr>) (sconst 0) \<and>
   player_use_item demo_ds demo_state ''potion'' (sconst 0) =
     after_player_action demo_ds (demo_state\<lparr>logs := logs demo_state @ [LogNoItem]\<rparr>)
       (sconst 0) \<and>
   inventory (player (fst (snd (after_player_action demo_ds demo_state (sconst 0))))) = []"
proof -
  note t1 = illegal_actions[of gear_player "''potion''" gear_ds "''attack''" 1 "[]"
              stunned_state "''__basic__''" "sconst 0"]
  note t2 = illegal_actions[of gear_player "''potion''" demo_ds "''attack''" 1 "[]"
              demo_state "''__basic__''" "sconst 0"]
  have no: "\<forall>slot. \<not> equip_ok gear_player ''potion'' gear_ds slot"
    by (simp add: equip_ok_def gear_ds_def get_item_def demo_potion_def)
  have pts: "stat_points gear_player < max 1 1"
    by (simp add: gear_player_def demo_player_def)
  have stun: "has_effect (player stunned_state) ''stun''"
    by (simp add: has_effect_def stunned_state_def stun_effect_def)
  have nm: "name (player stunned_state) = ''hero''"
    by (simp add: stunned_state_def demo_defs)
  have free: "\<not> has_effect (player demo_state) ''stun'' \<and>
              dict_get (inventory (player demo_state)) ''potion'' 0 \<le> 0"
    by (simp add: has_effect_def demo_defs dict_get_def)
  have inv: "inventory (player demo_state) = []"
    by (simp add: demo_defs)
  from t1 no have "\<not> fst (equip_item gear_player ''potion'' gear_ds) \<and>
      snd (snd (equip_item gear_player ''potion'' gear_ds)) = gear_player" by blast
  moreover from t1 pts have "\<not> fst (allocate_stat gear_player [] ''attack'' 1) \<and>
      snd (snd (allocate_stat gear_player [] ''attack'' 1)) = gear_player" by blast
  moreover from t1 stun have "player_use_skill demo_ds stunned_state ''__basic__'' (sconst 0) =
     after_player_action demo_ds
       (stunned_state\<lparr>logs := logs stunned_state @ [LogCannotAct (name (player stunned_state))]\<rparr>)
       (sconst 0)"
    using illegal_actions[of gear_player "''potion''" demo_ds "''attack''" 1 "[]"
              stunned_state "''__basic__''" "sconst 0"] by blast
  moreover from t2 free have "player_use_item demo_ds demo_state ''potion'' (sconst 0) =
     after_player_action demo_ds (demo_state\<lparr>logs := logs demo_state @ [LogNoItem]\<rparr>)
       (sconst 0)" by blast
  moreover from t2 have
    "inventory (player (fst (snd (after_player_action demo_ds demo_state (sconst 0))))) =
     inventory (player demo_state)"
    unfolding Let_def by blast
  ultimately show ?thesis by (simp add: nm inv)
qed


section \<open>Stun\<close>

text \<open>
  An actor cannot act exactly while \<open>stun_turns\<close> is positive; an end-of-turn tick
  lowers it by one; a new stun of duration \<open>d\<close> raises it to \<open>d\<close> if it was lower.
\<close>

lemma fold_max_pos: "(0 < fold max ds (b::int)) = (0 < b \<or> (\<exists>d\<in>set ds. 0 < d))"
  by (induction ds arbitrary: b) auto

lemma has_stun_iff: "has_effect a ''stun'' = (0 < stun_turns a)"
  by (auto simp: has_effect_def stun_turns_def fold_max_pos list_ex_iff)

lemma tick_loop_effects:
  "fst (snd (tick_loop nm effs h remaining lg)) =
     remaining @ filter (\<lambda>e. 0 < duration e) (map (\<lambda>e. e\<lparr>duration := duration e - 1\<rparr>) effs)"
  by (induction effs arbitrary: h remaining lg) (simp_all add: Let_def case_prod_beta)

lemma tick_effects:
  "effects (fst (tick_end_of_turn a lg)) =
     filter (\<lambda>e. 0 < duration e) (map (\<lambda>e. e\<lparr>duration := duration e - 1\<rparr>) (effects a))"
  using tick_loop_effects[of "name a" "effects a" "hp a" "[]" lg]
  by (simp add: tick_end_of_turn_def case_prod_beta)

lemma fold_max_shift:
  "fold max (map (\<lambda>d. d - 1) (filter (\<lambda>d. 0 < d - 1) ds)) (max 0 (b - 1)) =
     max 0 (fold max ds (b::int) - 1)"
proof (induction ds arbitrary: b)
  case Nil
  show ?case by simp
next
  case (Cons d ds)
  show ?case
  proof (cases "0 < d - 1")
    case True
    then have "max (d - 1) (max 0 (b - 1)) = max 0 (max d b - 1)" by simp
    with True Cons.IH[of "max d b"] show ?thesis by simp
  next
    case False
    then have "max 0 (b - 1) = max 0 (max d b - 1)" by simp
    with False Cons.IH[of "max d b"] show ?thesis by simp
  qed
qed

lemma stun_durations_tick:
  "map duration (filter (\<lambda>e. kind e = ''stun'')
      (filter (\<lambda>e. 0 < duration e) (map (\<lambda>e. e\<lparr>duration := duration e - 1\<rparr>) effs))) =
   map (\<lambda>d. d - 1) (filter (\<lambda>d. 0 < d - 1)
      (map duration (filter (\<lambda>e. kind e = ''stun'') effs)))"
  by (induction effs) simp_all

lemma stun_turns_tick:
  "stun_turns (fst (tick_end_of_turn a lg)) = max 0 (stun_turns a - 1)"
proof -
  let ?ds = "map duration (filter (\<lambda>e. kind e = ''stun'') (effects a))"
  have "stun_turns (fst (tick_end_of_turn a lg)) =
          fold max (map (\<lambda>d. d - 1) (filter (\<lambda>d. 0 < d - 1) ?ds)) 0"
    by (simp only: stun_turns_def tick_effects stun_durations_tick)
  also have "\<dots> = fold max (map (\<lambda>d. d - 1) (filter (\<lambda>d. 0 < d - 1) ?ds)) (max 0 (0 - 1))"
    by simp
  also have "\<dots> = max 0 (fold max ?ds 0 - 1)"
    by (rule fold_max_shift)
  finally show ?thesis by (simp only: stun_turns_def)
qed

lemma stun_turns_new:
  "stun_turns (a\<lparr>effects := effects a @ [stun_effect d]\<rparr>) = max d (stun_turns a)"
  by (simp add: stun_turns_def stun_effect_def)

lemmas effect_defs =
  apply_effect_on_def apply_effect_def py_or_def truthy_def py_str_def

text \<open>
  The sibling case: the player's skill stuns the enemy for one turn. The enemy's action
  of that turn is skipped, and the stun is gone after the tick.
\<close>

lemma enemy_stun_one_turn:
  "(let r = player_use_skill stun_ds bashing_player_battle ''bash'' (sconst 0);
        st1 = fst (snd r)
    in fst r = None \<and> LogStunApplied ''slime'' 1 \<in> set (logs st1) \<and>
       LogCannotAct ''slime'' \<in> set (logs st1) \<and> hp (player st1) = 100 \<and>
       effects (enemy st1) = [] \<and> turn st1 = 2)"
  by (simp add: engine_defs effect_defs bashing_player_battle_def stun_ds_def bash_skill_def
        stun_spec_def demo_defs Let_def floor_rat_numeral)

text \<open>
  C4 at the failing input: the enemy's skill stuns the player for one turn. The stun is
  applied after the player's action of the turn and expires at the tick of the same
  turn, so it prevents no action: on the next turn the player can act.
\<close>

theorem player_stun_one_turn_short:
  "(let r = player_use_skill stun_ds basher_battle ''__basic__'' (sconst 0);
        st1 = fst (snd r)
    in fst r = None \<and> LogStunApplied ''hero'' 1 \<in> set (logs st1) \<and>
       LogCannotAct ''hero'' \<notin> set (logs st1) \<and> turn st1 = 2 \<and>
       effects (player st1) = [] \<and> can_act (player st1) [] = (True, []))"
  by (simp add: engine_defs effect_defs basher_battle_def stun_ds_def bash_skill_def
        stun_spec_def demo_defs Let_def floor_rat_numeral)

end
